(* ===== verification/Ananke_Prelude.thy ===== *)
theory Ananke_Prelude
  imports Main "HOL-Library.List_Lexorder" "HOL-Library.Char_ord"
begin

section \<open>Prelude: tables, sequence numbers and results\<close>

text \<open>
  What every component of the store shares.  The store of \<^verbatim>\<open>src/internal/store\<close> is a SQLite
  database.  A table is the list of its rows in insertion (rowid) order; the SQL statements of the
  code are the list functions below:
  \<^item> \<open>SELECT ... WHERE\<close> for one row is \<open>find\<close>, for several rows \<open>filter\<close>;
  \<^item> \<open>UPDATE ... SET ... WHERE\<close> is \<open>update_where\<close>, and its \<open>RowsAffected\<close> is
    \<open>rows_affected\<close>;
  \<^item> \<open>SELECT MAX(c)\<close> is \<open>sql_max\<close>, with \<open>None\<close> for SQL's \<open>NULL\<close> on no rows;
  \<^item> \<open>ORDER BY c ASC\<close> is \<open>order_by\<close> (a stable sort).
  A fallible operation returns \<open>error + value\<close>, \<open>Inl\<close> for the error.  Every mutating
  operation of the store runs in one transaction that rolls back on every error return, so an
  \<open>Inl\<close> result leaves the database as it was.
\<close>

named_theorems tab_simps \<open>facts on rows of keyed tables\<close>
named_theorems op_defs \<open>unfolding of the store's operations\<close>

subsection \<open>SQL statements on a table\<close>

definition update_where :: "('r \<Rightarrow> bool) \<Rightarrow> ('r \<Rightarrow> 'r) \<Rightarrow> 'r list \<Rightarrow> 'r list" where
  "update_where p f t = map (\<lambda>r. if p r then f r else r) t"

definition rows_affected :: "('r \<Rightarrow> bool) \<Rightarrow> 'r list \<Rightarrow> nat" where
  "rows_affected p t = length (filter p t)"

definition sql_max :: "int list \<Rightarrow> int option" where
  "sql_max xs = (case xs of [] \<Rightarrow> None | x # ys \<Rightarrow> Some (fold max ys x))"

definition order_by :: "('r \<Rightarrow> 'k::linorder) \<Rightarrow> 'r list \<Rightarrow> 'r list" where
  "order_by k t = sort_key k t"

text \<open>The sequence number the code gives to the next row: one more than the largest, or 1.\<close>

definition next_seq :: "int list \<Rightarrow> int" where
  "next_seq xs = (case sql_max xs of None \<Rightarrow> 1 | Some m \<Rightarrow> m + 1)"

subsection \<open>Facts on tables\<close>

lemma update_where_Nil [simp]: "update_where p f [] = []"
  by (simp add: update_where_def)

lemma update_where_Cons [simp]:
  "update_where p f (x # t) = (if p x then f x else x) # update_where p f t"
  by (simp add: update_where_def)

lemma update_where_append [simp]:
  "update_where p f (t @ u) = update_where p f t @ update_where p f u"
  by (simp add: update_where_def)

lemma length_update_where [simp]: "length (update_where p f t) = length t"
  by (simp add: update_where_def)

lemma set_update_where: "set (update_where p f t) = (\<lambda>r. if p r then f r else r) ` set t"
  by (simp add: update_where_def)

lemma map_update_where [simp]:
  assumes "\<And>r. p r \<Longrightarrow> g (f r) = g r"
  shows "map g (update_where p f t) = map g t"
  using assms by (simp add: update_where_def)

lemma update_where_cong:
  "(\<And>r. r \<in> set t \<Longrightarrow> p r = q r) \<Longrightarrow> update_where p f t = update_where q f t"
  by (simp add: update_where_def)

lemma update_where_none: "\<forall>r \<in> set t. \<not> p r \<Longrightarrow> update_where p f t = t"
  by (induction t) auto

lemma rows_affected_zero_iff: "rows_affected p t = 0 \<longleftrightarrow> (\<forall>r \<in> set t. \<not> p r)"
  by (auto simp: rows_affected_def filter_empty_conv)

lemma find_None_iff_set: "find p t = None \<longleftrightarrow> (\<forall>r \<in> set t. \<not> p r)"
  by (induction t) auto

lemma find_SomeD: "find p t = Some r \<Longrightarrow> r \<in> set t \<and> p r"
  by (induction t) (auto split: if_splits)

lemma find_append: "find p (t @ u) = (case find p t of None \<Rightarrow> find p u | Some r \<Rightarrow> Some r)"
  by (induction t) auto

lemma fold_max_append: "fold max (ys @ [z]) (x::int) = max z (fold max ys x)"
  by simp

lemma set_order_by [simp]: "set (order_by k t) = set t"
  by (simp add: order_by_def)

lemma sorted_order_by: "sorted (map k (order_by k t))"
  by (simp add: order_by_def)

lemma order_by_sorted: "sorted (map k t) \<Longrightarrow> order_by k t = t"
  by (simp add: order_by_def sort_key_id_if_sorted)

lemma order_by_filter: "filter p (order_by k t) = order_by k (filter p t)"
  by (simp add: order_by_def filter_sort)

subsection \<open>Sequencing of fallible steps\<close>

text \<open>\<open>if err != nil { return err }\<close>: go on with the value, or stop with the error.\<close>

definition andThen :: "'e + 'a \<Rightarrow> ('a \<Rightarrow> 'e + 'b) \<Rightarrow> 'e + 'b" where
  "andThen m f = (case m of Inl e \<Rightarrow> Inl e | Inr x \<Rightarrow> f x)"

text \<open>A guard: the error unless the condition holds.\<close>

definition ensure :: "bool \<Rightarrow> 'e \<Rightarrow> 'e + unit" where
  "ensure b e = (if b then Inr () else Inl e)"

text \<open>A row that must exist.\<close>

definition require :: "'e \<Rightarrow> 'a option \<Rightarrow> 'e + 'a" where
  "require e x = (case x of None \<Rightarrow> Inl e | Some v \<Rightarrow> Inr v)"

lemma andThen_simps [simp]: "andThen (Inl e) f = Inl e" "andThen (Inr x) f = f x"
  by (simp_all add: andThen_def)

lemma andThen_Inr: "andThen m f = Inr y \<longleftrightarrow> (\<exists>x. m = Inr x \<and> f x = Inr y)"
  by (cases m) auto

lemma andThen_Inl: "andThen m f = Inl e \<longleftrightarrow> m = Inl e \<or> (\<exists>x. m = Inr x \<and> f x = Inl e)"
  by (cases m) auto

lemma ensure_Inr [simp]: "ensure b e = Inr u \<longleftrightarrow> b"
  by (simp add: ensure_def)

lemma ensure_Inl [simp]: "ensure b e = Inl e' \<longleftrightarrow> \<not> b \<and> e' = e"
  by (auto simp: ensure_def)

lemma ensure_True [simp]: "ensure True e = Inr ()"
  by (simp add: ensure_def)

lemma ensure_False [simp]: "ensure False e = Inl e"
  by (simp add: ensure_def)

lemma require_Inr [simp]: "require e x = Inr v \<longleftrightarrow> x = Some v"
  by (simp add: require_def split: option.split)

lemma require_Inl [simp]: "require e x = Inl e' \<longleftrightarrow> x = None \<and> e' = e"
  by (auto simp: require_def split: option.split)

subsection \<open>Sequence numbers without gaps\<close>

text \<open>The numbers \<open>b, b + 1, ..., b + n - 1\<close> in this order.\<close>

definition gapless :: "int \<Rightarrow> int list \<Rightarrow> bool" where
  "gapless b xs \<longleftrightarrow> (\<forall>i < length xs. xs ! i = b + int i)"

lemma gapless_Nil [simp]: "gapless b []"
  by (simp add: gapless_def)

lemma gapless_snoc: "gapless b (xs @ [y]) \<longleftrightarrow> gapless b xs \<and> y = b + int (length xs)"
  by (auto simp: gapless_def nth_append less_Suc_eq)

lemma gapless_sql_max:
  "gapless b xs \<Longrightarrow> sql_max xs = (if xs = [] then None else Some (b + int (length xs) - 1))"
proof (induction xs rule: rev_induct)
  case Nil
  then show ?case by (simp add: sql_max_def)
next
  case (snoc y xs)
  then have "gapless b xs" and y: "y = b + int (length xs)"
    by (auto simp: gapless_snoc)
  with snoc.IH show ?case
    by (cases xs) (auto simp: sql_max_def)
qed

lemma gapless_nth: "gapless b xs \<Longrightarrow> i < length xs \<Longrightarrow> xs ! i = b + int i"
  by (simp add: gapless_def)

lemma gapless_distinct: "gapless b xs \<Longrightarrow> distinct xs"
  by (simp add: gapless_def distinct_conv_nth)

lemma gapless_sorted: "gapless b xs \<Longrightarrow> sorted xs"
  by (auto simp: sorted_iff_nth_mono gapless_nth)

lemma gapless_filter_gt:
  assumes "gapless b xs" and "b - 1 \<le> k"
  shows "filter (\<lambda>x. k < x) xs = drop (nat (k - b + 1)) xs"
  using assms
proof (induction xs rule: rev_induct)
  case Nil
  then show ?case by simp
next
  case (snoc y xs)
  then have "gapless b xs" and y: "y = b + int (length xs)"
    by (auto simp: gapless_snoc)
  with snoc show ?case
    by auto
qed

lemma next_seq_gapless_one: "gapless 1 xs \<Longrightarrow> gapless 1 (xs @ [next_seq xs])"
  by (auto simp: next_seq_def gapless_snoc gapless_sql_max)

lemma next_seq_gapless_zero: "gapless 0 xs \<Longrightarrow> xs \<noteq> [] \<Longrightarrow> gapless 0 (xs @ [next_seq xs])"
  by (auto simp: next_seq_def gapless_snoc gapless_sql_max)

subsection \<open>The keyed table interface\<close>

text \<open>
  A table with a primary key: \<open>key\<close> is the key column(s), \<open>get\<close> the lookup the code
  performs.  The clients rely on what a lookup returns after an insert or an update under distinct
  keys.
\<close>

definition unique_key :: "('r \<Rightarrow> 'k) \<Rightarrow> 'r list \<Rightarrow> bool" where
  "unique_key key t \<longleftrightarrow> distinct (map key t)"

locale keyed_table =
  fixes key :: "'r \<Rightarrow> 'k"
    and get :: "'k \<Rightarrow> 'r list \<Rightarrow> 'r option"
  assumes get_Some: "unique_key key t \<Longrightarrow> get k t = Some r \<longleftrightarrow> r \<in> set t \<and> key r = k"
begin

lemma get_None: "unique_key key t \<Longrightarrow> get k t = None \<longleftrightarrow> k \<notin> key ` set t"
  using get_Some by (metis (mono_tags, lifting) image_iff not_None_eq)

lemma unique_key_insert:
  "unique_key key (t @ [r]) \<longleftrightarrow> unique_key key t \<and> get (key r) t = None"
  using get_None [of t "key r"] by (auto simp: unique_key_def)

lemma get_insert:
  assumes "unique_key key (t @ [r])"
  shows "get k (t @ [r]) = (if k = key r then Some r else get k t)"
proof -
  from assms have u: "unique_key key t" and new: "key r \<notin> key ` set t"
    by (auto simp: unique_key_def)
  show ?thesis
  proof (cases "k = key r")
    case True
    then show ?thesis using get_Some [OF assms, of k r] by simp
  next
    case False
    then have "get k (t @ [r]) = Some x \<longleftrightarrow> get k t = Some x" for x
      using get_Some [OF assms, of k x] get_Some [OF u, of k x] by auto
    then show ?thesis using False by (metis not_None_eq)
  qed
qed

lemma unique_key_update:
  assumes "\<And>r. p r \<Longrightarrow> key (f r) = key r"
  shows "unique_key key (update_where p f t) \<longleftrightarrow> unique_key key t"
  using assms by (simp add: unique_key_def)

lemma get_update:
  assumes u: "unique_key key t" and f: "\<And>r. p r \<Longrightarrow> key (f r) = key r"
  shows "get k (update_where p f t) = map_option (\<lambda>r. if p r then f r else r) (get k t)"
proof (cases "get k t")
  case None
  have "unique_key key (update_where p f t)" using u f by (simp add: unique_key_update)
  moreover have "key ` set (update_where p f t) = key ` set t"
    using map_update_where [of p key f t, OF f] by (metis list.set_map)
  ultimately have "get k (update_where p f t) = None"
    using None u by (metis get_None)
  with None show ?thesis by simp
next
  case (Some r)
  then have r: "r \<in> set t" "key r = k" using u by (auto simp: get_Some)
  have u': "unique_key key (update_where p f t)" using u f by (simp add: unique_key_update)
  have "(if p r then f r else r) \<in> set (update_where p f t)"
    using r by (auto simp: set_update_where)
  moreover have "key (if p r then f r else r) = k" using r f by simp
  ultimately show ?thesis using Some u' by (simp add: get_Some)
qed

lemma rows_affected_key:
  assumes "unique_key key t"
  shows "rows_affected (\<lambda>r. key r = k \<and> q r) t =
    (case get k t of None \<Rightarrow> 0 | Some r \<Rightarrow> if q r then 1 else 0)"
proof -
  have filt: "filter (\<lambda>r. key r = k) t = (case get k t of None \<Rightarrow> [] | Some r \<Rightarrow> [r])"
  proof (cases "get k t")
    case None
    then have "k \<notin> key ` set t" using get_None [OF assms] by simp
    with None show ?thesis by (auto simp: filter_empty_conv)
  next
    case (Some r)
    then have r: "r \<in> set t" "key r = k" using assms by (auto simp: get_Some)
    then obtain t1 t2 where t: "t = t1 @ r # t2" by (meson split_list)
    with assms r have "k \<notin> key ` (set t1 \<union> set t2)"
      by (auto simp: unique_key_def)
    then have "\<forall>x \<in> set t1 \<union> set t2. key x \<noteq> k"
      by blast
    then show ?thesis using t r Some by (simp add: filter_empty_conv)
  qed
  have "filter (\<lambda>r. key r = k \<and> q r) t = filter q (filter (\<lambda>r. key r = k) t)"
    by (simp add: conj_commute)
  then show ?thesis by (simp add: rows_affected_def filt split: option.split)
qed

end

lemma find_key_Some:
  "unique_key key t \<Longrightarrow> find (\<lambda>r. key r = k) t = Some r \<longleftrightarrow> r \<in> set t \<and> key r = k"
proof (induction t)
  case (Cons x t)
  then show ?case by (force simp: unique_key_def)
qed simp

subsection \<open>The sequence-numbered log interface\<close>

text \<open>
  Several tables of the store are append-only logs: rows carry the identity of their owner and a
  number that is one more than the owner's largest (\<open>events\<close>, \<open>state_transitions\<close>, the
  proposal activity and the Grill records).  \<open>base\<close> is the number of the first row.
\<close>

definition log_seqs :: "('r \<Rightarrow> 'k) \<Rightarrow> ('r \<Rightarrow> int) \<Rightarrow> 'k \<Rightarrow> 'r list \<Rightarrow> int list" where
  "log_seqs owner seq k t = map seq (filter (\<lambda>r. owner r = k) t)"

lemma log_seqs_snoc:
  "log_seqs owner seq k (t @ [r]) = log_seqs owner seq k t @ (if owner r = k then [seq r] else [])"
  by (simp add: log_seqs_def)

locale seq_log =
  fixes owner :: "'r \<Rightarrow> 'k"
    and seq :: "'r \<Rightarrow> int"
    and base :: int
  assumes base_one_or_zero: "base = 0 \<or> base = 1"
begin

lemma log_append_same:
  assumes "gapless base (log_seqs owner seq (owner r) t)"
    and "base = 0 \<Longrightarrow> log_seqs owner seq (owner r) t \<noteq> []"
    and "seq r = next_seq (log_seqs owner seq (owner r) t)"
  shows "gapless base (log_seqs owner seq (owner r) (t @ [r]))"
  using assms base_one_or_zero next_seq_gapless_one next_seq_gapless_zero
  by (auto simp: log_seqs_def)

lemma log_append:
  assumes "\<And>k. gapless base (log_seqs owner seq k t)"
    and "base = 0 \<Longrightarrow> log_seqs owner seq (owner r) t \<noteq> []"
    and "seq r = next_seq (log_seqs owner seq (owner r) t)"
  shows "gapless base (log_seqs owner seq k (t @ [r]))"
proof (cases "k = owner r")
  case True
  then show ?thesis using log_append_same assms by blast
next
  case False
  then show ?thesis using assms(1) [of k] by (simp add: log_seqs_def)
qed

lemma log_first:
  assumes "\<And>k. gapless base (log_seqs owner seq k t)"
    and "log_seqs owner seq (owner r) t = []" and "seq r = base"
  shows "gapless base (log_seqs owner seq k (t @ [r]))"
  using assms by (cases "k = owner r") (auto simp: log_seqs_def gapless_def)

text \<open>Numbers identify the rows of an owner: the primary key \<open>(owner, seq)\<close> holds.\<close>

lemma log_key_unique:
  assumes "\<And>k. gapless base (log_seqs owner seq k t)"
  shows "unique_key (\<lambda>r. (owner r, seq r)) t"
  using assms
proof (induction t rule: rev_induct)
  case Nil
  then show ?case by (simp add: unique_key_def)
next
  case (snoc x t)
  have "gapless base (log_seqs owner seq k t)" for k
    using snoc.prems [of k] by (auto simp: log_seqs_def gapless_snoc split: if_splits)
  then have "unique_key (\<lambda>r. (owner r, seq r)) t" by (rule snoc.IH)
  moreover have "distinct (log_seqs owner seq (owner x) (t @ [x]))"
    using snoc.prems gapless_distinct by blast
  ultimately show ?case by (fastforce simp: unique_key_def log_seqs_def)
qed

end

end
