(* ===== verification/Run_State.thy ===== *)
theory Run_State
  imports Ananke_Prelude
begin

section \<open>The cleanup state machine\<close>

text \<open>
  Models \<^verbatim>\<open>src/internal/store/state.go\<close>: the run states, \<open>IsTerminal\<close>, the adjacency table
  \<open>allowedTransitions\<close> and \<open>CanTransition\<close>.  Go's \<open>State\<close> is a string type, so a value
  outside the eight constants exists too; it is \<open>StateOther\<close>.
\<close>

datatype State =
    StateCreated
  | StateRunning
  | StateCancelling
  | StateCleanupRequired
  | StateRecoveryUnknown
  | StateCompleted
  | StateFailed
  | StateCancelled
  | StateOther string

fun IsTerminal :: "State \<Rightarrow> bool" where
  "IsTerminal StateCompleted = True"
| "IsTerminal StateFailed = True"
| "IsTerminal StateCancelled = True"
| "IsTerminal _ = False"

definition allowedTransitions :: "(State \<times> State list) list" where
  "allowedTransitions =
    [(StateCreated, [StateRunning, StateCleanupRequired, StateRecoveryUnknown]),
     (StateRunning, [StateCancelling, StateCleanupRequired, StateRecoveryUnknown,
                     StateCompleted, StateFailed, StateCancelled]),
     (StateCancelling, [StateCancelled, StateRecoveryUnknown, StateCleanupRequired, StateRunning]),
     (StateCleanupRequired, [StateFailed, StateCancelled, StateRecoveryUnknown]),
     (StateRecoveryUnknown, [StateRunning, StateCleanupRequired, StateCancelling,
                             StateCompleted, StateFailed, StateCancelled])]"

definition CanTransition :: "State \<Rightarrow> State \<Rightarrow> bool" where
  "CanTransition from to =
     (if from = to then False
      else case map_of allowedTransitions from of
        None \<Rightarrow> False
      | Some targets \<Rightarrow> to \<in> set targets)"

lemma CanTransition_iff:
  "CanTransition from to \<longleftrightarrow>
     (case from of
        StateCreated \<Rightarrow> to \<in> {StateRunning, StateCleanupRequired, StateRecoveryUnknown}
      | StateRunning \<Rightarrow> to \<in> {StateCancelling, StateCleanupRequired, StateRecoveryUnknown,
                               StateCompleted, StateFailed, StateCancelled}
      | StateCancelling \<Rightarrow> to \<in> {StateCancelled, StateRecoveryUnknown, StateCleanupRequired, StateRunning}
      | StateCleanupRequired \<Rightarrow> to \<in> {StateFailed, StateCancelled, StateRecoveryUnknown}
      | StateRecoveryUnknown \<Rightarrow> to \<in> {StateRunning, StateCleanupRequired, StateCancelling,
                                       StateCompleted, StateFailed, StateCancelled}
      | _ \<Rightarrow> False)"
  by (cases "from") (auto simp: CanTransition_def allowedTransitions_def)

lemma IsTerminal_iff: "IsTerminal s \<longleftrightarrow> s \<in> {StateCompleted, StateFailed, StateCancelled}"
  by (cases s) auto

subsection \<open>The contract of a cleanup machine\<close>

text \<open>
  What the journal and its clients rely on: terminal states have no way out, there are no self
  loops, and every non-terminal state that is not the initial one can still be retained as an
  unknown recovery (the fail-closed direction).
\<close>

locale cleanup_machine =
  fixes terminal :: "'s \<Rightarrow> bool"
    and step :: "'s \<Rightarrow> 's \<Rightarrow> bool"
  assumes terminal_stuck: "terminal a \<Longrightarrow> \<not> step a b"
    and step_irrefl: "\<not> step a a"
begin

lemma terminal_star: "step\<^sup>*\<^sup>* a b \<Longrightarrow> terminal a \<Longrightarrow> b = a"
  by (erule converse_rtranclpE) (auto dest: terminal_stuck)

text \<open>Terminal states are reached at most once on a path: it ends there.\<close>

lemma terminal_unique:
  assumes "step\<^sup>*\<^sup>* a b" and "step\<^sup>*\<^sup>* b c" and "terminal b"
  shows "c = b"
  using assms terminal_star by blast

end

interpretation cm: cleanup_machine IsTerminal CanTransition
  by unfold_locales (auto simp: CanTransition_iff IsTerminal_iff split: State.splits)

text \<open>Reachability in the table from the initial state.\<close>

lemma CanTransition_known:
  "CanTransition from to \<Longrightarrow> (\<forall>x. from \<noteq> StateOther x) \<and> (\<forall>x. to \<noteq> StateOther x) \<and> to \<noteq> StateCreated"
  by (cases "from") (auto simp: CanTransition_iff)

end
