(* ===== verification/Go_Strings.thy ===== *)
theory Go_Strings
  imports Ananke_Prelude
begin

section \<open>Go strings, runes and timestamps\<close>

text \<open>
  What the store uses of Go's strings and standard library.  A Go \<open>string\<close> is a sequence of
  bytes, so it is the HOL \<open>string\<close> (a list of 8-bit characters); \<open>len\<close> is \<open>length\<close>.
  \<open>range\<close> over a string decodes UTF-8 with \<open>utf8.DecodeRune\<close>, whose accept ranges are
  \<open>decodeRune\<close>.  Timestamps are UTC civil times and \<open>stamp_text\<close> is
  \<open>Format(time.RFC3339Nano)\<close>.
\<close>

type_synonym rune = nat

definition byte_of :: "char \<Rightarrow> nat" where
  "byte_of c = of_char c"

definition chr :: "nat \<Rightarrow> char" where
  "chr n = char_of n"

lemma byte_of_less [simp]: "byte_of c < 256"
  by (simp add: byte_of_def)

lemma chr_byte_of [simp]: "chr (byte_of c) = c"
  by (simp add: chr_def byte_of_def)

lemma byte_of_chr [simp]: "n < 256 \<Longrightarrow> byte_of (chr n) = n"
  by (simp add: chr_def byte_of_def)

lemma byte_of_inject [simp]: "byte_of c = byte_of d \<longleftrightarrow> c = d"
  by (metis chr_byte_of)

subsection \<open>UTF-8\<close>

abbreviation RuneError :: rune where
  "RuneError \<equiv> 0xFFFD"

text \<open>
  The acceptance table of \<^verbatim>\<open>unicode/utf8\<close>: for a first byte the number of bytes and the range of
  the second byte; the remaining bytes are continuation bytes \<open>0x80..0xBF\<close>.
\<close>

definition utf8_first :: "nat \<Rightarrow> (nat \<times> nat \<times> nat) option" where
  "utf8_first b =
     (if b < 0xC2 then None
      else if b < 0xE0 then Some (2, 0x80, 0xBF)
      else if b = 0xE0 then Some (3, 0xA0, 0xBF)
      else if b = 0xED then Some (3, 0x80, 0x9F)
      else if b < 0xF0 then Some (3, 0x80, 0xBF)
      else if b = 0xF0 then Some (4, 0x90, 0xBF)
      else if b < 0xF4 then Some (4, 0x80, 0xBF)
      else if b = 0xF4 then Some (4, 0x80, 0x8F)
      else None)"

definition is_cont :: "nat \<Rightarrow> bool" where
  "is_cont b \<longleftrightarrow> 0x80 \<le> b \<and> b \<le> 0xBF"

text \<open>\<open>utf8.DecodeRuneInString\<close>: the rune and the number of bytes; an invalid encoding is
  \<open>(RuneError, 1)\<close>.\<close>

definition decodeRune :: "string \<Rightarrow> rune \<times> nat" where
  "decodeRune s =
     (case s of
        [] \<Rightarrow> (RuneError, 0)
      | c0 # r \<Rightarrow>
        let b0 = byte_of c0 in
        if b0 < 0x80 then (b0, 1)
        else case utf8_first b0 of
          None \<Rightarrow> (RuneError, 1)
        | Some (n, lo, hi) \<Rightarrow>
          (case r of
             [] \<Rightarrow> (RuneError, 1)
           | c1 # r1 \<Rightarrow>
             let b1 = byte_of c1 in
             if b1 < lo \<or> hi < b1 then (RuneError, 1)
             else if n = 2 then ((b0 - 0xC0) * 64 + (b1 - 0x80), 2)
             else case r1 of
               [] \<Rightarrow> (RuneError, 1)
             | c2 # r2 \<Rightarrow>
               let b2 = byte_of c2 in
               if \<not> is_cont b2 then (RuneError, 1)
               else if n = 3 then ((b0 - 0xE0) * 4096 + (b1 - 0x80) * 64 + (b2 - 0x80), 3)
               else case r2 of
                 [] \<Rightarrow> (RuneError, 1)
               | c3 # r3 \<Rightarrow>
                 let b3 = byte_of c3 in
                 if \<not> is_cont b3 then (RuneError, 1)
                 else ((b0 - 0xF0) * 262144 + (b1 - 0x80) * 4096 + (b2 - 0x80) * 64 + (b3 - 0x80), 4)))"

lemma decodeRune_size_pos: "s \<noteq> [] \<Longrightarrow> 0 < snd (decodeRune s)"
  by (auto simp: decodeRune_def Let_def split: list.splits option.splits)

text \<open>A string cut into its runes, each with the bytes it was decoded from: what a \<open>range\<close>
  loop visits.\<close>

function runes :: "string \<Rightarrow> (rune \<times> string) list" where
  "runes s = (if s = [] then []
     else let (r, n) = decodeRune s in (r, take n s) # runes (drop n s))"
  by pat_completeness auto
termination
proof (relation "measure length", goal_cases)
  case (2 s x r n)
  then have "0 < n" using decodeRune_size_pos [of s] by (metis snd_conv)
  with 2 show ?case by simp
qed simp

declare runes.simps [simp del]

definition ValidString :: "string \<Rightarrow> bool" where
  "ValidString s \<longleftrightarrow> list_all (\<lambda>(r, b). \<not> (r = RuneError \<and> length b = 1)) (runes s)"

text \<open>\<open>utf8.AppendRune\<close>: surrogates and values beyond the range become \<open>RuneError\<close>.\<close>

definition encodeRune :: "rune \<Rightarrow> string" where
  "encodeRune r0 =
     (let r = (if 0x10FFFF < r0 \<or> (0xD800 \<le> r0 \<and> r0 \<le> 0xDFFF) then RuneError else r0) in
      if r < 0x80 then [chr r]
      else if r < 0x800 then [chr (0xC0 + r div 64), chr (0x80 + r mod 64)]
      else if r < 0x10000 then
        [chr (0xE0 + r div 4096), chr (0x80 + r div 64 mod 64), chr (0x80 + r mod 64)]
      else
        [chr (0xF0 + r div 262144), chr (0x80 + r div 4096 mod 64),
         chr (0x80 + r div 64 mod 64), chr (0x80 + r mod 64)])"

text \<open>\<open>encoding/json\<close> replaces every invalid byte by \<open>U+FFFD\<close>.\<close>

definition coerceUTF8 :: "string \<Rightarrow> string" where
  "coerceUTF8 s = concat (map (\<lambda>(r, b). encodeRune r) (runes s))"

text \<open>\<open>utf16.Encode([]rune(s))\<close>.\<close>

definition utf16_units :: "rune \<Rightarrow> nat list" where
  "utf16_units r =
     (if 0x10000 \<le> r \<and> r \<le> 0x10FFFF
      then [0xD800 + (r - 0x10000) div 1024, 0xDC00 + (r - 0x10000) mod 1024]
      else if r < 0xD800 \<or> (0xE000 \<le> r \<and> r < 0x10000) then [r]
      else [RuneError])"

definition utf16_encode :: "string \<Rightarrow> nat list" where
  "utf16_encode s = concat (map (\<lambda>(r, b). utf16_units r) (runes s))"

text \<open>\<open>unicode.IsSpace\<close> and \<open>strings.TrimSpace\<close>.\<close>

definition isSpace :: "rune \<Rightarrow> bool" where
  "isSpace r \<longleftrightarrow> (9 \<le> r \<and> r \<le> 13) \<or> r \<in> {0x20, 0x85, 0xA0, 0x1680, 0x2028, 0x2029, 0x202F, 0x205F, 0x3000}
     \<or> (0x2000 \<le> r \<and> r \<le> 0x200A)"

definition TrimSpace :: "string \<Rightarrow> string" where
  "TrimSpace s = concat (map snd (rev (dropWhile (isSpace \<circ> fst) (rev (dropWhile (isSpace \<circ> fst) (runes s))))))"

subsection \<open>Numbers and prefixes\<close>

definition digit_char :: "nat \<Rightarrow> char" where
  "digit_char d = chr (48 + d)"

fun nat_text :: "nat \<Rightarrow> string" where
  "nat_text n = (if n < 10 then [digit_char n] else nat_text (n div 10) @ [digit_char (n mod 10)])"

declare nat_text.simps [simp del]

text \<open>\<open>strconv.FormatInt(n, 10)\<close>.\<close>

definition FormatInt :: "int \<Rightarrow> string" where
  "FormatInt n = (if n < 0 then CHR ''-'' # nat_text (nat (- n)) else nat_text (nat n))"

definition HasPrefix :: "string \<Rightarrow> string \<Rightarrow> bool" where
  "HasPrefix s p \<longleftrightarrow> take (length p) s = p"

definition hex_digit :: "nat \<Rightarrow> char" where
  "hex_digit d = (if d < 10 then chr (48 + d) else chr (87 + d))"

text \<open>\<open>hex.EncodeToString\<close>.\<close>

definition hex_encode :: "string \<Rightarrow> string" where
  "hex_encode s = concat (map (\<lambda>c. [hex_digit (byte_of c div 16), hex_digit (byte_of c mod 16)]) s)"

definition is_lower :: "char \<Rightarrow> bool" where
  "is_lower c \<longleftrightarrow> 97 \<le> byte_of c \<and> byte_of c \<le> 122"

definition is_digit :: "char \<Rightarrow> bool" where
  "is_digit c \<longleftrightarrow> 48 \<le> byte_of c \<and> byte_of c \<le> 57"

text \<open>The lowercase hexadecimal test the validators spell out on characters.\<close>

definition is_lower_hex :: "char \<Rightarrow> bool" where
  "is_lower_hex c \<longleftrightarrow> is_digit c \<or> (97 \<le> byte_of c \<and> byte_of c \<le> 102)"

subsection \<open>Timestamps\<close>

record stamp =
  st_year :: nat
  st_month :: nat
  st_day :: nat
  st_hour :: nat
  st_minute :: nat
  st_second :: nat
  st_nanos :: nat

definition stamp_ok :: "stamp \<Rightarrow> bool" where
  "stamp_ok t \<longleftrightarrow> st_year t < 10000 \<and> st_month t < 100 \<and> st_day t < 100 \<and> st_hour t < 100
     \<and> st_minute t < 100 \<and> st_second t < 100 \<and> st_nanos t < 10 ^ 9"

text \<open>The \<open>w\<close> last decimal digits of a number, zero-padded.\<close>

fun pad :: "nat \<Rightarrow> nat \<Rightarrow> string" where
  "pad 0 n = []"
| "pad (Suc w) n = pad w (n div 10) @ [digit_char (n mod 10)]"

text \<open>The fraction of \<open>RFC3339Nano\<close> (\<open>.999999999\<close>): trailing zeros are removed, and nothing is
  printed for a whole second.\<close>

definition nano_fraction :: "nat \<Rightarrow> string" where
  "nano_fraction n = (if n = 0 then [] else CHR ''.'' # rev (dropWhile (\<lambda>c. c = CHR ''0'') (rev (pad 9 n))))"

definition stamp_text :: "stamp \<Rightarrow> string" where
  "stamp_text t = pad 4 (st_year t) @ ''-'' @ pad 2 (st_month t) @ ''-'' @ pad 2 (st_day t) @ ''T''
     @ pad 2 (st_hour t) @ '':'' @ pad 2 (st_minute t) @ '':'' @ pad 2 (st_second t)
     @ nano_fraction (st_nanos t) @ ''Z''"

text \<open>Chronological order of two times.\<close>

definition stamp_before :: "stamp \<Rightarrow> stamp \<Rightarrow> bool" where
  "stamp_before t u \<longleftrightarrow>
     [st_year t, st_month t, st_day t, st_hour t, st_minute t, st_second t, st_nanos t]
     < [st_year u, st_month u, st_day u, st_hour u, st_minute u, st_second u, st_nanos u]"

text \<open>Evaluation of printed numbers.\<close>

lemma pad_numeral [simp]:
  "pad (numeral w) n = pad (pred_numeral w) (n div 10) @ [digit_char (n mod 10)]"
  by (subst numeral_eq_Suc) (simp only: pad.simps)

lemma pad_one [simp]: "pad 1 n = [digit_char (n mod 10)]"
  unfolding One_nat_def by simp

lemma digit_char_simps [simp]:
  "digit_char 0 = CHR ''0''" "digit_char 1 = CHR ''1''" "digit_char (Suc 0) = CHR ''1''" "digit_char 2 = CHR ''2''" "digit_char 3 = CHR ''3''"
  "digit_char 4 = CHR ''4''" "digit_char 5 = CHR ''5''" "digit_char 6 = CHR ''6''" "digit_char 7 = CHR ''7''"
  "digit_char 8 = CHR ''8''" "digit_char 9 = CHR ''9''"
  by code_simp+

subsection \<open>Hexadecimal text\<close>

lemma hex_digit_lower: "n < 16 \<Longrightarrow> is_lower_hex (hex_digit n)"
  by (auto simp: hex_digit_def is_lower_hex_def is_digit_def)

lemma hex_encode_lower: "list_all is_lower_hex (hex_encode s)"
  by (induction s) (auto simp: hex_encode_def less_mult_imp_div_less intro!: hex_digit_lower)

lemma length_hex_encode: "length (hex_encode s) = 2 * length s"
  by (induction s) (auto simp: hex_encode_def)

end
