(* ===== verification/Run_Store.thy ===== *)
theory Run_Store
  imports Run_State Go_Strings
begin

section \<open>The durable run journal\<close>

text \<open>
  Models \<^verbatim>\<open>runs.go\<close>, \<^verbatim>\<open>transitions.go\<close>, \<^verbatim>\<open>cancellation.go\<close>, \<^verbatim>\<open>events.go\<close>,
  \<^verbatim>\<open>outbox.go\<close> and \<^verbatim>\<open>queries.go\<close> of \<^verbatim>\<open>src/internal/store\<close>.  \<open>Store\<close> holds the six
  journal tables; each operation of the Go type \<open>Store\<close> is one definition, whose argument
  \<open>now\<close> is the value \<open>nowStamp()\<close> returns.  A constraint the schema puts on an insert
  (\<open>PRIMARY KEY\<close>, \<open>FOREIGN KEY\<close>) and that can fail is the branch \<open>ErrConstraint\<close>.
\<close>

subsection \<open>Errors and rows\<close>

datatype store_error =
    ErrRunNotFound
  | ErrTranscriptIdentityUnknown
  | ErrTranscriptIdentityInvalid
  | ErrTranscriptIdentityConflict
  | ErrInvalidTransition
  | ErrTerminalRequiresOutbox
  | ErrTransitionNotTerminal
  | ErrNoProcessIdentity
  | ErrTerminalTranscriptIncomplete
  | ErrTerminalTranscriptIdentity
  | ErrRunTerminal
  | ErrCancellationRequested
  | ErrTranscriptFinalSizeChanged
  | ErrTranscriptOffsetBeyondEnd
  | ErrOutboxNotFound
  | ErrConstraint
  | ErrMsg string

record TranscriptFileIdentity =
  tf_Device :: int
  tf_Inode :: int

definition no_identity :: TranscriptFileIdentity where
  "no_identity = \<lparr>tf_Device = 0, tf_Inode = 0\<rparr>"

definition TranscriptFileIdentity_Validate :: "TranscriptFileIdentity \<Rightarrow> store_error option" where
  "TranscriptFileIdentity_Validate i =
     (if tf_Device i = 0 \<and> tf_Inode i = 0 then Some ErrTranscriptIdentityUnknown
      else if tf_Device i \<le> 0 \<or> tf_Inode i \<le> 0 then Some ErrTranscriptIdentityInvalid
      else None)"

record Project =
  p_ID :: string
  p_Name :: string
  p_Root :: string
  p_CreatedAt :: stamp

record Workstream =
  w_ID :: string
  w_ProjectID :: string
  w_Name :: string
  w_CreatedAt :: stamp

record RunSpec =
  sp_WorkerPath :: string
  sp_WorkerArgs :: "string list"
  sp_WorkerEnv :: "string list"
  sp_TranscriptPath :: string
  sp_SocketPath :: string
  sp_Token :: string
  sp_IdentityPath :: string
  sp_TranscriptRequired :: bool

record Run =
  r_ID :: string
  r_ProjectID :: string
  r_WorkstreamID :: string
  r_State :: State
  r_WorkerPath :: string
  r_WorkerArgs :: "string list"
  r_WorkerEnv :: "string list"
  r_TranscriptPath :: string
  r_SocketPath :: string
  r_Token :: string
  r_IdentityPath :: string
  r_TranscriptIdentity :: TranscriptFileIdentity
  r_SupervisorPID :: int
  r_SupervisorPGID :: int
  r_WorkerPID :: int
  r_CommittedOffset :: int
  r_TranscriptRequired :: bool
  r_CancelRequested :: bool
  r_TranscriptConsumedOffset :: int
  r_TranscriptFinalSize :: int
  r_CreatedAt :: stamp
  r_UpdatedAt :: stamp

record Event =
  ev_RunID :: string
  ev_Seq :: int
  ev_Type :: string
  ev_Payload :: string
  ev_TranscriptOffset :: int
  ev_WrittenAt :: stamp

record TransitionRecord =
  tr_RunID :: string
  tr_Seq :: int
  tr_FromState :: State
  tr_ToState :: State
  tr_Reason :: string
  tr_WrittenAt :: stamp

text \<open>\<open>Acknowledged\<close> is 0 pending, 1 acknowledged, -1 abandoned; the zero \<open>AcknowledgedAt\<close> is
  \<open>None\<close>.\<close>

record OutboxRow =
  ob_RunID :: string
  ob_TerminalState :: State
  ob_SupervisorPID :: int
  ob_SupervisorPGID :: int
  ob_SocketPath :: string
  ob_Token :: string
  ob_Acknowledged :: int
  ob_Diagnostic :: string
  ob_CreatedAt :: stamp
  ob_AcknowledgedAt :: "stamp option"

record Store =
  projects :: "Project list"
  workstreams :: "Workstream list"
  runs :: "Run list"
  events :: "Event list"
  state_transitions :: "TransitionRecord list"
  finalization_outbox :: "OutboxRow list"

definition emptyStore :: Store where
  "emptyStore = \<lparr>projects = [], workstreams = [], runs = [], events = [],
     state_transitions = [], finalization_outbox = []\<rparr>"

text \<open>The build-tag mutation flags of \<^verbatim>\<open>mutation_hooks.go\<close>; all false in a production build.\<close>

record mutationHooks =
  mh_noOutbox :: bool
  mh_allowIncompleteTerminalTranscript :: bool

definition productionHooks :: mutationHooks where
  "productionHooks = \<lparr>mh_noOutbox = False, mh_allowIncompleteTerminalTranscript = False\<rparr>"

subsection \<open>Lookups\<close>

definition find_run :: "string \<Rightarrow> Run list \<Rightarrow> Run option" where
  "find_run k t = find (\<lambda>r. r_ID r = k) t"

definition find_outbox :: "string \<Rightarrow> OutboxRow list \<Rightarrow> OutboxRow option" where
  "find_outbox k t = find (\<lambda>r. ob_RunID r = k) t"

definition find_project :: "string \<Rightarrow> Project list \<Rightarrow> Project option" where
  "find_project k t = find (\<lambda>r. p_ID r = k) t"

definition find_workstream :: "string \<Rightarrow> Workstream list \<Rightarrow> Workstream option" where
  "find_workstream k t = find (\<lambda>r. w_ID r = k) t"

definition GetRun :: "string \<Rightarrow> Store \<Rightarrow> store_error + Run" where
  "GetRun ident s = (case find_run ident (runs s) of None \<Rightarrow> Inl ErrRunNotFound | Some r \<Rightarrow> Inr r)"

text \<open>\<open>UPDATE runs SET ... WHERE id = ?\<close>\<close>

definition update_run :: "string \<Rightarrow> (Run \<Rightarrow> Run) \<Rightarrow> Store \<Rightarrow> Store" where
  "update_run ident f s = s\<lparr>runs := update_where (\<lambda>r. r_ID r = ident) f (runs s)\<rparr>"

definition transition_seqs :: "string \<Rightarrow> Store \<Rightarrow> int list" where
  "transition_seqs ident s = log_seqs tr_RunID tr_Seq ident (state_transitions s)"

definition event_seqs :: "string \<Rightarrow> Store \<Rightarrow> int list" where
  "event_seqs ident s = log_seqs ev_RunID ev_Seq ident (events s)"

definition insert_transition :: "TransitionRecord \<Rightarrow> Store \<Rightarrow> Store" where
  "insert_transition t s = s\<lparr>state_transitions := state_transitions s @ [t]\<rparr>"

subsection \<open>Creating projects, workstreams and runs\<close>

definition CreateProject :: "stamp \<Rightarrow> string \<Rightarrow> string \<Rightarrow> string \<Rightarrow> Store \<Rightarrow> store_error + Store" where
  "CreateProject now ident name root s =
     (if find_project ident (projects s) \<noteq> None then Inl ErrConstraint
      else Inr (s\<lparr>projects := projects s @ [\<lparr>p_ID = ident, p_Name = name, p_Root = root, p_CreatedAt = now\<rparr>]\<rparr>))"

definition CreateWorkstream :: "stamp \<Rightarrow> string \<Rightarrow> string \<Rightarrow> string \<Rightarrow> Store \<Rightarrow> store_error + Store" where
  "CreateWorkstream now ident projectID name s =
     (if find_workstream ident (workstreams s) \<noteq> None \<or> find_project projectID (projects s) = None
      then Inl ErrConstraint
      else Inr (s\<lparr>workstreams := workstreams s @
        [\<lparr>w_ID = ident, w_ProjectID = projectID, w_Name = name, w_CreatedAt = now\<rparr>]\<rparr>))"

text \<open>
  \<open>CreateRun\<close>: the worker arguments go through \<open>json.Marshal\<close> and come back through
  \<open>json.Unmarshal\<close>, which keeps valid UTF-8 and replaces invalid bytes.
\<close>

definition new_run :: "stamp \<Rightarrow> string \<Rightarrow> string \<Rightarrow> string \<Rightarrow> RunSpec \<Rightarrow> Run" where
  "new_run now ident projectID workstreamID spec =
     \<lparr>r_ID = ident, r_ProjectID = projectID, r_WorkstreamID = workstreamID, r_State = StateCreated,
      r_WorkerPath = sp_WorkerPath spec, r_WorkerArgs = map coerceUTF8 (sp_WorkerArgs spec),
      r_WorkerEnv = map coerceUTF8 (sp_WorkerEnv spec), r_TranscriptPath = sp_TranscriptPath spec,
      r_SocketPath = sp_SocketPath spec, r_Token = sp_Token spec, r_IdentityPath = sp_IdentityPath spec,
      r_TranscriptIdentity = no_identity,
      r_SupervisorPID = 0, r_SupervisorPGID = 0, r_WorkerPID = 0, r_CommittedOffset = 0,
      r_TranscriptRequired = sp_TranscriptRequired spec, r_CancelRequested = False,
      r_TranscriptConsumedOffset = 0, r_TranscriptFinalSize = - 1,
      r_CreatedAt = now, r_UpdatedAt = now\<rparr>"

definition CreateRun :: "stamp \<Rightarrow> string \<Rightarrow> string \<Rightarrow> string \<Rightarrow> RunSpec \<Rightarrow> Store \<Rightarrow> store_error + Store" where
  "CreateRun now ident projectID workstreamID spec s =
     (if ident = [] then Inl (ErrMsg ''run id required'')
      else if sp_WorkerPath spec = [] then Inl (ErrMsg ''worker path required'')
      else if find_run ident (runs s) \<noteq> None \<or> find_project projectID (projects s) = None
        \<or> find_workstream workstreamID (workstreams s) = None then Inl ErrConstraint
      else Inr (insert_transition
        \<lparr>tr_RunID = ident, tr_Seq = 0, tr_FromState = StateOther [], tr_ToState = StateCreated,
         tr_Reason = ''created'', tr_WrittenAt = now\<rparr>
        (s\<lparr>runs := runs s @ [new_run now ident projectID workstreamID spec]\<rparr>)))"

definition SetTranscriptIdentity :: "stamp \<Rightarrow> string \<Rightarrow> TranscriptFileIdentity \<Rightarrow> Store \<Rightarrow> store_error + Store" where
  "SetTranscriptIdentity now runID identity s =
     (case TranscriptFileIdentity_Validate identity of
        Some e \<Rightarrow> Inl e
      | None \<Rightarrow>
        (case find_run runID (runs s) of
           None \<Rightarrow> Inl ErrRunNotFound
         | Some r \<Rightarrow>
           if r_TranscriptIdentity r = identity then Inr s
           else if r_TranscriptIdentity r \<noteq> no_identity then Inl ErrTranscriptIdentityConflict
           else Inr (update_run runID (\<lambda>r. r\<lparr>r_TranscriptIdentity := identity, r_UpdatedAt := now\<rparr>) s)))"

definition SetRunSupervisor :: "stamp \<Rightarrow> string \<Rightarrow> int \<Rightarrow> int \<Rightarrow> int \<Rightarrow> Store \<Rightarrow> store_error + Store" where
  "SetRunSupervisor now runID supervisorPID supervisorPGID workerPID s =
     (if rows_affected (\<lambda>r. r_ID r = runID) (runs s) = 0 then Inl ErrRunNotFound
      else Inr (update_run runID (\<lambda>r. r\<lparr>r_SupervisorPID := supervisorPID,
        r_SupervisorPGID := supervisorPGID, r_WorkerPID := workerPID, r_UpdatedAt := now\<rparr>) s))"

subsection \<open>State transitions\<close>

record transitionCommit =
  tc_terminal :: bool
  tc_noProcess :: bool
  tc_outbox :: OutboxRow

text \<open>A zero \<open>OutboxRow\<close>, as in Go's composite literals; its fields are only read on a terminal
  commit.\<close>

definition zeroOutbox :: OutboxRow where
  "zeroOutbox = \<lparr>ob_RunID = [], ob_TerminalState = StateOther [], ob_SupervisorPID = 0,
     ob_SupervisorPGID = 0, ob_SocketPath = [], ob_Token = [], ob_Acknowledged = 0,
     ob_Diagnostic = [], ob_CreatedAt = \<lparr>st_year = 1, st_month = 1, st_day = 1, st_hour = 0,
       st_minute = 0, st_second = 0, st_nanos = 0\<rparr>, ob_AcknowledgedAt = None\<rparr>"

text \<open>The row a terminal commit inserts.\<close>

definition outbox_row :: "stamp \<Rightarrow> string \<Rightarrow> State \<Rightarrow> transitionCommit \<Rightarrow> OutboxRow" where
  "outbox_row now runID to c =
     \<lparr>ob_RunID = runID, ob_TerminalState = to,
      ob_SupervisorPID = ob_SupervisorPID (tc_outbox c), ob_SupervisorPGID = ob_SupervisorPGID (tc_outbox c),
      ob_SocketPath = ob_SocketPath (tc_outbox c), ob_Token = ob_Token (tc_outbox c),
      ob_Acknowledged = (if tc_noProcess c then 1 else 0), ob_Diagnostic = [], ob_CreatedAt = now,
      ob_AcknowledgedAt = (if tc_noProcess c then Some now else None)\<rparr>"

text \<open>
  The checks of \<open>commitTransition\<close>, in the order of the code: \<open>None\<close> when the transaction goes
  on to write.  For a no-process failure the transcript columns are reset before the transcript
  check, which that path then skips.
\<close>

definition transition_error :: "mutationHooks \<Rightarrow> Run \<Rightarrow> State \<Rightarrow> transitionCommit \<Rightarrow> store_error option" where
  "transition_error h r to c =
     (if tc_terminal c \<and> to = StateCompleted \<and> r_CancelRequested r then Some ErrCancellationRequested
      else if tc_noProcess c \<and> (to \<noteq> StateFailed \<or> (r_State r \<noteq> StateCreated \<and> r_State r \<noteq> StateRunning))
        then Some ErrInvalidTransition
      else if tc_noProcess c \<and> (r_SupervisorPID r \<noteq> 0 \<or> r_SupervisorPGID r \<noteq> 0 \<or> r_WorkerPID r \<noteq> 0)
        then Some ErrNoProcessIdentity
      else if \<not> tc_noProcess c \<and> \<not> CanTransition (r_State r) to then Some ErrInvalidTransition
      else if tc_terminal c \<and> \<not> tc_noProcess c \<and> r_TranscriptRequired r then
        (if \<not> mh_allowIncompleteTerminalTranscript h \<and>
            (r_TranscriptFinalSize r < 0 \<or> r_TranscriptConsumedOffset r \<noteq> r_TranscriptFinalSize r)
         then Some ErrTerminalTranscriptIncomplete
         else if TranscriptFileIdentity_Validate (r_TranscriptIdentity r) \<noteq> None
         then Some ErrTerminalTranscriptIdentity
         else None)
      else None)"

text \<open>What the transaction writes to the run row.\<close>

definition transition_run :: "stamp \<Rightarrow> State \<Rightarrow> transitionCommit \<Rightarrow> Run \<Rightarrow> Run" where
  "transition_run now to c r0 =
     (let r1 = (if tc_noProcess c then r0\<lparr>r_TranscriptIdentity := no_identity, r_UpdatedAt := now\<rparr> else r0);
          r2 = (if tc_noProcess c \<and> r_TranscriptRequired r1
                then r1\<lparr>r_TranscriptConsumedOffset := 0, r_TranscriptFinalSize := 0, r_UpdatedAt := now\<rparr>
                else r1)
      in r2\<lparr>r_State := to, r_UpdatedAt := now\<rparr>)"

definition commitTransition ::
    "mutationHooks \<Rightarrow> stamp \<Rightarrow> string \<Rightarrow> State \<Rightarrow> string \<Rightarrow> transitionCommit \<Rightarrow> Store \<Rightarrow> store_error + Store" where
  "commitTransition h now runID to reason c s =
     (case find_run runID (runs s) of
        None \<Rightarrow> Inl ErrRunNotFound
      | Some r \<Rightarrow>
        (case transition_error h r to c of
           Some e \<Rightarrow> Inl e
         | None \<Rightarrow>
           let s1 = insert_transition
                 \<lparr>tr_RunID = runID, tr_Seq = next_seq (transition_seqs runID s), tr_FromState = r_State r,
                  tr_ToState = to, tr_Reason = reason, tr_WrittenAt = now\<rparr>
                 (update_run runID (transition_run now to c) s)
           in if tc_terminal c \<and> \<not> mh_noOutbox h then
                (if find_outbox runID (finalization_outbox s1) \<noteq> None then Inl ErrConstraint
                 else Inr (s1\<lparr>finalization_outbox := finalization_outbox s1 @ [outbox_row now runID to c]\<rparr>))
              else Inr s1))"

definition Transition ::
    "mutationHooks \<Rightarrow> stamp \<Rightarrow> string \<Rightarrow> State \<Rightarrow> string \<Rightarrow> Store \<Rightarrow> store_error + Store" where
  "Transition h now runID to reason s =
     (if IsTerminal to then Inl ErrTerminalRequiresOutbox
      else commitTransition h now runID to reason
        \<lparr>tc_terminal = False, tc_noProcess = False, tc_outbox = zeroOutbox\<rparr> s)"

definition CommitTerminal ::
    "mutationHooks \<Rightarrow> stamp \<Rightarrow> string \<Rightarrow> State \<Rightarrow> string \<Rightarrow> OutboxRow \<Rightarrow> Store \<Rightarrow> store_error + Store" where
  "CommitTerminal h now runID to reason outbox s =
     (if \<not> IsTerminal to then Inl ErrTransitionNotTerminal
      else commitTransition h now runID to reason
        \<lparr>tc_terminal = True, tc_noProcess = False, tc_outbox = outbox\<rparr> s)"

definition CommitNoProcessFailure ::
    "mutationHooks \<Rightarrow> stamp \<Rightarrow> string \<Rightarrow> string \<Rightarrow> Store \<Rightarrow> store_error + Store" where
  "CommitNoProcessFailure h now runID reason s =
     commitTransition h now runID StateFailed reason
       \<lparr>tc_terminal = True, tc_noProcess = True, tc_outbox = zeroOutbox\<rparr> s"

text \<open>\<open>Transitions\<close>: the ordered history of a run.\<close>

definition Transitions :: "string \<Rightarrow> Store \<Rightarrow> TransitionRecord list" where
  "Transitions runID s = order_by tr_Seq (filter (\<lambda>t. tr_RunID t = runID) (state_transitions s))"

subsection \<open>Cancellation\<close>

definition RequestCancellation :: "stamp \<Rightarrow> string \<Rightarrow> Store \<Rightarrow> store_error + State \<times> Store" where
  "RequestCancellation now runID s =
     (case find_run runID (runs s) of
        None \<Rightarrow> Inl ErrRunNotFound
      | Some r \<Rightarrow>
        if IsTerminal (r_State r) then Inl ErrRunTerminal
        else
          let to = (if r_State r = StateRunning then StateCancelling else r_State r) in
          if r_CancelRequested r \<and> to = r_State r then Inr (to, s)
          else
            let s1 = update_run runID
                  (\<lambda>r. r\<lparr>r_State := to, r_CancelRequested := True, r_UpdatedAt := now\<rparr>) s in
            if to \<noteq> r_State r then
              Inr (to, insert_transition
                \<lparr>tr_RunID = runID, tr_Seq = next_seq (transition_seqs runID s1), tr_FromState = r_State r,
                 tr_ToState = to, tr_Reason = ''cancellation requested'', tr_WrittenAt = now\<rparr> s1)
            else Inr (to, s1))"

subsection \<open>Transcript events\<close>

definition AppendEvent ::
    "stamp \<Rightarrow> string \<Rightarrow> string \<Rightarrow> string \<Rightarrow> int \<Rightarrow> Store \<Rightarrow> store_error + Event \<times> Store" where
  "AppendEvent now runID typ payload transcriptOffset s =
     (if runID = [] then Inl (ErrMsg ''run id required'')
      else
        let e = \<lparr>ev_RunID = runID, ev_Seq = next_seq (event_seqs runID s), ev_Type = typ,
                 ev_Payload = payload, ev_TranscriptOffset = transcriptOffset, ev_WrittenAt = now\<rparr>;
            fits = (\<lambda>r. r_ID r = runID \<and>
                 (r_TranscriptFinalSize r < 0 \<or> transcriptOffset \<le> r_TranscriptFinalSize r)) in
        if find_run runID (runs s) = None then Inl ErrConstraint
        else if rows_affected fits (runs s) = 0 then Inl ErrTranscriptOffsetBeyondEnd
        else Inr (e, s\<lparr>events := events s @ [e],
          runs := update_where fits (\<lambda>r. r\<lparr>r_CommittedOffset := max (r_CommittedOffset r) transcriptOffset,
            r_TranscriptConsumedOffset := max (r_TranscriptConsumedOffset r) transcriptOffset,
            r_UpdatedAt := now\<rparr>) (runs s)\<rparr>))"

definition CommittedOffset :: "string \<Rightarrow> Store \<Rightarrow> store_error + int" where
  "CommittedOffset runID s =
     (case find_run runID (runs s) of None \<Rightarrow> Inl ErrRunNotFound | Some r \<Rightarrow> Inr (r_CommittedOffset r))"

record TranscriptProgress =
  tp_Required :: bool
  tp_ConsumedOffset :: int
  tp_FinalSize :: int

definition GetTranscriptProgress :: "string \<Rightarrow> Store \<Rightarrow> store_error + TranscriptProgress" where
  "GetTranscriptProgress runID s =
     (case find_run runID (runs s) of None \<Rightarrow> Inl ErrRunNotFound
      | Some r \<Rightarrow> Inr \<lparr>tp_Required = r_TranscriptRequired r,
          tp_ConsumedOffset = r_TranscriptConsumedOffset r, tp_FinalSize = r_TranscriptFinalSize r\<rparr>)"

definition SealTranscript :: "stamp \<Rightarrow> string \<Rightarrow> int \<Rightarrow> Store \<Rightarrow> store_error + Store" where
  "SealTranscript now runID finalSize s =
     (if finalSize < 0 then Inl (ErrMsg ''transcript final size must be nonnegative'')
      else case find_run runID (runs s) of
        None \<Rightarrow> Inl ErrRunNotFound
      | Some r \<Rightarrow>
        if 0 \<le> r_TranscriptFinalSize r then
          (if r_TranscriptFinalSize r \<noteq> finalSize then Inl ErrTranscriptFinalSizeChanged else Inr s)
        else Inr (update_run runID (\<lambda>r. r\<lparr>r_TranscriptFinalSize := finalSize, r_UpdatedAt := now\<rparr>) s))"

definition AdvanceTranscriptConsumed :: "stamp \<Rightarrow> string \<Rightarrow> int \<Rightarrow> Store \<Rightarrow> store_error + Store" where
  "AdvanceTranscriptConsumed now runID offset s =
     (if offset < 0 then Inl (ErrMsg ''transcript consumed offset must be nonnegative'')
      else
        let fits = (\<lambda>r. r_ID r = runID \<and>
              (r_TranscriptFinalSize r < 0 \<or> offset \<le> r_TranscriptFinalSize r)) in
        if rows_affected fits (runs s) \<noteq> 0 then
          Inr (s\<lparr>runs := update_where fits (\<lambda>r. r\<lparr>r_TranscriptConsumedOffset :=
            max (r_TranscriptConsumedOffset r) offset, r_UpdatedAt := now\<rparr>) (runs s)\<rparr>)
        else if GetRun runID s = Inl ErrRunNotFound then Inl ErrRunNotFound
        else Inl ErrTranscriptOffsetBeyondEnd)"

definition ListEvents :: "string \<Rightarrow> int \<Rightarrow> Store \<Rightarrow> Event list" where
  "ListEvents runID afterSeq s = order_by ev_Seq (filter (\<lambda>e. ev_RunID e = runID \<and> afterSeq < ev_Seq e) (events s))"

definition HighestEventSeq :: "string \<Rightarrow> Store \<Rightarrow> int" where
  "HighestEventSeq runID s = (case sql_max (event_seqs runID s) of None \<Rightarrow> 0 | Some m \<Rightarrow> m)"

subsection \<open>The finalization outbox\<close>

definition AcknowledgeOutbox :: "stamp \<Rightarrow> string \<Rightarrow> Store \<Rightarrow> store_error + Store" where
  "AcknowledgeOutbox now runID s =
     (let p = (\<lambda>o'. ob_RunID o' = runID \<and> ob_Acknowledged o' = 0) in
      if rows_affected p (finalization_outbox s) = 0 then Inl ErrOutboxNotFound
      else Inr (s\<lparr>finalization_outbox := update_where p
        (\<lambda>o'. o'\<lparr>ob_Acknowledged := 1, ob_AcknowledgedAt := Some now\<rparr>) (finalization_outbox s)\<rparr>))"

definition AbandonOutbox :: "stamp \<Rightarrow> string \<Rightarrow> string \<Rightarrow> Store \<Rightarrow> store_error + Store" where
  "AbandonOutbox now runID reason0 s =
     (let reason = TrimSpace reason0;
          p = (\<lambda>o'. ob_RunID o' = runID \<and> ob_Acknowledged o' = 0) in
      if reason = [] then Inl (ErrMsg ''outbox abandonment diagnostic required'')
      else if rows_affected p (finalization_outbox s) = 0 then Inl ErrOutboxNotFound
      else Inr (s\<lparr>finalization_outbox := update_where p
        (\<lambda>o'. o'\<lparr>ob_Acknowledged := - 1, ob_AcknowledgedAt := Some now, ob_Diagnostic := reason\<rparr>)
        (finalization_outbox s)\<rparr>))"

definition GetOutbox :: "string \<Rightarrow> Store \<Rightarrow> store_error + OutboxRow" where
  "GetOutbox runID s =
     (case find_outbox runID (finalization_outbox s) of None \<Rightarrow> Inl ErrOutboxNotFound | Some o' \<Rightarrow> Inr o')"

definition ListPendingOutbox :: "Store \<Rightarrow> OutboxRow list" where
  "ListPendingOutbox s =
     order_by (stamp_text \<circ> ob_CreatedAt) (filter (\<lambda>o'. ob_Acknowledged o' = 0) (finalization_outbox s))"

subsection \<open>Queries on runs\<close>

definition ListActiveRuns :: "Store \<Rightarrow> Run list" where
  "ListActiveRuns s =
     order_by (stamp_text \<circ> r_CreatedAt)
       (filter (\<lambda>r. r_State r \<notin> {StateCompleted, StateFailed, StateCancelled} \<or>
         list_ex (\<lambda>o'. ob_RunID o' = r_ID r \<and> ob_Acknowledged o' = 0) (finalization_outbox s)) (runs s))"

definition ListRunsByProject :: "string \<Rightarrow> Store \<Rightarrow> Run list" where
  "ListRunsByProject projectID s =
     order_by (stamp_text \<circ> r_CreatedAt) (filter (\<lambda>r. r_ProjectID r = projectID) (runs s))"

end
