(* ===== verification/Run_Invariants.thy ===== *)
theory Run_Invariants
  imports Run_Store
begin

section \<open>The journal's invariant and its steps\<close>

text \<open>
  The step relation of the journal (one rule per mutating operation of \<open>Store\<close>, in a production
  build), the invariant that every reachable journal satisfies, and its preservation.
\<close>

subsection \<open>Tables and logs of the journal\<close>

interpretation runs_tab: keyed_table r_ID find_run
  by unfold_locales (simp add: find_run_def find_key_Some)

interpretation outbox_tab: keyed_table ob_RunID find_outbox
  by unfold_locales (simp add: find_outbox_def find_key_Some)

interpretation tr_log: seq_log tr_RunID tr_Seq 0
  by unfold_locales simp

interpretation ev_log: seq_log ev_RunID ev_Seq 1
  by unfold_locales simp

subsection \<open>Steps\<close>

inductive store_step :: "Store \<Rightarrow> Store \<Rightarrow> bool" where
  create_project: "CreateProject now i name root s = Inr s' \<Longrightarrow> store_step s s'"
| create_workstream: "CreateWorkstream now i p name s = Inr s' \<Longrightarrow> store_step s s'"
| create_run: "CreateRun now i p w spec s = Inr s' \<Longrightarrow> store_step s s'"
| set_identity: "SetTranscriptIdentity now i tid s = Inr s' \<Longrightarrow> store_step s s'"
| set_supervisor: "SetRunSupervisor now i sp pg wp s = Inr s' \<Longrightarrow> store_step s s'"
| transition: "Transition productionHooks now i to reason s = Inr s' \<Longrightarrow> store_step s s'"
| commit_terminal: "CommitTerminal productionHooks now i to reason outbox s = Inr s' \<Longrightarrow> store_step s s'"
| no_process: "CommitNoProcessFailure productionHooks now i reason s = Inr s' \<Longrightarrow> store_step s s'"
| request_cancellation: "RequestCancellation now i s = Inr (st, s') \<Longrightarrow> store_step s s'"
| append_event: "AppendEvent now i typ payload off s = Inr (e, s') \<Longrightarrow> store_step s s'"
| seal_transcript: "SealTranscript now i n s = Inr s' \<Longrightarrow> store_step s s'"
| advance_consumed: "AdvanceTranscriptConsumed now i off s = Inr s' \<Longrightarrow> store_step s s'"
| acknowledge: "AcknowledgeOutbox now i s = Inr s' \<Longrightarrow> store_step s s'"
| abandon: "AbandonOutbox now i reason s = Inr s' \<Longrightarrow> store_step s s'"

abbreviation reachable :: "Store \<Rightarrow> bool" where
  "reachable s \<equiv> store_step\<^sup>*\<^sup>* emptyStore s"

subsection \<open>The invariant\<close>

text \<open>An edge of a recorded history: one the table allows, or the no-process failure.\<close>

definition edge_ok :: "State \<Rightarrow> State \<Rightarrow> bool" where
  "edge_ok a b \<longleftrightarrow> CanTransition a b \<or> (a \<in> {StateCreated, StateRunning} \<and> b = StateFailed)"

text \<open>A history that continues from a state: each record starts where the one before ended.\<close>

fun chain :: "State \<Rightarrow> TransitionRecord list \<Rightarrow> bool" where
  "chain a [] = True"
| "chain a (t # ts) = (tr_FromState t = a \<and> edge_ok a (tr_ToState t) \<and> chain (tr_ToState t) ts)"

fun end_state :: "State \<Rightarrow> TransitionRecord list \<Rightarrow> State" where
  "end_state a [] = a"
| "end_state a (t # ts) = end_state (tr_ToState t) ts"

lemma chain_snoc:
  "chain a (ts @ [t]) \<longleftrightarrow> chain a ts \<and> tr_FromState t = end_state a ts \<and> edge_ok (end_state a ts) (tr_ToState t)"
  by (induction ts arbitrary: a) auto

lemma end_state_snoc: "end_state a (ts @ [t]) = tr_ToState t"
  by (induction ts arbitrary: a) auto

text \<open>A full history: the creation record, then a chain to the current state.\<close>

definition history_ok :: "State \<Rightarrow> TransitionRecord list \<Rightarrow> bool" where
  "history_ok st ts \<longleftrightarrow>
     (case ts of
        [] \<Rightarrow> False
      | t # us \<Rightarrow> tr_FromState t = StateOther [] \<and> tr_ToState t = StateCreated
          \<and> chain StateCreated us \<and> end_state StateCreated us = st)"

lemma history_ok_snoc:
  "history_ok a ts \<Longrightarrow> tr_FromState t = a \<Longrightarrow> edge_ok a (tr_ToState t) \<Longrightarrow> history_ok (tr_ToState t) (ts @ [t])"
  by (auto simp: history_ok_def chain_snoc end_state_snoc split: list.splits)

lemma history_ok_nonempty: "history_ok a ts \<Longrightarrow> ts \<noteq> []"
  by (auto simp: history_ok_def)

definition history :: "string \<Rightarrow> TransitionRecord list \<Rightarrow> TransitionRecord list" where
  "history k ts = filter (\<lambda>t. tr_RunID t = k) ts"

lemma history_snoc:
  "history k (ts @ [t]) = (if tr_RunID t = k then history k ts @ [t] else history k ts)"
  by (simp add: history_def)

text \<open>What holds of the columns of one run row.\<close>

definition row_ok :: "Run \<Rightarrow> bool" where
  "row_ok r \<longleftrightarrow>
     (r_State r = StateCompleted \<longrightarrow> \<not> r_CancelRequested r)
   \<and> (IsTerminal (r_State r) \<and> r_TranscriptRequired r \<longrightarrow>
        0 \<le> r_TranscriptFinalSize r \<and> r_TranscriptConsumedOffset r = r_TranscriptFinalSize r)
   \<and> 0 \<le> r_CommittedOffset r \<and> 0 \<le> r_TranscriptConsumedOffset r
   \<and> (r_State r = StateFailed \<or> r_CommittedOffset r \<le> r_TranscriptConsumedOffset r)
   \<and> (r_TranscriptIdentity r = no_identity \<or> TranscriptFileIdentity_Validate (r_TranscriptIdentity r) = None)"

text \<open>What ties a run row to its history and to its outbox row.\<close>

definition linked_ok :: "OutboxRow list \<Rightarrow> TransitionRecord list \<Rightarrow> Run \<Rightarrow> bool" where
  "linked_ok obs trs r \<longleftrightarrow>
     history_ok (r_State r) (history (r_ID r) trs)
   \<and> (IsTerminal (r_State r) \<longleftrightarrow> r_ID r \<in> ob_RunID ` set obs)
   \<and> (\<forall>o' \<in> set obs. ob_RunID o' = r_ID r \<longrightarrow> ob_TerminalState o' = r_State r)"

definition outbox_ok :: "OutboxRow \<Rightarrow> bool" where
  "outbox_ok o' \<longleftrightarrow> ob_Acknowledged o' \<in> {- 1, 0, 1}
     \<and> (ob_AcknowledgedAt o' = None \<longleftrightarrow> ob_Acknowledged o' = 0)
     \<and> (ob_Diagnostic o' \<noteq> [] \<longleftrightarrow> ob_Acknowledged o' = - 1)"

definition store_inv :: "Store \<Rightarrow> bool" where
  "store_inv s \<longleftrightarrow>
     unique_key r_ID (runs s) \<and> unique_key ob_RunID (finalization_outbox s)
   \<and> (\<forall>k. gapless 0 (log_seqs tr_RunID tr_Seq k (state_transitions s)))
   \<and> (\<forall>k. gapless 1 (log_seqs ev_RunID ev_Seq k (events s)))
   \<and> tr_RunID ` set (state_transitions s) \<subseteq> r_ID ` set (runs s)
   \<and> ev_RunID ` set (events s) \<subseteq> r_ID ` set (runs s)
   \<and> ob_RunID ` set (finalization_outbox s) \<subseteq> r_ID ` set (runs s)
   \<and> (\<forall>r \<in> set (runs s). row_ok r \<and> linked_ok (finalization_outbox s) (state_transitions s) r)
   \<and> (\<forall>o' \<in> set (finalization_outbox s). outbox_ok o')"

lemma store_inv_empty: "store_inv emptyStore"
  by (simp add: store_inv_def emptyStore_def unique_key_def log_seqs_def)

subsection \<open>Preservation: operations that only update run rows\<close>

lemma image_update_where:
  assumes "\<And>r. p r \<Longrightarrow> g (f r) = g r"
  shows "g ` set (update_where p f t) = g ` set t"
  using map_update_where [of p g f t, OF assms] by (metis list.set_map)

lemma store_inv_update_rows:
  assumes inv: "store_inv s"
    and key: "\<And>r. p r \<Longrightarrow> r_ID (f r) = r_ID r \<and> r_State (f r) = r_State r"
    and row: "\<And>r. r \<in> set (runs s) \<Longrightarrow> p r \<Longrightarrow> row_ok r \<Longrightarrow> row_ok (f r)"
  shows "store_inv (s\<lparr>runs := update_where p f (runs s)\<rparr>)"
proof -
  have keys: "r_ID ` set (update_where p f (runs s)) = r_ID ` set (runs s)"
    using key by (intro image_update_where) blast
  have "unique_key r_ID (update_where p f (runs s))"
    using inv key by (simp add: store_inv_def runs_tab.unique_key_update)
  moreover have "row_ok r \<and> linked_ok (finalization_outbox s) (state_transitions s) r"
    if r': "r \<in> set (update_where p f (runs s))" for r
  proof -
    from r' obtain q where q: "q \<in> set (runs s)" "r = (if p q then f q else q)"
      by (auto simp: set_update_where)
    with inv have "row_ok q" and "linked_ok (finalization_outbox s) (state_transitions s) q"
      by (auto simp: store_inv_def)
    with q key row show ?thesis by (auto simp: linked_ok_def)
  qed
  ultimately show ?thesis using inv by (simp add: store_inv_def keys)
qed

lemma store_inv_SetTranscriptIdentity:
  "SetTranscriptIdentity now i tid s = Inr s' \<Longrightarrow> store_inv s \<Longrightarrow> store_inv s'"
  by (auto simp: SetTranscriptIdentity_def update_run_def row_ok_def
      intro!: store_inv_update_rows split: option.splits if_splits)

lemma store_inv_SetRunSupervisor:
  "SetRunSupervisor now i sp pg wp s = Inr s' \<Longrightarrow> store_inv s \<Longrightarrow> store_inv s'"
  by (auto simp: SetRunSupervisor_def update_run_def row_ok_def
      intro!: store_inv_update_rows split: if_splits)

lemma store_inv_AdvanceTranscriptConsumed:
  "AdvanceTranscriptConsumed now i off s = Inr s' \<Longrightarrow> store_inv s \<Longrightarrow> store_inv s'"
  by (auto simp: AdvanceTranscriptConsumed_def Let_def row_ok_def
      intro!: store_inv_update_rows split: if_splits)

lemma find_run_unique:
  "store_inv s \<Longrightarrow> find_run k (runs s) = Some q \<Longrightarrow> r \<in> set (runs s) \<Longrightarrow> r_ID r = k \<Longrightarrow> r = q"
  using runs_tab.get_Some [of "runs s" k r] by (simp add: store_inv_def)

lemma find_run_in:
  "store_inv s \<Longrightarrow> find_run k (runs s) = Some q \<Longrightarrow> q \<in> set (runs s) \<and> r_ID q = k"
  using runs_tab.get_Some [of "runs s" k q] by (simp add: store_inv_def)

lemma find_run_row_ok: "store_inv s \<Longrightarrow> find_run k (runs s) = Some q \<Longrightarrow> row_ok q"
  using find_run_in [of s k q] by (simp add: store_inv_def)

lemma find_run_linked_ok:
  "store_inv s \<Longrightarrow> find_run k (runs s) = Some q \<Longrightarrow> linked_ok (finalization_outbox s) (state_transitions s) q"
  using find_run_in [of s k q] by (simp add: store_inv_def)

lemma store_inv_SealTranscript:
  assumes "SealTranscript now i n s = Inr s'" and inv: "store_inv s"
  shows "store_inv s'"
proof -
  from assms(1) obtain q where q: "find_run i (runs s) = Some q" and n: "0 \<le> n"
    and cases: "s' = s \<or> (r_TranscriptFinalSize q < 0 \<and>
      s' = update_run i (\<lambda>r. r\<lparr>r_TranscriptFinalSize := n, r_UpdatedAt := now\<rparr>) s)"
    by (auto simp: SealTranscript_def split: option.splits if_splits)
  from cases show ?thesis
  proof
    assume "r_TranscriptFinalSize q < 0 \<and>
      s' = update_run i (\<lambda>r. r\<lparr>r_TranscriptFinalSize := n, r_UpdatedAt := now\<rparr>) s"
    then show ?thesis
      using find_run_unique [OF inv q] inv n
      by (auto simp: update_run_def row_ok_def intro!: store_inv_update_rows)
  qed (use inv in simp)
qed

subsection \<open>Preservation: operations that append rows\<close>

lemma store_inv_CreateProject:
  "CreateProject now i name root s = Inr s' \<Longrightarrow> store_inv s \<Longrightarrow> store_inv s'"
  by (clarsimp simp: CreateProject_def store_inv_def split: if_splits)

lemma store_inv_CreateWorkstream:
  "CreateWorkstream now i p name s = Inr s' \<Longrightarrow> store_inv s \<Longrightarrow> store_inv s'"
  by (clarsimp simp: CreateWorkstream_def store_inv_def split: if_splits)

lemma row_ok_new_run: "row_ok (new_run now i p w spec)"
  by (simp add: row_ok_def new_run_def)

lemma store_inv_CreateRun:
  assumes op: "CreateRun now i p w spec s = Inr s'" and inv: "store_inv s"
  shows "store_inv s'"
proof -
  let ?r = "new_run now i p w spec"
  let ?t = "\<lparr>tr_RunID = i, tr_Seq = 0, tr_FromState = StateOther [], tr_ToState = StateCreated,
         tr_Reason = ''created'', tr_WrittenAt = now\<rparr>"
  from op have new: "find_run i (runs s) = None"
    and s': "s' = insert_transition ?t (s\<lparr>runs := runs s @ [?r]\<rparr>)"
    by (auto simp: CreateRun_def split: if_splits)
  have uk: "unique_key r_ID (runs s)" using inv by (simp add: store_inv_def)
  have fresh: "i \<notin> r_ID ` set (runs s)" using runs_tab.get_None [OF uk] new by blast
  have ri: "r_ID ?r = i" and rs: "r_State ?r = StateCreated" by (simp_all add: new_run_def)
  have uk': "unique_key r_ID (runs s @ [?r])" using runs_tab.unique_key_insert uk new ri by metis
  have none: "tr_RunID t \<noteq> i" if "t \<in> set (state_transitions s)" for t
    using inv fresh that by (auto simp: store_inv_def)
  have noob: "ob_RunID o' \<noteq> i" if "o' \<in> set (finalization_outbox s)" for o'
    using inv fresh that by (auto simp: store_inv_def)
  have empty: "log_seqs tr_RunID tr_Seq i (state_transitions s) = []"
    using none by (auto simp: log_seqs_def filter_empty_conv)
  have g: "gapless 0 (log_seqs tr_RunID tr_Seq k (state_transitions s @ [?t]))" for k
    using inv empty by (intro tr_log.log_first) (auto simp: store_inv_def)
  have hist: "history i (state_transitions s) = []"
    using none by (auto simp: history_def filter_empty_conv)
  have "linked_ok (finalization_outbox s) (state_transitions s @ [?t]) ?r"
    using hist noob ri rs by (auto simp: linked_ok_def history_snoc history_ok_def)
  moreover have "linked_ok (finalization_outbox s) (state_transitions s @ [?t]) q"
    if "q \<in> set (runs s)" for q
    using inv that fresh by (auto simp: store_inv_def linked_ok_def history_snoc)
  ultimately show ?thesis
    using inv uk' g ri row_ok_new_run by (auto simp: store_inv_def s' insert_transition_def)
qed

lemma store_inv_AppendEvent:
  assumes op: "AppendEvent now i typ payload off s = Inr (e, s')" and inv: "store_inv s"
  shows "store_inv s'"
proof -
  let ?fits = "\<lambda>r. r_ID r = i \<and> (r_TranscriptFinalSize r < 0 \<or> off \<le> r_TranscriptFinalSize r)"
  let ?f = "\<lambda>r. r\<lparr>r_CommittedOffset := max (r_CommittedOffset r) off,
            r_TranscriptConsumedOffset := max (r_TranscriptConsumedOffset r) off, r_UpdatedAt := now\<rparr>"
  define s1 where "s1 = s\<lparr>runs := update_where ?fits ?f (runs s)\<rparr>"
  from op obtain q where q: "find_run i (runs s) = Some q"
    and e: "ev_RunID e = i" "ev_Seq e = next_seq (event_seqs i s)"
    and s': "s' = s1\<lparr>events := events s @ [e]\<rparr>"
    by (auto simp: AppendEvent_def Let_def s1_def split: if_splits)
  have inv1: "store_inv s1"
    unfolding s1_def using inv by (intro store_inv_update_rows) (auto simp: row_ok_def)
  have keys: "r_ID ` set (runs s1) = r_ID ` set (runs s)"
    unfolding s1_def by (simp add: image_update_where)
  have "gapless 1 (log_seqs ev_RunID ev_Seq k (events s @ [e]))" for k
    using inv e by (intro ev_log.log_append) (auto simp: store_inv_def event_seqs_def)
  moreover have "i \<in> r_ID ` set (runs s1)" using find_run_in [OF inv q] keys by force
  moreover have "events s1 = events s" by (simp add: s1_def)
  ultimately show ?thesis using inv1 e by (simp add: store_inv_def s')
qed

subsection \<open>Preservation: state changes\<close>

text \<open>
  One lemma for every state change: the run row moves to \<open>to\<close>, a record is appended, and an
  outbox row is added exactly when \<open>to\<close> is terminal.
\<close>

lemma store_inv_state_change:
  assumes inv: "store_inv s" and q: "find_run i (runs s) = Some q"
    and edge: "edge_ok (r_State q) to" and nt: "\<not> IsTerminal (r_State q)"
    and f: "\<And>r. r_ID (f r) = r_ID r \<and> r_State (f r) = to" and row: "row_ok (f q)"
    and t: "tr_RunID t = i" "tr_Seq t = next_seq (transition_seqs i s)"
      "tr_FromState t = r_State q" "tr_ToState t = to"
    and obs: "if IsTerminal to then \<exists>o'. obs = [o'] \<and> ob_RunID o' = i \<and> ob_TerminalState o' = to \<and> outbox_ok o'
      else obs = []"
  shows "store_inv (s\<lparr>runs := update_where (\<lambda>r. r_ID r = i) f (runs s),
     state_transitions := state_transitions s @ [t], finalization_outbox := finalization_outbox s @ obs\<rparr>)"
proof -
  let ?obs = "finalization_outbox s @ obs" and ?trs = "state_transitions s @ [t]"
  let ?runs = "update_where (\<lambda>r. r_ID r = i) f (runs s)"
  note q_in = find_run_in [OF inv q]
  have lq: "linked_ok (finalization_outbox s) (state_transitions s) q" by (rule find_run_linked_ok [OF inv q])
  have noob: "i \<notin> ob_RunID ` set (finalization_outbox s)" using lq nt q_in by (auto simp: linked_ok_def)
  have keys: "r_ID ` set ?runs = r_ID ` set (runs s)" using f by (intro image_update_where) simp
  have uk: "unique_key r_ID ?runs" using inv f by (simp add: store_inv_def runs_tab.unique_key_update)
  have hq: "history_ok (r_State q) (history i (state_transitions s))" using lq q_in by (simp add: linked_ok_def)
  then have "log_seqs tr_RunID tr_Seq i (state_transitions s) \<noteq> []"
    using history_ok_nonempty by (fastforce simp: log_seqs_def history_def)
  then have gap: "gapless 0 (log_seqs tr_RunID tr_Seq k ?trs)" for k
    using inv t by (intro tr_log.log_append) (auto simp: store_inv_def transition_seqs_def)
  have ub: "unique_key ob_RunID ?obs"
  proof (cases "IsTerminal to")
    case True
    with obs obtain o' where "obs = [o']" and "ob_RunID o' = i" by auto
    with noob inv show ?thesis by (simp add: store_inv_def unique_key_def)
  qed (use inv obs in \<open>simp add: store_inv_def\<close>)
  have rows: "row_ok r \<and> linked_ok ?obs ?trs r" if r: "r \<in> set ?runs" for r
  proof -
    from r obtain p where p: "p \<in> set (runs s)" "r = (if r_ID p = i then f p else p)"
      by (auto simp: set_update_where)
    show ?thesis
    proof (cases "r_ID p = i")
      case True
      then have r_eq: "r = f q" using find_run_unique [OF inv q] p by simp
      have ids: "r_ID (f q) = i" "r_State (f q) = to" using f q_in by auto
      have "history_ok to (history i ?trs)"
        using history_ok_snoc [OF hq, of t] t edge by (simp add: history_snoc)
      moreover have "IsTerminal to \<longleftrightarrow> i \<in> ob_RunID ` set ?obs"
        using obs noob by (auto split: if_splits)
      moreover have "\<forall>o' \<in> set (finalization_outbox s). ob_RunID o' \<noteq> i" using noob by blast
      then have "\<forall>o' \<in> set ?obs. ob_RunID o' = i \<longrightarrow> ob_TerminalState o' = to"
        using obs by (auto split: if_splits)
      ultimately show ?thesis using row r_eq ids by (simp add: linked_ok_def)
    next
      case False
      with p inv have "row_ok r" "linked_ok (finalization_outbox s) (state_transitions s) r" "r_ID r \<noteq> i"
        by (auto simp: store_inv_def)
      then show ?thesis using t obs by (auto simp: linked_ok_def history_snoc split: if_splits)
    qed
  qed
  have "i \<in> r_ID ` set ?runs" using q_in keys by force
  then show ?thesis
    using inv uk gap ub rows obs t keys by (auto simp: store_inv_def split: if_splits)
qed

subsection \<open>Preservation: the commit operations\<close>

lemma transition_run_fields:
  "r_ID (transition_run now to c r) = r_ID r \<and> r_State (transition_run now to c r) = to"
  by (simp add: transition_run_def Let_def)

lemma transition_error_edge:
  "transition_error h r to c = None \<Longrightarrow> edge_ok (r_State r) to"
  by (auto simp: transition_error_def edge_ok_def split: if_splits)

lemma transition_error_nonterminal:
  "transition_error h r to c = None \<Longrightarrow> \<not> IsTerminal (r_State r)"
  using cm.terminal_stuck by (auto simp: transition_error_def split: if_splits)

text \<open>The checks of a production build keep the columns of the row consistent.\<close>

lemma row_ok_transition_run:
  assumes "transition_error productionHooks r to c = None" and "row_ok r"
    and "tc_terminal c \<longleftrightarrow> IsTerminal to"
  shows "row_ok (transition_run now to c r)"
proof (cases "tc_noProcess c")
  case True
  with assms(1) have "to = StateFailed" by (auto simp: transition_error_def split: if_splits)
  with True assms(2) show ?thesis by (simp add: row_ok_def transition_run_def Let_def)
next
  case False
  have "r_State r \<noteq> StateFailed" using transition_error_nonterminal [OF assms(1)] by auto
  moreover have "to = StateCompleted \<longrightarrow> \<not> r_CancelRequested r"
    using assms(1,3) by (auto simp: transition_error_def split: if_splits)
  moreover have "IsTerminal to \<and> r_TranscriptRequired r \<longrightarrow>
      0 \<le> r_TranscriptFinalSize r \<and> r_TranscriptConsumedOffset r = r_TranscriptFinalSize r"
    using assms(1,3) False by (auto simp: transition_error_def productionHooks_def split: if_splits)
  ultimately show ?thesis
    using False assms(2) by (simp add: row_ok_def transition_run_def)
qed

lemma outbox_ok_outbox_row: "outbox_ok (outbox_row now i to c)"
  by (simp add: outbox_ok_def outbox_row_def)

lemma commitTransition_store:
  assumes "commitTransition productionHooks now i to reason c s = Inr s'"
  obtains q t where "find_run i (runs s) = Some q" and "transition_error productionHooks q to c = None"
    and "tr_RunID t = i" "tr_Seq t = next_seq (transition_seqs i s)" "tr_FromState t = r_State q"
      "tr_ToState t = to" "tr_Reason t = reason" "tr_WrittenAt t = now"
    and "s' = s\<lparr>runs := update_where (\<lambda>r. r_ID r = i) (transition_run now to c) (runs s),
      state_transitions := state_transitions s @ [t],
      finalization_outbox := finalization_outbox s @ (if tc_terminal c then [outbox_row now i to c] else [])\<rparr>"
proof -
  from assms obtain q where q: "find_run i (runs s) = Some q"
    "transition_error productionHooks q to c = None"
    by (auto simp: commitTransition_def split: option.splits)
  let ?t = "\<lparr>tr_RunID = i, tr_Seq = next_seq (transition_seqs i s), tr_FromState = r_State q,
    tr_ToState = to, tr_Reason = reason, tr_WrittenAt = now\<rparr>"
  have "s' = s\<lparr>runs := update_where (\<lambda>r. r_ID r = i) (transition_run now to c) (runs s),
      state_transitions := state_transitions s @ [?t],
      finalization_outbox := finalization_outbox s @ (if tc_terminal c then [outbox_row now i to c] else [])\<rparr>"
    using assms q
    by (auto simp: commitTransition_def Let_def insert_transition_def update_run_def productionHooks_def
        split: if_splits)
  with q show thesis by (intro that [of q ?t]) simp_all
qed

lemma store_inv_commitTransition:
  assumes op: "commitTransition productionHooks now i to reason c s = Inr s'" and inv: "store_inv s"
    and c: "tc_terminal c \<longleftrightarrow> IsTerminal to"
  shows "store_inv s'"
proof -
  from op obtain q t where q: "find_run i (runs s) = Some q"
    and te: "transition_error productionHooks q to c = None"
    and t: "tr_RunID t = i" "tr_Seq t = next_seq (transition_seqs i s)" "tr_FromState t = r_State q"
      "tr_ToState t = to"
    and s': "s' = s\<lparr>runs := update_where (\<lambda>r. r_ID r = i) (transition_run now to c) (runs s),
      state_transitions := state_transitions s @ [t],
      finalization_outbox := finalization_outbox s @ (if tc_terminal c then [outbox_row now i to c] else [])\<rparr>"
    by (rule commitTransition_store)
  have row: "row_ok (transition_run now to c q)"
    using row_ok_transition_run [OF te find_run_row_ok [OF inv q] c] .
  have obs: "if IsTerminal to
      then \<exists>o'. (if tc_terminal c then [outbox_row now i to c] else []) = [o'] \<and> ob_RunID o' = i
        \<and> ob_TerminalState o' = to \<and> outbox_ok o'
      else (if tc_terminal c then [outbox_row now i to c] else []) = []"
    using outbox_ok_outbox_row [of now i to c] by (simp add: c outbox_row_def)
  show ?thesis
    unfolding s'
    by (rule store_inv_state_change [OF inv q transition_error_edge [OF te]
        transition_error_nonterminal [OF te] transition_run_fields row t obs])
qed

lemma store_inv_Transition:
  "Transition productionHooks now i to reason s = Inr s' \<Longrightarrow> store_inv s \<Longrightarrow> store_inv s'"
  by (auto simp: Transition_def intro: store_inv_commitTransition split: if_splits)

lemma store_inv_CommitTerminal:
  "CommitTerminal productionHooks now i to reason ob s = Inr s' \<Longrightarrow> store_inv s \<Longrightarrow> store_inv s'"
  by (auto simp: CommitTerminal_def intro: store_inv_commitTransition split: if_splits)

lemma store_inv_CommitNoProcessFailure:
  "CommitNoProcessFailure productionHooks now i reason s = Inr s' \<Longrightarrow> store_inv s \<Longrightarrow> store_inv s'"
  by (auto simp: CommitNoProcessFailure_def intro: store_inv_commitTransition)

lemma store_inv_RequestCancellation:
  assumes op: "RequestCancellation now i s = Inr (st, s')" and inv: "store_inv s"
  shows "store_inv s'"
proof -
  from op obtain q where q: "find_run i (runs s) = Some q" and nt: "\<not> IsTerminal (r_State q)"
    by (auto simp: RequestCancellation_def split: option.splits if_splits)
  show ?thesis
  proof (cases "r_State q = StateRunning")
    case True
    let ?f = "\<lambda>r. r\<lparr>r_State := StateCancelling, r_CancelRequested := True, r_UpdatedAt := now\<rparr>"
    let ?t = "\<lparr>tr_RunID = i, tr_Seq = next_seq (transition_seqs i s), tr_FromState = r_State q,
       tr_ToState = StateCancelling, tr_Reason = ''cancellation requested'', tr_WrittenAt = now\<rparr>"
    have s': "s' = s\<lparr>runs := update_where (\<lambda>r. r_ID r = i) ?f (runs s),
        state_transitions := state_transitions s @ [?t], finalization_outbox := finalization_outbox s @ []\<rparr>"
      using op q nt True
      by (auto simp: RequestCancellation_def Let_def insert_transition_def update_run_def transition_seqs_def)
    show ?thesis
      unfolding s' using find_run_row_ok [OF inv q] True
      by (intro store_inv_state_change [OF inv q, where to = StateCancelling])
        (auto simp: edge_ok_def CanTransition_iff row_ok_def)
  next
    case False
    then have "s' = s \<or> s' = s\<lparr>runs := update_where (\<lambda>r. r_ID r = i)
        (\<lambda>r. r\<lparr>r_State := r_State q, r_CancelRequested := True, r_UpdatedAt := now\<rparr>) (runs s)\<rparr>"
      using op q nt by (auto simp: RequestCancellation_def Let_def update_run_def split: if_splits)
    moreover have "update_where (\<lambda>r. r_ID r = i)
        (\<lambda>r. r\<lparr>r_State := r_State q, r_CancelRequested := True, r_UpdatedAt := now\<rparr>) (runs s)
      = update_where (\<lambda>r. r_ID r = i) (\<lambda>r. r\<lparr>r_CancelRequested := True, r_UpdatedAt := now\<rparr>) (runs s)"
      using find_run_unique [OF inv q] by (auto simp: update_where_def)
    moreover have "store_inv (s\<lparr>runs := update_where (\<lambda>r. r_ID r = i)
        (\<lambda>r. r\<lparr>r_CancelRequested := True, r_UpdatedAt := now\<rparr>) (runs s)\<rparr>)"
      using inv find_run_unique [OF inv q] nt
      by (intro store_inv_update_rows) (auto simp: row_ok_def)
    ultimately show ?thesis using inv by auto
  qed
qed

subsection \<open>Preservation: the outbox operations\<close>

lemma store_inv_update_outbox:
  assumes inv: "store_inv s"
    and key: "\<And>r. p r \<Longrightarrow> ob_RunID (f r) = ob_RunID r \<and> ob_TerminalState (f r) = ob_TerminalState r"
    and ok: "\<And>r. p r \<Longrightarrow> outbox_ok r \<Longrightarrow> outbox_ok (f r)"
  shows "store_inv (s\<lparr>finalization_outbox := update_where p f (finalization_outbox s)\<rparr>)"
proof -
  let ?obs = "update_where p f (finalization_outbox s)"
  have keys: "ob_RunID ` set ?obs = ob_RunID ` set (finalization_outbox s)"
    using key by (intro image_update_where) blast
  have "unique_key ob_RunID ?obs" using inv key by (simp add: store_inv_def outbox_tab.unique_key_update)
  moreover have "linked_ok ?obs (state_transitions s) r" if "r \<in> set (runs s)" for r
  proof -
    from inv that have lk: "linked_ok (finalization_outbox s) (state_transitions s) r"
      by (simp add: store_inv_def)
    have "ob_TerminalState o' = r_State r" if "o' \<in> set ?obs" "ob_RunID o' = r_ID r" for o'
    proof -
      from that obtain x where "x \<in> set (finalization_outbox s)" "o' = (if p x then f x else x)"
        by (auto simp: set_update_where)
      moreover from this that key have "ob_RunID x = r_ID r" and "ob_TerminalState o' = ob_TerminalState x"
        by (auto split: if_splits)
      ultimately show ?thesis using lk by (simp add: linked_ok_def)
    qed
    with lk show ?thesis by (simp add: linked_ok_def keys)
  qed
  moreover have "\<forall>o' \<in> set ?obs. outbox_ok o'"
    using inv ok by (auto simp: store_inv_def set_update_where)
  ultimately show ?thesis using inv by (simp add: store_inv_def keys)
qed

lemma store_inv_AcknowledgeOutbox:
  "AcknowledgeOutbox now i s = Inr s' \<Longrightarrow> store_inv s \<Longrightarrow> store_inv s'"
  by (clarsimp simp: AcknowledgeOutbox_def Let_def split: if_splits)
    (rule store_inv_update_outbox, simp_all add: outbox_ok_def)

lemma store_inv_AbandonOutbox:
  "AbandonOutbox now i reason s = Inr s' \<Longrightarrow> store_inv s \<Longrightarrow> store_inv s'"
  by (clarsimp simp: AbandonOutbox_def Let_def split: if_splits)
    (rule store_inv_update_outbox, simp_all add: outbox_ok_def)

lemmas store_inv_ops =
  store_inv_CreateProject store_inv_CreateWorkstream store_inv_CreateRun
  store_inv_SetTranscriptIdentity store_inv_SetRunSupervisor store_inv_Transition
  store_inv_CommitTerminal store_inv_CommitNoProcessFailure store_inv_RequestCancellation
  store_inv_AppendEvent store_inv_SealTranscript store_inv_AdvanceTranscriptConsumed
  store_inv_AcknowledgeOutbox store_inv_AbandonOutbox

lemma store_step_inv: "store_step s s' \<Longrightarrow> store_inv s \<Longrightarrow> store_inv s'"
  by (induction rule: store_step.induct) (erule store_inv_ops, assumption)+

lemma store_steps_inv: "store_step\<^sup>*\<^sup>* s s' \<Longrightarrow> store_inv s \<Longrightarrow> store_inv s'"
  by (induction rule: rtranclp_induct) (auto intro: store_step_inv)

lemma reachable_store_inv: "reachable s \<Longrightarrow> store_inv s"
  using store_steps_inv store_inv_empty by blast

end
