(* ===== verification/Run_Evolution.thy ===== *)
theory Run_Evolution
  imports Run_Invariants
begin

section \<open>How a run row and its outbox row evolve\<close>

text \<open>
  One relation between a run row before and after any operation of the journal, and one for its
  outbox row; both are closed under sequences of operations.  The properties of a run's life are
  read off them.
\<close>

lemma find_run_update_where:
  "store_inv s \<Longrightarrow> (\<And>r. p r \<Longrightarrow> r_ID (f r) = r_ID r) \<Longrightarrow>
   find_run k (update_where p f (runs s)) = map_option (\<lambda>r. if p r then f r else r) (find_run k (runs s))"
  by (rule runs_tab.get_update) (auto simp: store_inv_def)

lemma find_outbox_update_where:
  "store_inv s \<Longrightarrow> (\<And>r. p r \<Longrightarrow> ob_RunID (f r) = ob_RunID r) \<Longrightarrow>
   find_outbox k (update_where p f (finalization_outbox s)) =
     map_option (\<lambda>r. if p r then f r else r) (find_outbox k (finalization_outbox s))"
  by (rule outbox_tab.get_update) (auto simp: store_inv_def)

lemma find_outbox_None_iff:
  "store_inv s \<Longrightarrow> find_outbox k (finalization_outbox s) = None \<longleftrightarrow> k \<notin> ob_RunID ` set (finalization_outbox s)"
  by (rule outbox_tab.get_None) (simp add: store_inv_def)

lemma find_outbox_Some_iff:
  "store_inv s \<Longrightarrow> find_outbox k (finalization_outbox s) = Some o' \<longleftrightarrow>
     o' \<in> set (finalization_outbox s) \<and> ob_RunID o' = k"
  by (rule outbox_tab.get_Some) (simp add: store_inv_def)

lemma find_run_snoc: "find_run k (t @ [r]) = (case find_run k t of None \<Rightarrow> if r_ID r = k then Some r else None | Some q \<Rightarrow> Some q)"
  by (simp add: find_run_def find_append split: option.splits)

lemma find_outbox_snoc:
  "find_outbox k (t @ [r]) = (case find_outbox k t of None \<Rightarrow> if ob_RunID r = k then Some r else None | Some q \<Rightarrow> Some q)"
  by (simp add: find_outbox_def find_append split: option.splits)

lemma find_run_ID: "find_run k t = Some r \<Longrightarrow> r_ID r = k"
  unfolding find_run_def by (blast dest: find_SomeD)

lemma terminal_iff_outbox:
  "store_inv s \<Longrightarrow> find_run k (runs s) = Some r \<Longrightarrow>
   IsTerminal (r_State r) \<longleftrightarrow> (\<exists>o'. find_outbox k (finalization_outbox s) = Some o')"
  using find_run_linked_ok [of s k r] find_outbox_None_iff [of s k] find_run_ID [of k "runs s" r]
  by (auto simp: linked_ok_def)

subsection \<open>The run row\<close>

text \<open>The columns no operation writes after creation.\<close>

definition immutable_columns :: "Run \<Rightarrow> string list \<times> string list \<times> string list \<times> bool \<times> stamp" where
  "immutable_columns r =
     ([r_ID r, r_ProjectID r, r_WorkstreamID r, r_WorkerPath r, r_TranscriptPath r, r_SocketPath r,
       r_Token r, r_IdentityPath r], r_WorkerArgs r, r_WorkerEnv r, r_TranscriptRequired r, r_CreatedAt r)"

text \<open>A no-process failure: the only step that resets the transcript columns.\<close>

definition aborted :: "Run \<Rightarrow> Run \<Rightarrow> bool" where
  "aborted r r' \<longleftrightarrow> r_State r \<in> {StateCreated, StateRunning} \<and> r_State r' = StateFailed"

definition keeps_transcript :: "Run \<Rightarrow> Run \<Rightarrow> bool" where
  "keeps_transcript r r' \<longleftrightarrow>
     r_TranscriptConsumedOffset r \<le> r_TranscriptConsumedOffset r'
   \<and> (0 \<le> r_TranscriptFinalSize r \<longrightarrow> r_TranscriptFinalSize r' = r_TranscriptFinalSize r)
   \<and> (r_TranscriptIdentity r \<noteq> no_identity \<longrightarrow> r_TranscriptIdentity r' = r_TranscriptIdentity r)"

definition evolves :: "Run \<Rightarrow> Run \<Rightarrow> bool" where
  "evolves r r' \<longleftrightarrow>
     immutable_columns r' = immutable_columns r
   \<and> (r_State r' = r_State r \<or> edge_ok (r_State r) (r_State r'))
   \<and> (r_CancelRequested r \<longrightarrow> r_CancelRequested r')
   \<and> r_CommittedOffset r \<le> r_CommittedOffset r'
   \<and> (keeps_transcript r r' \<or> aborted r r')"

lemmas evolves_simps = evolves_def immutable_columns_def keeps_transcript_def

lemma evolves_refl: "evolves r r"
  by (simp add: evolves_simps)

lemma keeps_transcript_refl: "keeps_transcript r r"
  by (simp add: keeps_transcript_def)

text \<open>A step that updates the row of one run, if it has one.\<close>

lemma evolves_update:
  assumes "store_inv s" and "find_run k (runs s) = Some r"
    and "\<And>q. p q \<Longrightarrow> r_ID (f q) = r_ID q" and "p r \<Longrightarrow> evolves r (f r)"
  shows "\<exists>r'. find_run k (update_where p f (runs s)) = Some r' \<and> evolves r r'"
  using assms by (auto simp: find_run_update_where evolves_refl)

lemma transition_run_evolves:
  assumes "transition_error h r to c = None"
  shows "evolves r (transition_run now to c r)"
proof (cases "tc_noProcess c")
  case True
  with assms have "aborted r (transition_run now to c r)"
    by (auto simp: transition_error_def aborted_def transition_run_def Let_def split: if_splits)
  then show ?thesis
    using transition_error_edge [OF assms]
    by (simp add: evolves_def immutable_columns_def transition_run_def Let_def)
next
  case False
  then show ?thesis
    using transition_error_edge [OF assms]
    by (simp add: evolves_def immutable_columns_def transition_run_def keeps_transcript_def)
qed

lemma evolves_commitTransition:
  assumes "commitTransition productionHooks now i to reason c s = Inr s'" and inv: "store_inv s"
    and r: "find_run k (runs s) = Some r"
  shows "\<exists>r'. find_run k (runs s') = Some r' \<and> evolves r r'"
  using assms(1)
proof (rule commitTransition_store)
  fix q t
  assume q: "find_run i (runs s) = Some q" and te: "transition_error productionHooks q to c = None"
    and s': "s' = s\<lparr>runs := update_where (\<lambda>r. r_ID r = i) (transition_run now to c) (runs s),
      state_transitions := state_transitions s @ [t],
      finalization_outbox := finalization_outbox s @ (if tc_terminal c then [outbox_row now i to c] else [])\<rparr>"
  have "evolves r (transition_run now to c r)" if "r_ID r = i"
    using transition_run_evolves [OF te] q r find_run_ID [OF r] that by simp
  then show ?thesis
    using evolves_update [OF inv r, of "\<lambda>r. r_ID r = i" "transition_run now to c"] transition_run_fields
    by (simp add: s')
qed

lemma evolves_CreateRun:
  "CreateRun now i p w spec s = Inr s' \<Longrightarrow> find_run k (runs s) = Some r \<Longrightarrow>
   \<exists>r'. find_run k (runs s') = Some r' \<and> evolves r r'"
  by (auto simp: CreateRun_def insert_transition_def find_run_snoc evolves_refl split: if_splits)

lemma evolves_SetTranscriptIdentity:
  assumes "SetTranscriptIdentity now i tid s = Inr s'" "store_inv s" "find_run k (runs s) = Some r"
  shows "\<exists>r'. find_run k (runs s') = Some r' \<and> evolves r r'"
proof -
  from assms(1) obtain q where q: "find_run i (runs s) = Some q" and
    c: "s' = s \<or> (r_TranscriptIdentity q = no_identity \<and>
      s' = update_run i (\<lambda>r. r\<lparr>r_TranscriptIdentity := tid, r_UpdatedAt := now\<rparr>) s)"
    by (auto simp: SetTranscriptIdentity_def split: option.splits if_splits)
  from c show ?thesis
  proof
    assume "s' = s" then show ?thesis using assms(3) evolves_refl by auto
  next
    assume c2: "r_TranscriptIdentity q = no_identity \<and>
      s' = update_run i (\<lambda>r. r\<lparr>r_TranscriptIdentity := tid, r_UpdatedAt := now\<rparr>) s"
    have "r_TranscriptIdentity r = no_identity" if "r_ID r = i"
      using q assms(3) find_run_ID [OF assms(3)] c2 that by simp
    then show ?thesis
      using c2 assms(2,3)
      by (clarsimp simp: update_run_def) (rule evolves_update; simp add: evolves_simps)
  qed
qed

lemma evolves_SetRunSupervisor:
  "SetRunSupervisor now i sp pg wp s = Inr s' \<Longrightarrow> store_inv s \<Longrightarrow> find_run k (runs s) = Some r \<Longrightarrow>
   \<exists>r'. find_run k (runs s') = Some r' \<and> evolves r r'"
  by (clarsimp simp: SetRunSupervisor_def update_run_def split: if_splits)
    (rule evolves_update; simp add: evolves_simps)

lemma evolves_RequestCancellation:
  assumes "RequestCancellation now i s = Inr (st, s')" "store_inv s" "find_run k (runs s) = Some r"
  shows "\<exists>r'. find_run k (runs s') = Some r' \<and> evolves r r'"
proof -
  from assms(1) obtain q where q: "find_run i (runs s) = Some q"
    by (auto simp: RequestCancellation_def split: option.splits)
  let ?to = "if r_State q = StateRunning then StateCancelling else r_State q"
  let ?f = "\<lambda>r. r\<lparr>r_State := ?to, r_CancelRequested := True, r_UpdatedAt := now\<rparr>"
  have "runs s' = runs s \<or> runs s' = update_where (\<lambda>r. r_ID r = i) ?f (runs s)"
    using assms(1) q
    by (auto simp: RequestCancellation_def Let_def update_run_def insert_transition_def split: if_splits)
  moreover have "\<exists>r'. find_run k (update_where (\<lambda>r. r_ID r = i) ?f (runs s)) = Some r' \<and> evolves r r'"
  proof (rule evolves_update [OF assms(2,3)])
    assume "r_ID r = i"
    then have "r = q" using q assms(3) find_run_ID [OF assms(3)] by simp
    then show "evolves r (?f r)"
      by (auto simp: evolves_def immutable_columns_def keeps_transcript_def edge_ok_def CanTransition_iff)
  qed simp
  ultimately show ?thesis using assms(3) evolves_refl by metis
qed

lemma evolves_AppendEvent:
  "AppendEvent now i typ payload off s = Inr (e, s') \<Longrightarrow> store_inv s \<Longrightarrow> find_run k (runs s) = Some r \<Longrightarrow>
   \<exists>r'. find_run k (runs s') = Some r' \<and> evolves r r'"
  by (clarsimp simp: AppendEvent_def Let_def split: if_splits option.splits)
    (rule evolves_update; simp add: evolves_simps)

lemma evolves_AdvanceTranscriptConsumed:
  "AdvanceTranscriptConsumed now i off s = Inr s' \<Longrightarrow> store_inv s \<Longrightarrow> find_run k (runs s) = Some r \<Longrightarrow>
   \<exists>r'. find_run k (runs s') = Some r' \<and> evolves r r'"
  by (clarsimp simp: AdvanceTranscriptConsumed_def Let_def split: if_splits option.splits)
    (rule evolves_update; simp add: evolves_simps)

lemma evolves_SealTranscript:
  assumes "SealTranscript now i n s = Inr s'" "store_inv s" "find_run k (runs s) = Some r"
  shows "\<exists>r'. find_run k (runs s') = Some r' \<and> evolves r r'"
proof -
  from assms(1) obtain q where q: "find_run i (runs s) = Some q" and
    c: "s' = s \<or> (r_TranscriptFinalSize q < 0 \<and>
      s' = update_run i (\<lambda>r. r\<lparr>r_TranscriptFinalSize := n, r_UpdatedAt := now\<rparr>) s)"
    by (auto simp: SealTranscript_def split: option.splits if_splits)
  from c show ?thesis
  proof
    assume "s' = s" then show ?thesis using assms(3) evolves_refl by auto
  next
    assume c2: "r_TranscriptFinalSize q < 0 \<and>
      s' = update_run i (\<lambda>r. r\<lparr>r_TranscriptFinalSize := n, r_UpdatedAt := now\<rparr>) s"
    have "r_TranscriptFinalSize r < 0" if "r_ID r = i"
      using q assms(3) find_run_ID [OF assms(3)] c2 that by simp
    then show ?thesis
      using c2 assms(2,3)
      by (clarsimp simp: update_run_def) (rule evolves_update; simp add: evolves_simps)
  qed
qed

lemma same_runs_evolves:
  "runs s' = runs s \<Longrightarrow> find_run k (runs s) = Some r \<Longrightarrow> \<exists>r'. find_run k (runs s') = Some r' \<and> evolves r r'"
  by (simp add: evolves_refl)

lemma store_step_evolves:
  assumes "store_step s s'" "store_inv s" "find_run k (runs s) = Some r"
  shows "\<exists>r'. find_run k (runs s') = Some r' \<and> evolves r r'"
  using assms
proof (induction rule: store_step.induct)
  case create_project then show ?case by (auto simp: CreateProject_def intro: same_runs_evolves split: if_splits)
next
  case create_workstream then show ?case by (auto simp: CreateWorkstream_def intro: same_runs_evolves split: if_splits)
next
  case transition then show ?case by (auto simp: Transition_def dest: evolves_commitTransition split: if_splits)
next
  case commit_terminal then show ?case by (auto simp: CommitTerminal_def dest: evolves_commitTransition split: if_splits)
next
  case no_process then show ?case by (auto simp: CommitNoProcessFailure_def dest: evolves_commitTransition)
next
  case acknowledge then show ?case by (auto simp: AcknowledgeOutbox_def Let_def intro: same_runs_evolves split: if_splits)
next
  case abandon then show ?case by (auto simp: AbandonOutbox_def Let_def intro: same_runs_evolves split: if_splits)
qed (blast dest: evolves_CreateRun evolves_SetTranscriptIdentity evolves_SetRunSupervisor
      evolves_RequestCancellation evolves_AppendEvent evolves_SealTranscript
      evolves_AdvanceTranscriptConsumed)+

subsection \<open>The run row under sequences of operations\<close>

lemma store_steps_evolve:
  assumes "store_step\<^sup>*\<^sup>* s s'" "store_inv s" "find_run k (runs s) = Some r"
  shows "\<exists>r'. find_run k (runs s') = Some r' \<and> evolves\<^sup>*\<^sup>* r r'"
  using assms
proof (induction rule: rtranclp_induct)
  case (step y z)
  then obtain q where "find_run k (runs y) = Some q" "evolves\<^sup>*\<^sup>* r q" by blast
  moreover have "store_inv y" using step store_steps_inv by blast
  ultimately show ?case using store_step_evolves [OF step.hyps(2)] by (meson rtranclp.rtrancl_into_rtrancl)
qed blast

lemma evolves_terminal: "evolves r r' \<Longrightarrow> IsTerminal (r_State r) \<Longrightarrow> r_State r' = r_State r"
  using cm.terminal_stuck by (auto simp: evolves_def edge_ok_def)

lemma evolves_star_terminal: "evolves\<^sup>*\<^sup>* r r' \<Longrightarrow> IsTerminal (r_State r) \<Longrightarrow> r_State r' = r_State r"
  by (induction rule: rtranclp_induct) (simp_all add: evolves_terminal)

lemma evolves_star_edges: "evolves\<^sup>*\<^sup>* r r' \<Longrightarrow> edge_ok\<^sup>*\<^sup>* (r_State r) (r_State r')"
  by (induction rule: rtranclp_induct) (auto simp: evolves_def)

lemma evolves_star_columns:
  "evolves\<^sup>*\<^sup>* r r' \<Longrightarrow> immutable_columns r' = immutable_columns r
     \<and> (r_CancelRequested r \<longrightarrow> r_CancelRequested r') \<and> r_CommittedOffset r \<le> r_CommittedOffset r'"
  by (induction rule: rtranclp_induct) (auto simp: evolves_def)

lemma keeps_transcript_trans: "keeps_transcript a b \<Longrightarrow> keeps_transcript b c \<Longrightarrow> keeps_transcript a c"
  by (auto simp: keeps_transcript_def)

lemma evolves_star_transcript:
  "evolves\<^sup>*\<^sup>* r r' \<Longrightarrow> r_State r' \<noteq> StateFailed \<Longrightarrow> keeps_transcript r r'"
proof (induction rule: rtranclp_induct)
  case base
  show ?case by (rule keeps_transcript_refl)
next
  case (step y z)
  then have "r_State y \<noteq> StateFailed"
    using evolves_terminal [of y z] by auto
  moreover have "keeps_transcript y z"
    using step by (auto simp: evolves_def aborted_def)
  ultimately show ?case using step.IH keeps_transcript_trans by blast
qed

subsection \<open>The outbox row\<close>

text \<open>An outbox row is settled at most once, and nothing else about it changes.\<close>

definition settles :: "OutboxRow \<Rightarrow> OutboxRow \<Rightarrow> bool" where
  "settles a b \<longleftrightarrow> b = a \<or>
     (ob_Acknowledged a = 0 \<and> ob_Acknowledged b \<noteq> 0 \<and>
      b = a\<lparr>ob_Acknowledged := ob_Acknowledged b, ob_AcknowledgedAt := ob_AcknowledgedAt b,
            ob_Diagnostic := ob_Diagnostic b\<rparr>)"

lemma settles_trans: "settles a b \<Longrightarrow> settles b c \<Longrightarrow> settles a c"
  by (auto simp: settles_def)

lemma same_outbox_settles:
  "finalization_outbox s' = finalization_outbox s \<Longrightarrow> find_outbox k (finalization_outbox s) = Some a \<Longrightarrow>
   \<exists>b. find_outbox k (finalization_outbox s') = Some b \<and> settles a b"
  by (simp add: settles_def)

lemma settles_commitTransition:
  "commitTransition h now i to reason c s = Inr s' \<Longrightarrow> find_outbox k (finalization_outbox s) = Some a \<Longrightarrow>
   \<exists>b. find_outbox k (finalization_outbox s') = Some b \<and> settles a b"
  by (auto simp: commitTransition_def Let_def insert_transition_def update_run_def find_outbox_snoc
      settles_def split: option.splits if_splits)

lemma settles_update:
  assumes "store_inv s" and "find_outbox k (finalization_outbox s) = Some a"
    and "\<And>q. p q \<Longrightarrow> ob_RunID (f q) = ob_RunID q" and "p a \<Longrightarrow> settles a (f a)"
  shows "\<exists>b. find_outbox k (update_where p f (finalization_outbox s)) = Some b \<and> settles a b"
  using assms by (auto simp: find_outbox_update_where settles_def)

lemma settles_AcknowledgeOutbox:
  "AcknowledgeOutbox now i s = Inr s' \<Longrightarrow> store_inv s \<Longrightarrow> find_outbox k (finalization_outbox s) = Some a \<Longrightarrow>
   \<exists>b. find_outbox k (finalization_outbox s') = Some b \<and> settles a b"
  by (clarsimp simp: AcknowledgeOutbox_def Let_def split: if_splits)
    (rule settles_update; simp add: settles_def)

lemma settles_AbandonOutbox:
  "AbandonOutbox now i reason s = Inr s' \<Longrightarrow> store_inv s \<Longrightarrow> find_outbox k (finalization_outbox s) = Some a \<Longrightarrow>
   \<exists>b. find_outbox k (finalization_outbox s') = Some b \<and> settles a b"
  by (clarsimp simp: AbandonOutbox_def Let_def split: if_splits)
    (rule settles_update; simp add: settles_def)

text \<open>The operations that do not touch the outbox.\<close>

lemma CreateProject_outbox: "CreateProject now i name root s = Inr s' \<Longrightarrow> finalization_outbox s' = finalization_outbox s"
  by (auto simp: CreateProject_def split: if_splits)

lemma CreateWorkstream_outbox:
  "CreateWorkstream now i p name s = Inr s' \<Longrightarrow> finalization_outbox s' = finalization_outbox s"
  by (auto simp: CreateWorkstream_def split: if_splits)

lemma CreateRun_outbox: "CreateRun now i p w spec s = Inr s' \<Longrightarrow> finalization_outbox s' = finalization_outbox s"
  by (auto simp: CreateRun_def insert_transition_def split: if_splits)

lemma SetTranscriptIdentity_outbox:
  "SetTranscriptIdentity now i tid s = Inr s' \<Longrightarrow> finalization_outbox s' = finalization_outbox s"
  by (auto simp: SetTranscriptIdentity_def update_run_def split: option.splits if_splits)

lemma SetRunSupervisor_outbox:
  "SetRunSupervisor now i sp pg wp s = Inr s' \<Longrightarrow> finalization_outbox s' = finalization_outbox s"
  by (auto simp: SetRunSupervisor_def update_run_def split: if_splits)

lemma RequestCancellation_outbox:
  "RequestCancellation now i s = Inr (st, s') \<Longrightarrow> finalization_outbox s' = finalization_outbox s"
  by (auto simp: RequestCancellation_def update_run_def insert_transition_def Let_def split: option.splits if_splits)

lemma AppendEvent_outbox:
  "AppendEvent now i typ payload off s = Inr (e, s') \<Longrightarrow> finalization_outbox s' = finalization_outbox s"
  by (auto simp: AppendEvent_def Let_def split: option.splits if_splits)

lemma SealTranscript_outbox: "SealTranscript now i n s = Inr s' \<Longrightarrow> finalization_outbox s' = finalization_outbox s"
  by (auto simp: SealTranscript_def update_run_def split: option.splits if_splits)

lemma AdvanceTranscriptConsumed_outbox:
  "AdvanceTranscriptConsumed now i off s = Inr s' \<Longrightarrow> finalization_outbox s' = finalization_outbox s"
  by (auto simp: AdvanceTranscriptConsumed_def Let_def split: if_splits)

lemmas same_outbox = CreateProject_outbox CreateWorkstream_outbox CreateRun_outbox
  SetTranscriptIdentity_outbox SetRunSupervisor_outbox RequestCancellation_outbox AppendEvent_outbox
  SealTranscript_outbox AdvanceTranscriptConsumed_outbox

lemma store_step_settles:
  assumes "store_step s s'" "store_inv s" "find_outbox k (finalization_outbox s) = Some a"
  shows "\<exists>b. find_outbox k (finalization_outbox s') = Some b \<and> settles a b"
  using assms
proof (induction rule: store_step.induct)
  case transition then show ?case by (auto simp: Transition_def dest: settles_commitTransition split: if_splits)
next
  case commit_terminal then show ?case by (auto simp: CommitTerminal_def dest: settles_commitTransition split: if_splits)
next
  case no_process then show ?case by (auto simp: CommitNoProcessFailure_def dest: settles_commitTransition)
next
  case acknowledge then show ?case by (rule settles_AcknowledgeOutbox)
next
  case abandon then show ?case by (rule settles_AbandonOutbox)
qed (auto dest!: same_outbox simp: settles_def)

lemma store_steps_settle:
  assumes "store_step\<^sup>*\<^sup>* s s'" "store_inv s" "find_outbox k (finalization_outbox s) = Some a"
  shows "\<exists>b. find_outbox k (finalization_outbox s') = Some b \<and> settles a b"
  using assms
proof (induction rule: rtranclp_induct)
  case base
  then show ?case by (simp add: settles_def)
next
  case (step y z)
  then obtain b where "find_outbox k (finalization_outbox y) = Some b" "settles a b" by blast
  moreover have "store_inv y" using step store_steps_inv by blast
  ultimately show ?case using store_step_settles [OF step.hyps(2)] settles_trans by blast
qed

end
