(* ===== verification/Run_Refinement.thy ===== *)
theory Run_Refinement
  imports Run_Evolution
begin

section \<open>What the journal promises: cleanup obligations\<close>

text \<open>
  The abstract machine of the decision record on durable lifecycle recovery
  (\<^verbatim>\<open>src/docs/adr\<close>): each run has a state of the cleanup machine and a finalization obligation.
  A run that ends through its supervisor leaves an obligation that must be discharged; a run that
  never had a process ends with its obligation already discharged.  The journal of
  \<^verbatim>\<open>src/internal/store\<close> refines it.
\<close>

datatype obligation = NoObligation | Owed | Discharged

type_synonym obligations = "string \<rightharpoonup> State \<times> obligation"

inductive spec_step :: "obligations \<Rightarrow> obligations \<Rightarrow> bool" where
  create: "m k = None \<Longrightarrow> spec_step m (m(k \<mapsto> (StateCreated, NoObligation)))"
| move: "m k = Some (a, NoObligation) \<Longrightarrow> CanTransition a b \<Longrightarrow> \<not> IsTerminal b \<Longrightarrow>
    spec_step m (m(k \<mapsto> (b, NoObligation)))"
| finish: "m k = Some (a, NoObligation) \<Longrightarrow> CanTransition a b \<Longrightarrow> IsTerminal b \<Longrightarrow>
    spec_step m (m(k \<mapsto> (b, Owed)))"
| abort: "m k = Some (a, NoObligation) \<Longrightarrow> a \<in> {StateCreated, StateRunning} \<Longrightarrow>
    spec_step m (m(k \<mapsto> (StateFailed, Discharged)))"
| discharge: "m k = Some (b, Owed) \<Longrightarrow> spec_step m (m(k \<mapsto> (b, Discharged)))"

subsection \<open>The abstraction function\<close>

fun obligation_of :: "OutboxRow option \<Rightarrow> obligation" where
  "obligation_of None = NoObligation"
| "obligation_of (Some o') = (if ob_Acknowledged o' = 0 then Owed else Discharged)"

definition journal_view :: "Store \<Rightarrow> obligations" where
  "journal_view s = (\<lambda>k. case find_run k (runs s) of None \<Rightarrow> None
     | Some r \<Rightarrow> Some (r_State r, obligation_of (find_outbox k (finalization_outbox s))))"

lemma journal_view_Some:
  "find_run k (runs s) = Some r \<Longrightarrow>
   journal_view s k = Some (r_State r, obligation_of (find_outbox k (finalization_outbox s)))"
  by (simp add: journal_view_def)

lemma journal_view_live:
  "store_inv s \<Longrightarrow> find_run k (runs s) = Some r \<Longrightarrow> \<not> IsTerminal (r_State r) \<Longrightarrow>
   journal_view s k = Some (r_State r, NoObligation)"
  using terminal_iff_outbox [of s k r] by (simp add: journal_view_Some)

subsection \<open>Stuttering steps\<close>

lemma journal_view_update_rows:
  assumes "store_inv s" and "\<And>r. p r \<Longrightarrow> r_ID (f r) = r_ID r \<and> r_State (f r) = r_State r"
  shows "journal_view (s\<lparr>events := es, runs := update_where p f (runs s)\<rparr>) = journal_view s"
    and "journal_view (s\<lparr>runs := update_where p f (runs s)\<rparr>) = journal_view s"
proof -
  have "find_run k (update_where p f (runs s)) = map_option (\<lambda>r. if p r then f r else r) (find_run k (runs s))" for k
    using assms by (simp add: find_run_update_where)
  with assms show "journal_view (s\<lparr>events := es, runs := update_where p f (runs s)\<rparr>) = journal_view s"
    and "journal_view (s\<lparr>runs := update_where p f (runs s)\<rparr>) = journal_view s"
    by (auto simp: journal_view_def split: option.split)
qed

lemma journal_view_same:
  "runs s' = runs s \<Longrightarrow> finalization_outbox s' = finalization_outbox s \<Longrightarrow> journal_view s' = journal_view s"
  by (rule ext) (simp add: journal_view_def split: option.split)

lemma view_CreateProject: "CreateProject now i name root s = Inr s' \<Longrightarrow> journal_view s' = journal_view s"
  by (auto simp: CreateProject_def intro: journal_view_same split: if_splits)

lemma view_CreateWorkstream: "CreateWorkstream now i p name s = Inr s' \<Longrightarrow> journal_view s' = journal_view s"
  by (auto simp: CreateWorkstream_def intro: journal_view_same split: if_splits)

lemma view_SetTranscriptIdentity:
  "SetTranscriptIdentity now i tid s = Inr s' \<Longrightarrow> store_inv s \<Longrightarrow> journal_view s' = journal_view s"
  by (clarsimp simp: SetTranscriptIdentity_def update_run_def split: option.splits if_splits)
    (rule journal_view_update_rows; simp)

lemma view_SetRunSupervisor:
  "SetRunSupervisor now i sp pg wp s = Inr s' \<Longrightarrow> store_inv s \<Longrightarrow> journal_view s' = journal_view s"
  by (clarsimp simp: SetRunSupervisor_def update_run_def split: if_splits)
    (rule journal_view_update_rows; simp)

lemma view_AppendEvent:
  "AppendEvent now i typ payload off s = Inr (e, s') \<Longrightarrow> store_inv s \<Longrightarrow> journal_view s' = journal_view s"
  by (clarsimp simp: AppendEvent_def Let_def split: if_splits)
    (rule journal_view_update_rows; simp)

lemma view_SealTranscript:
  "SealTranscript now i n s = Inr s' \<Longrightarrow> store_inv s \<Longrightarrow> journal_view s' = journal_view s"
  by (clarsimp simp: SealTranscript_def update_run_def split: option.splits if_splits)
    (rule journal_view_update_rows; simp)

lemma view_AdvanceTranscriptConsumed:
  "AdvanceTranscriptConsumed now i off s = Inr s' \<Longrightarrow> store_inv s \<Longrightarrow> journal_view s' = journal_view s"
  by (clarsimp simp: AdvanceTranscriptConsumed_def Let_def split: if_splits)
    (rule journal_view_update_rows; simp)

lemmas view_stutter = view_CreateProject view_CreateWorkstream view_SetTranscriptIdentity
  view_SetRunSupervisor view_AppendEvent view_SealTranscript view_AdvanceTranscriptConsumed

subsection \<open>Steps of the abstract machine\<close>

lemma view_CreateRun:
  assumes "CreateRun now i p w spec s = Inr s'" and "store_inv s"
  shows "spec_step (journal_view s) (journal_view s')"
proof -
  from assms(1) have new: "find_run i (runs s) = None"
    and runs: "runs s' = runs s @ [new_run now i p w spec]"
    and ob: "finalization_outbox s' = finalization_outbox s"
    by (auto simp: CreateRun_def insert_transition_def split: if_splits)
  have "i \<notin> r_ID ` set (runs s)"
    using new by (auto simp: find_run_def find_None_iff_set)
  then have "find_outbox i (finalization_outbox s) = None"
    using assms(2) by (auto simp: find_outbox_None_iff store_inv_def)
  then have "journal_view s' = (journal_view s)(i \<mapsto> (StateCreated, NoObligation))"
    using new by (intro ext) (auto simp: journal_view_def runs ob find_run_snoc new_run_def split: option.split)
  moreover have "journal_view s i = None" using new by (simp add: journal_view_def)
  ultimately show ?thesis using spec_step.create by simp
qed

lemma journal_view_state_change:
  assumes "store_inv s" and q: "find_run i (runs s) = Some q"
    and f: "\<And>r. r_ID (f r) = r_ID r \<and> r_State (f r) = to"
    and s': "runs s' = update_where (\<lambda>r. r_ID r = i) f (runs s)"
    and ob: "\<And>k. find_outbox k (finalization_outbox s') = (if k = i then x else find_outbox k (finalization_outbox s))"
  shows "journal_view s' = (journal_view s)(i \<mapsto> (to, obligation_of x))"
proof
  fix k
  have "find_run k (runs s') = map_option (\<lambda>r. if r_ID r = i then f r else r) (find_run k (runs s))"
    using assms by (simp add: find_run_update_where)
  then show "journal_view s' k = ((journal_view s)(i \<mapsto> (to, obligation_of x))) k"
    using q f ob by (auto simp: journal_view_def find_run_ID split: option.split)
qed

lemma view_commitTransition:
  assumes "commitTransition productionHooks now i to reason c s = Inr s'" and inv: "store_inv s"
    and c: "tc_terminal c = IsTerminal to"
  shows "spec_step (journal_view s) (journal_view s')"
  using assms(1)
proof (rule commitTransition_store)
  fix q t
  assume q: "find_run i (runs s) = Some q" and te: "transition_error productionHooks q to c = None"
    and s': "s' = s\<lparr>runs := update_where (\<lambda>r. r_ID r = i) (transition_run now to c) (runs s),
      state_transitions := state_transitions s @ [t],
      finalization_outbox := finalization_outbox s @ (if tc_terminal c then [outbox_row now i to c] else [])\<rparr>"
  have live: "\<not> IsTerminal (r_State q)" using te by (rule transition_error_nonterminal)
  then have none: "find_outbox i (finalization_outbox s) = None"
    using terminal_iff_outbox [OF inv q] by simp
  let ?x = "if tc_terminal c then Some (outbox_row now i to c) else None"
  have "find_outbox k (finalization_outbox s') = (if k = i then ?x else find_outbox k (finalization_outbox s))" for k
    using none by (auto simp: s' find_outbox_snoc outbox_row_def split: option.split)
  then have view: "journal_view s' = (journal_view s)(i \<mapsto> (to, obligation_of ?x))"
    using transition_run_fields by (intro journal_view_state_change [OF inv q]) (auto simp: s')
  have q': "journal_view s i = Some (r_State q, NoObligation)"
    using journal_view_live [OF inv q live] .
  show ?thesis
  proof (cases "tc_noProcess c")
    case True
    with te have "to = StateFailed" "r_State q \<in> {StateCreated, StateRunning}"
      by (auto simp: transition_error_def split: if_splits)
    then show ?thesis using True c spec_step.abort [of "journal_view s" i, OF q']
      by (simp add: view outbox_row_def)
  next
    case False
    then have "CanTransition (r_State q) to"
      using te by (auto simp: transition_error_def split: if_splits)
    then show ?thesis using False c
        spec_step.move [of "journal_view s" i, OF q'] spec_step.finish [of "journal_view s" i, OF q']
      by (simp add: view outbox_row_def)
  qed
qed

lemma view_RequestCancellation:
  assumes op: "RequestCancellation now i s = Inr (st, s')" and inv: "store_inv s"
  shows "journal_view s' = journal_view s \<or> spec_step (journal_view s) (journal_view s')"
proof -
  from op obtain q where q: "find_run i (runs s) = Some q" and live: "\<not> IsTerminal (r_State q)"
    by (auto simp: RequestCancellation_def split: option.splits if_splits)
  let ?to = "if r_State q = StateRunning then StateCancelling else r_State q"
  let ?f = "\<lambda>r. r\<lparr>r_State := ?to, r_CancelRequested := True, r_UpdatedAt := now\<rparr>"
  have none: "find_outbox i (finalization_outbox s) = None"
    using terminal_iff_outbox [OF inv q] live by simp
  have q': "journal_view s i = Some (r_State q, NoObligation)"
    using journal_view_live [OF inv q live] .
  consider "s' = s" | "runs s' = update_where (\<lambda>r. r_ID r = i) ?f (runs s)"
    using op q by (auto simp: RequestCancellation_def Let_def update_run_def insert_transition_def split: if_splits)
  then show ?thesis
  proof cases
    case 2
    have view: "journal_view s' = (journal_view s)(i \<mapsto> (?to, obligation_of None))"
      using none RequestCancellation_outbox [OF op] 2
      by (intro journal_view_state_change [OF inv q, where f = ?f]) auto
    show ?thesis
    proof (cases "r_State q = StateRunning")
      case True
      then show ?thesis using view spec_step.move [of "journal_view s" i, OF q', of StateCancelling]
        by (simp add: CanTransition_iff)
    next
      case False
      then show ?thesis using view q' by (simp add: fun_upd_idem)
    qed
  qed simp
qed

lemma view_settle:
  assumes inv: "store_inv s"
    and p: "p = (\<lambda>o'. ob_RunID o' = i \<and> ob_Acknowledged o' = 0)"
    and some: "rows_affected p (finalization_outbox s) \<noteq> 0"
    and f: "\<And>o'. ob_RunID (f o') = ob_RunID o' \<and> ob_Acknowledged (f o') \<noteq> 0"
    and s': "s' = s\<lparr>finalization_outbox := update_where p f (finalization_outbox s)\<rparr>"
  shows "spec_step (journal_view s) (journal_view s')"
proof -
  from some obtain b where b: "b \<in> set (finalization_outbox s)" "ob_RunID b = i" "ob_Acknowledged b = 0"
    by (auto simp: rows_affected_zero_iff p)
  then have fb: "find_outbox i (finalization_outbox s) = Some b"
    using find_outbox_Some_iff [OF inv] by simp
  from b inv have "i \<in> r_ID ` set (runs s)"
    by (auto simp: store_inv_def)
  then obtain q where q: "find_run i (runs s) = Some q"
    using inv runs_tab.get_None [of "runs s" i] by (auto simp: store_inv_def)
  have fo: "find_outbox k (finalization_outbox s') =
      map_option (\<lambda>r. if p r then f r else r) (find_outbox k (finalization_outbox s))" for k
    using f by (simp add: s' find_outbox_update_where [OF inv])
  have other: "find_outbox k (finalization_outbox s') = find_outbox k (finalization_outbox s)" if "k \<noteq> i" for k
  proof (cases "find_outbox k (finalization_outbox s)")
    case (Some a)
    then have "ob_RunID a = k" using find_outbox_Some_iff [OF inv] by blast
    with Some that fo [of k] show ?thesis by (simp add: p)
  qed (simp add: fo)
  have "journal_view s' = (journal_view s)(i \<mapsto> (r_State q, Discharged))"
  proof
    fix k
    show "journal_view s' k = ((journal_view s)(i \<mapsto> (r_State q, Discharged))) k"
    proof (cases "k = i")
      case True
      then show ?thesis using fo [of i] fb q b f by (simp add: journal_view_def s' p)
    next
      case False
      then show ?thesis using other [OF False] by (simp add: journal_view_def s' split: option.split)
    qed
  qed
  moreover have "journal_view s i = Some (r_State q, Owed)"
    using q fb b by (simp add: journal_view_def)
  ultimately show ?thesis using spec_step.discharge by simp
qed

lemma view_AcknowledgeOutbox:
  "AcknowledgeOutbox now i s = Inr s' \<Longrightarrow> store_inv s \<Longrightarrow> spec_step (journal_view s) (journal_view s')"
  by (rule view_settle [where f = "\<lambda>o'. o'\<lparr>ob_Acknowledged := 1, ob_AcknowledgedAt := Some now\<rparr>"])
    (auto simp: AcknowledgeOutbox_def Let_def split: if_splits)

lemma view_AbandonOutbox:
  "AbandonOutbox now i reason s = Inr s' \<Longrightarrow> store_inv s \<Longrightarrow> spec_step (journal_view s) (journal_view s')"
  by (rule view_settle [where f = "\<lambda>o'. o'\<lparr>ob_Acknowledged := - 1, ob_AcknowledgedAt := Some now,
        ob_Diagnostic := TrimSpace reason\<rparr>"])
    (auto simp: AbandonOutbox_def Let_def split: if_splits)

subsection \<open>The simulation\<close>

lemma store_step_refines:
  assumes "store_step s s'" and "store_inv s"
  shows "journal_view s' = journal_view s \<or> spec_step (journal_view s) (journal_view s')"
  using assms
proof (induction rule: store_step.induct)
  case transition
  then show ?case by (auto simp: Transition_def intro!: view_commitTransition split: if_splits)
next
  case commit_terminal
  then show ?case by (auto simp: CommitTerminal_def intro!: view_commitTransition split: if_splits)
next
  case no_process
  then show ?case by (auto simp: CommitNoProcessFailure_def intro!: view_commitTransition)
qed (blast dest: view_stutter view_CreateRun view_RequestCancellation view_AcknowledgeOutbox view_AbandonOutbox)+

lemma reachable_refines:
  "reachable s \<Longrightarrow> spec_step\<^sup>*\<^sup>* Map.empty (journal_view s)"
proof (induction rule: rtranclp_induct)
  case base
  have "journal_view emptyStore = Map.empty"
    by (auto simp: journal_view_def emptyStore_def find_run_def)
  then show ?case by simp
next
  case (step y z)
  then show ?case
    using store_step_refines [OF step.hyps(2) reachable_store_inv] by (auto intro: rtranclp.rtrancl_into_rtrancl)
qed

end
