(* ===== verification/Run_Lemmas.thy ===== *)
theory Run_Lemmas
  imports Run_Refinement
begin

section \<open>Reading the journal and driving a run to its end\<close>

text \<open>
  What the queries of the journal return in a store that satisfies the invariant, when
  \<open>CommitTerminal\<close> succeeds, and the steps that bring a live run to a settled terminal state.
\<close>

subsection \<open>Ordered reads are the stored order\<close>

lemma Transitions_history: "store_inv s \<Longrightarrow> Transitions k s = history k (state_transitions s)"
  unfolding Transitions_def history_def
  by (rule order_by_sorted) (auto simp: store_inv_def log_seqs_def intro: gapless_sorted)

lemma ListEvents_from_start:
  assumes "store_inv s"
  shows "ListEvents k 0 s = filter (\<lambda>e. ev_RunID e = k) (events s)"
proof -
  let ?es = "filter (\<lambda>e. ev_RunID e = k) (events s)"
  have g: "gapless 1 (map ev_Seq ?es)"
    using assms by (simp add: store_inv_def log_seqs_def)
  have pos: "0 < ev_Seq e" if e: "e \<in> set ?es" for e
  proof -
    from e obtain i where i: "i < length ?es" "?es ! i = e" by (meson in_set_conv_nth)
    then show ?thesis using gapless_nth [OF g, of i] by simp
  qed
  have "filter (\<lambda>e. ev_RunID e = k \<and> 0 < ev_Seq e) (events s) = ?es"
    by (rule filter_cong) (use pos in auto)
  then show ?thesis
    using gapless_sorted [OF g] by (simp add: ListEvents_def order_by_sorted)
qed

lemma drop_filter_seq:
  assumes "gapless 1 (map f xs)" and "0 \<le> n"
  shows "filter (\<lambda>x. n < f x) xs = drop (nat n) xs"
  using assms
proof (induction xs rule: rev_induct)
  case (snoc x xs)
  then have "gapless 1 (map f xs)" and "f x = 1 + int (length xs)"
    by (auto simp: gapless_snoc)
  with snoc show ?case by auto
qed simp

lemma ListEvents_drop:
  assumes "store_inv s" and "0 \<le> n"
  shows "ListEvents k n s = drop (nat n) (filter (\<lambda>e. ev_RunID e = k) (events s))"
proof -
  let ?es = "filter (\<lambda>e. ev_RunID e = k) (events s)"
  have g: "gapless 1 (map ev_Seq ?es)"
    using assms by (simp add: store_inv_def log_seqs_def)
  have "filter (\<lambda>e. ev_RunID e = k \<and> n < ev_Seq e) (events s) = filter (\<lambda>e. n < ev_Seq e) ?es"
    by (simp add: conj_commute)
  also have "\<dots> = drop (nat n) ?es" by (rule drop_filter_seq [OF g assms(2)])
  finally have "ListEvents k n s = order_by ev_Seq (drop (nat n) ?es)"
    by (simp add: ListEvents_def)
  moreover have "sorted (map ev_Seq (drop (nat n) ?es))"
    using gapless_sorted [OF g] by (metis drop_map sorted_wrt_drop)
  ultimately show ?thesis by (simp add: order_by_sorted)
qed

lemma HighestEventSeq_length:
  "store_inv s \<Longrightarrow> HighestEventSeq k s = int (length (filter (\<lambda>e. ev_RunID e = k) (events s)))"
  using gapless_sql_max [of 1 "event_seqs k s"]
  by (auto simp: HighestEventSeq_def event_seqs_def log_seqs_def store_inv_def)

subsection \<open>Known states\<close>

lemma end_state_known: "chain a ts \<Longrightarrow> \<forall>x. a \<noteq> StateOther x \<Longrightarrow> end_state a ts \<noteq> StateOther y"
proof (induction ts arbitrary: a)
  case (Cons t ts)
  then have "\<forall>x. tr_ToState t \<noteq> StateOther x"
    using CanTransition_known [of a "tr_ToState t"] by (auto simp: edge_ok_def)
  with Cons show ?case by simp
qed simp

lemma known_state:
  assumes "store_inv s" and "find_run k (runs s) = Some r"
  shows "r_State r \<noteq> StateOther x"
  using find_run_linked_ok [OF assms] end_state_known [of StateCreated]
  by (auto simp: linked_ok_def history_ok_def split: list.splits)

subsection \<open>When a terminal commit succeeds\<close>

definition transcript_settled :: "Run \<Rightarrow> bool" where
  "transcript_settled r \<longleftrightarrow> \<not> r_TranscriptRequired r \<or>
     (0 \<le> r_TranscriptFinalSize r \<and> r_TranscriptConsumedOffset r = r_TranscriptFinalSize r
      \<and> r_TranscriptIdentity r \<noteq> no_identity)"

lemma Validate_no_identity: "TranscriptFileIdentity_Validate no_identity \<noteq> None"
  by (simp add: TranscriptFileIdentity_Validate_def no_identity_def)

lemma terminal_transition_error:
  assumes "row_ok r"
  shows "transition_error productionHooks r to \<lparr>tc_terminal = True, tc_noProcess = False, tc_outbox = ob\<rparr> = None \<longleftrightarrow>
    CanTransition (r_State r) to \<and> (to = StateCompleted \<longrightarrow> \<not> r_CancelRequested r) \<and> transcript_settled r"
  using assms Validate_no_identity
  by (auto simp: transition_error_def transcript_settled_def productionHooks_def row_ok_def)

lemma CommitTerminal_succeeds:
  assumes inv: "store_inv s" and r: "find_run k (runs s) = Some r"
  shows "(\<exists>s'. CommitTerminal productionHooks now k to reason ob s = Inr s') \<longleftrightarrow>
    IsTerminal to \<and> CanTransition (r_State r) to \<and> (to = StateCompleted \<longrightarrow> \<not> r_CancelRequested r)
    \<and> transcript_settled r"
proof -
  let ?c = "\<lparr>tc_terminal = True, tc_noProcess = False, tc_outbox = ob\<rparr>"
  have "find_outbox k (finalization_outbox s) = None" if "CanTransition (r_State r) to"
    using that terminal_iff_outbox [OF inv r] cm.terminal_stuck by auto
  then have "(\<exists>s'. CommitTerminal productionHooks now k to reason ob s = Inr s') \<longleftrightarrow>
      IsTerminal to \<and> transition_error productionHooks r to ?c = None"
    using terminal_transition_error [OF find_run_row_ok [OF inv r], of to ob] r
    by (auto simp: CommitTerminal_def commitTransition_def Let_def insert_transition_def update_run_def
        split: option.split)
  then show ?thesis
    using terminal_transition_error [OF find_run_row_ok [OF inv r], of to ob] by blast
qed

subsection \<open>Driving a live run to its end\<close>

text \<open>Any time will do for the steps that exist.\<close>

definition some_time :: stamp where
  "some_time = \<lparr>st_year = 2026, st_month = 1, st_day = 1, st_hour = 0, st_minute = 0, st_second = 0, st_nanos = 0\<rparr>"

text \<open>The columns a finalization looks at, the state apart.\<close>

definition same_transcript :: "Run \<Rightarrow> Run \<Rightarrow> bool" where
  "same_transcript r r' \<longleftrightarrow> r_TranscriptRequired r' = r_TranscriptRequired r
     \<and> r_TranscriptConsumedOffset r' = r_TranscriptConsumedOffset r
     \<and> r_TranscriptFinalSize r' = r_TranscriptFinalSize r \<and> r_TranscriptIdentity r' = r_TranscriptIdentity r"

lemma ensure_identity:
  assumes inv: "store_inv s" and r: "find_run k (runs s) = Some r"
  shows "\<exists>s' r'. store_step\<^sup>*\<^sup>* s s' \<and> find_run k (runs s') = Some r' \<and> r_TranscriptIdentity r' \<noteq> no_identity
    \<and> r_State r' = r_State r \<and> r_TranscriptConsumedOffset r' = r_TranscriptConsumedOffset r
    \<and> r_TranscriptFinalSize r' = r_TranscriptFinalSize r"
proof (cases "r_TranscriptIdentity r = no_identity")
  case True
  let ?i = "\<lparr>tf_Device = 1, tf_Inode = 1\<rparr>"
  let ?s = "update_run k (\<lambda>r. r\<lparr>r_TranscriptIdentity := ?i, r_UpdatedAt := some_time\<rparr>) s"
  have "SetTranscriptIdentity some_time k ?i s = Inr ?s"
    using r True by (simp add: SetTranscriptIdentity_def TranscriptFileIdentity_Validate_def no_identity_def)
  then have "store_step s ?s" by (rule store_step.set_identity)
  moreover have "find_run k (runs ?s) = Some (r\<lparr>r_TranscriptIdentity := ?i, r_UpdatedAt := some_time\<rparr>)"
    using r find_run_ID [OF r] by (simp add: update_run_def find_run_update_where [OF inv])
  ultimately show ?thesis
    by (intro exI [of _ ?s] exI [of _ "r\<lparr>r_TranscriptIdentity := ?i, r_UpdatedAt := some_time\<rparr>"])
      (simp add: no_identity_def)
qed (use r in blast)

lemma ensure_sealed:
  assumes inv: "store_inv s" and r: "find_run k (runs s) = Some r"
    and le: "0 \<le> r_TranscriptFinalSize r \<Longrightarrow> r_TranscriptConsumedOffset r \<le> r_TranscriptFinalSize r"
  shows "\<exists>s' r'. store_step\<^sup>*\<^sup>* s s' \<and> find_run k (runs s') = Some r' \<and> 0 \<le> r_TranscriptFinalSize r'
    \<and> r_TranscriptConsumedOffset r' = r_TranscriptFinalSize r' \<and> r_State r' = r_State r
    \<and> r_TranscriptIdentity r' = r_TranscriptIdentity r"
proof (cases "r_TranscriptFinalSize r < 0")
  case True
  let ?n = "r_TranscriptConsumedOffset r"
  let ?f = "\<lambda>r. r\<lparr>r_TranscriptFinalSize := ?n, r_UpdatedAt := some_time\<rparr>"
  have n: "0 \<le> ?n" using find_run_row_ok [OF inv r] by (simp add: row_ok_def)
  have "SealTranscript some_time k ?n s = Inr (update_run k ?f s)"
    using r True n by (simp add: SealTranscript_def)
  then have "store_step s (update_run k ?f s)" by (rule store_step.seal_transcript)
  moreover have "find_run k (runs (update_run k ?f s)) = Some (?f r)"
    using r find_run_ID [OF r] by (simp add: update_run_def find_run_update_where [OF inv])
  ultimately show ?thesis
    using n by (intro exI [of _ "update_run k ?f s"] exI [of _ "?f r"]) simp
next
  case False
  let ?n = "r_TranscriptFinalSize r"
  let ?p = "\<lambda>r. r_ID r = k \<and> (r_TranscriptFinalSize r < 0 \<or> ?n \<le> r_TranscriptFinalSize r)"
  let ?f = "\<lambda>r. r\<lparr>r_TranscriptConsumedOffset := max (r_TranscriptConsumedOffset r) ?n, r_UpdatedAt := some_time\<rparr>"
  let ?s = "s\<lparr>runs := update_where ?p ?f (runs s)\<rparr>"
  have "rows_affected ?p (runs s) \<noteq> 0"
    using find_run_in [OF inv r] by (auto simp: rows_affected_zero_iff)
  then have "AdvanceTranscriptConsumed some_time k ?n s = Inr ?s"
    using False by (simp add: AdvanceTranscriptConsumed_def Let_def)
  then have "store_step s ?s" by (rule store_step.advance_consumed)
  moreover have "find_run k (runs ?s) = Some (?f r)"
    using r find_run_ID [OF r] by (simp add: find_run_update_where [OF inv])
  ultimately show ?thesis
    using le False by (intro exI [of _ ?s] exI [of _ "?f r"]) (simp add: max_def)
qed

lemma ensure_cancellable:
  assumes inv: "store_inv s" and r: "find_run k (runs s) = Some r" and live: "\<not> IsTerminal (r_State r)"
  shows "\<exists>s' r'. store_step\<^sup>*\<^sup>* s s' \<and> find_run k (runs s') = Some r' \<and> same_transcript r r'
    \<and> CanTransition (r_State r') StateCancelled"
proof (cases "CanTransition (r_State r) StateCancelled")
  case True
  then show ?thesis using r by (auto simp: same_transcript_def)
next
  case False
  then have c: "r_State r = StateCreated"
    using live known_state [OF inv r] by (cases "r_State r") (auto simp: CanTransition_iff)
  let ?c = "\<lparr>tc_terminal = False, tc_noProcess = False, tc_outbox = zeroOutbox\<rparr>"
  have "\<exists>s'. Transition productionHooks some_time k StateCleanupRequired [] s = Inr s'"
    using r c by (simp add: Transition_def commitTransition_def transition_error_def CanTransition_iff Let_def)
  then obtain s' where s': "Transition productionHooks some_time k StateCleanupRequired [] s = Inr s'" by blast
  then have "runs s' = update_where (\<lambda>r. r_ID r = k) (transition_run some_time StateCleanupRequired ?c) (runs s)"
    by (auto simp: Transition_def elim: commitTransition_store)
  then have "find_run k (runs s') = Some (transition_run some_time StateCleanupRequired ?c r)"
    using r find_run_ID [OF r] transition_run_fields by (simp add: find_run_update_where [OF inv])
  moreover have "store_step s s'" using s' by (rule store_step.transition)
  ultimately show ?thesis
    by (intro exI [of _ s'] exI [of _ "transition_run some_time StateCleanupRequired ?c r"])
      (simp add: transition_run_def same_transcript_def CanTransition_iff)
qed

lemma finish_cancelled:
  assumes inv: "store_inv s" and r: "find_run k (runs s) = Some r"
    and ok: "CanTransition (r_State r) StateCancelled" "transcript_settled r"
  shows "\<exists>s'. store_step\<^sup>*\<^sup>* s s' \<and> journal_view s' k = Some (StateCancelled, Discharged)"
proof -
  from ok obtain s1 where s1: "CommitTerminal productionHooks some_time k StateCancelled [] zeroOutbox s = Inr s1"
    using CommitTerminal_succeeds [OF inv r, of some_time StateCancelled "[]" zeroOutbox] by auto
  let ?c = "\<lparr>tc_terminal = True, tc_noProcess = False, tc_outbox = zeroOutbox\<rparr>"
  have step1: "store_step s s1" using s1 by (rule store_step.commit_terminal)
  then have inv1: "store_inv s1" using inv store_step_inv by blast
  from s1 have runs1: "runs s1 = update_where (\<lambda>r. r_ID r = k) (transition_run some_time StateCancelled ?c) (runs s)"
    and out1: "finalization_outbox s1 = finalization_outbox s @ [outbox_row some_time k StateCancelled ?c]"
    by (auto simp: CommitTerminal_def elim: commitTransition_store)
  let ?p = "\<lambda>o'. ob_RunID o' = k \<and> ob_Acknowledged o' = 0"
  let ?f = "\<lambda>o'. o'\<lparr>ob_Acknowledged := 1, ob_AcknowledgedAt := Some some_time\<rparr>"
  let ?s2 = "s1\<lparr>finalization_outbox := update_where ?p ?f (finalization_outbox s1)\<rparr>"
  have "rows_affected ?p (finalization_outbox s1) \<noteq> 0"
    unfolding rows_affected_zero_iff by (simp add: out1 outbox_row_def)
  then have "AcknowledgeOutbox some_time k s1 = Inr ?s2"
    by (simp add: AcknowledgeOutbox_def Let_def)
  then have step2: "store_step s1 ?s2" by (rule store_step.acknowledge)
  have f1: "find_outbox k (finalization_outbox s1) = Some (outbox_row some_time k StateCancelled ?c)"
    using find_outbox_Some_iff [OF inv1] by (simp add: out1 outbox_row_def)
  have "find_outbox k (finalization_outbox ?s2) = Some (?f (outbox_row some_time k StateCancelled ?c))"
    using f1 by (simp add: find_outbox_update_where [OF inv1] outbox_row_def)
  moreover have "find_run k (runs ?s2) = Some (transition_run some_time StateCancelled ?c r)"
    using r find_run_ID [OF r] transition_run_fields by (simp add: runs1 find_run_update_where [OF inv])
  ultimately have "journal_view ?s2 k = Some (StateCancelled, Discharged)"
    by (simp add: journal_view_def transition_run_def)
  moreover have "store_step\<^sup>*\<^sup>* s ?s2" using step1 step2 by simp
  ultimately show ?thesis by blast
qed

lemma live_run_can_settle:
  assumes inv: "store_inv s" and r: "find_run k (runs s) = Some r" and live: "\<not> IsTerminal (r_State r)"
    and le: "0 \<le> r_TranscriptFinalSize r \<Longrightarrow> r_TranscriptConsumedOffset r \<le> r_TranscriptFinalSize r"
  shows "\<exists>s'. store_step\<^sup>*\<^sup>* s s' \<and> journal_view s' k = Some (StateCancelled, Discharged)"
proof -
  obtain s1 r1 where 1: "store_step\<^sup>*\<^sup>* s s1" "find_run k (runs s1) = Some r1" "r_TranscriptIdentity r1 \<noteq> no_identity"
    "r_State r1 = r_State r" "r_TranscriptConsumedOffset r1 = r_TranscriptConsumedOffset r"
    "r_TranscriptFinalSize r1 = r_TranscriptFinalSize r"
    using ensure_identity [OF inv r] by blast
  have inv1: "store_inv s1" using 1 inv store_steps_inv by blast
  obtain s2 r2 where 2: "store_step\<^sup>*\<^sup>* s1 s2" "find_run k (runs s2) = Some r2" "0 \<le> r_TranscriptFinalSize r2"
    "r_TranscriptConsumedOffset r2 = r_TranscriptFinalSize r2" "r_State r2 = r_State r1"
    "r_TranscriptIdentity r2 = r_TranscriptIdentity r1"
    using ensure_sealed [OF inv1 1(2)] le 1(5,6) by auto
  have inv2: "store_inv s2" using 2 inv1 store_steps_inv by blast
  obtain s3 r3 where 3: "store_step\<^sup>*\<^sup>* s2 s3" "find_run k (runs s3) = Some r3" "same_transcript r2 r3"
    "CanTransition (r_State r3) StateCancelled"
    using ensure_cancellable [OF inv2 2(2)] live 1(4) 2(5) by auto
  have inv3: "store_inv s3" using 3 inv2 store_steps_inv by blast
  have "transcript_settled r3"
    using 3(3) 2(3,4,6) 1(3) by (simp add: same_transcript_def transcript_settled_def)
  then obtain s4 where 4: "store_step\<^sup>*\<^sup>* s3 s4" "journal_view s4 k = Some (StateCancelled, Discharged)"
    using finish_cancelled [OF inv3 3(2,4)] by blast
  have "store_step\<^sup>*\<^sup>* s s4" using 1(1) 2(1) 3(1) 4(1) by (meson rtranclp_trans)
  with 4(2) show ?thesis by blast
qed

end
