(* ===== verification/Run_Demo.thy ===== *)
theory Run_Demo
  imports Run_Lemmas
begin

section \<open>A concrete history of the run journal\<close>

text \<open>
  One run with a transcript, from an empty database through launch, output, sealing, completion and
  acknowledgement, and the branch on which it is cancelled.  Each store is the value the operation
  returns on the store before it.  The properties of the journal are applied to these stores.
\<close>

definition demo_spec :: RunSpec where
  "demo_spec = \<lparr>sp_WorkerPath = ''/bin/w'', sp_WorkerArgs = [], sp_WorkerEnv = [], sp_TranscriptPath = ''/t'',
     sp_SocketPath = ''/s'', sp_Token = ''k'', sp_IdentityPath = ''/i'', sp_TranscriptRequired = True\<rparr>"

definition demo_run :: Run where
  "demo_run = new_run some_time ''r'' ''p'' ''w'' demo_spec"

lemma demo_run_fields [simp]:
  "r_ID demo_run = ''r''" "r_State demo_run = StateCreated" "r_CancelRequested demo_run = False"
  "r_TranscriptIdentity demo_run = no_identity" "r_TranscriptRequired demo_run = True"
  "r_TranscriptFinalSize demo_run = - 1" "r_TranscriptConsumedOffset demo_run = 0" "r_CommittedOffset demo_run = 0"
  "r_UpdatedAt demo_run = some_time" "r_CreatedAt demo_run = some_time" "r_SupervisorPID demo_run = 0"
  by (simp_all add: demo_run_def new_run_def demo_spec_def)

definition demo_record :: "int \<Rightarrow> State \<Rightarrow> State \<Rightarrow> string \<Rightarrow> TransitionRecord" where
  "demo_record n a b reason = \<lparr>tr_RunID = ''r'', tr_Seq = n, tr_FromState = a, tr_ToState = b,
     tr_Reason = reason, tr_WrittenAt = some_time\<rparr>"

definition demo_event :: Event where
  "demo_event = \<lparr>ev_RunID = ''r'', ev_Seq = 1, ev_Type = ''output'', ev_Payload = ''{}'', ev_TranscriptOffset = 5,
     ev_WrittenAt = some_time\<rparr>"

definition demo_outbox :: OutboxRow where
  "demo_outbox = outbox_row some_time ''r'' StateCompleted
     \<lparr>tc_terminal = True, tc_noProcess = False, tc_outbox = zeroOutbox\<rparr>"

definition demo_project :: Store where
  "demo_project = emptyStore\<lparr>
     projects := [\<lparr>p_ID = ''p'', p_Name = ''P'', p_Root = ''/'', p_CreatedAt = some_time\<rparr>]\<rparr>"

definition demo_workstream :: Store where
  "demo_workstream = demo_project\<lparr>
     workstreams := [\<lparr>w_ID = ''w'', w_ProjectID = ''p'', w_Name = ''W'', w_CreatedAt = some_time\<rparr>]\<rparr>"

definition demo_created :: Store where
  "demo_created = demo_workstream\<lparr>runs := [demo_run],
     state_transitions := [demo_record 0 (StateOther []) StateCreated ''created'']\<rparr>"

definition demo_launched :: Store where
  "demo_launched = demo_created\<lparr>runs := [demo_run\<lparr>r_State := StateRunning\<rparr>],
     state_transitions := [demo_record 0 (StateOther []) StateCreated ''created'',
       demo_record 1 StateCreated StateRunning ''launched'']\<rparr>"

definition demo_running :: Store where
  "demo_running = demo_launched\<lparr>runs :=
     [demo_run\<lparr>r_State := StateRunning, r_TranscriptIdentity := \<lparr>tf_Device = 1, tf_Inode = 7\<rparr>\<rparr>]\<rparr>"

definition demo_output :: Store where
  "demo_output = demo_running\<lparr>events := [demo_event], runs :=
     [demo_run\<lparr>r_State := StateRunning, r_TranscriptIdentity := \<lparr>tf_Device = 1, tf_Inode = 7\<rparr>,
        r_CommittedOffset := 5, r_TranscriptConsumedOffset := 5\<rparr>]\<rparr>"

definition demo_sealed :: Store where
  "demo_sealed = demo_output\<lparr>runs :=
     [demo_run\<lparr>r_State := StateRunning, r_TranscriptIdentity := \<lparr>tf_Device = 1, tf_Inode = 7\<rparr>,
        r_CommittedOffset := 5, r_TranscriptConsumedOffset := 5, r_TranscriptFinalSize := 5\<rparr>]\<rparr>"

definition demo_completed :: Store where
  "demo_completed = demo_sealed\<lparr>runs :=
     [demo_run\<lparr>r_State := StateCompleted, r_TranscriptIdentity := \<lparr>tf_Device = 1, tf_Inode = 7\<rparr>,
        r_CommittedOffset := 5, r_TranscriptConsumedOffset := 5, r_TranscriptFinalSize := 5\<rparr>],
     state_transitions := [demo_record 0 (StateOther []) StateCreated ''created'',
       demo_record 1 StateCreated StateRunning ''launched'', demo_record 2 StateRunning StateCompleted ''exit 0''],
     finalization_outbox := [demo_outbox]\<rparr>"

definition demo_settled :: Store where
  "demo_settled = demo_completed\<lparr>finalization_outbox :=
     [demo_outbox\<lparr>ob_Acknowledged := 1, ob_AcknowledgedAt := Some some_time\<rparr>]\<rparr>"

definition demo_cancelling :: Store where
  "demo_cancelling = demo_running\<lparr>runs :=
     [demo_run\<lparr>r_State := StateCancelling, r_TranscriptIdentity := \<lparr>tf_Device = 1, tf_Inode = 7\<rparr>,
        r_CancelRequested := True\<rparr>],
     state_transitions := [demo_record 0 (StateOther []) StateCreated ''created'',
       demo_record 1 StateCreated StateRunning ''launched'',
       demo_record 2 StateRunning StateCancelling ''cancellation requested'']\<rparr>"

lemmas demo_stores = emptyStore_def demo_project_def demo_workstream_def demo_created_def demo_launched_def
  demo_running_def demo_output_def demo_sealed_def demo_completed_def demo_settled_def demo_cancelling_def
  demo_record_def demo_event_def demo_outbox_def

lemmas demo_ops = CreateProject_def CreateWorkstream_def CreateRun_def insert_transition_def
  update_run_def SetTranscriptIdentity_def TranscriptFileIdentity_Validate_def no_identity_def Transition_def
  CommitTerminal_def commitTransition_def transition_error_def transition_run_def CanTransition_iff
  outbox_row_def zeroOutbox_def productionHooks_def AppendEvent_def SealTranscript_def AcknowledgeOutbox_def
  RequestCancellation_def transition_seqs_def event_seqs_def log_seqs_def next_seq_def sql_max_def
  rows_affected_def update_where_def Let_def find_run_def find_outbox_def find_project_def find_workstream_def

lemmas demo_defs = demo_stores demo_ops

lemma demo_op_project: "CreateProject some_time ''p'' ''P'' ''/'' emptyStore = Inr demo_project"
  by (simp add: demo_defs)

lemma demo_op_workstream: "CreateWorkstream some_time ''w'' ''p'' ''W'' demo_project = Inr demo_workstream"
  by (simp add: demo_defs)

lemma demo_op_created: "CreateRun some_time ''r'' ''p'' ''w'' demo_spec demo_workstream = Inr demo_created"
  by (simp add: demo_defs demo_run_def demo_spec_def new_run_def)

lemma demo_op_launched:
  "Transition productionHooks some_time ''r'' StateRunning ''launched'' demo_created = Inr demo_launched"
  by (simp add: demo_defs)

lemma demo_op_running:
  "SetTranscriptIdentity some_time ''r'' \<lparr>tf_Device = 1, tf_Inode = 7\<rparr> demo_launched = Inr demo_running"
  by (simp add: demo_defs)

lemma demo_op_output:
  "AppendEvent some_time ''r'' ''output'' ''{}'' 5 demo_running = Inr (demo_event, demo_output)"
  by (simp add: demo_defs)

lemma demo_op_sealed: "SealTranscript some_time ''r'' 5 demo_output = Inr demo_sealed"
  by (simp add: demo_defs)

lemma demo_op_completed:
  "CommitTerminal productionHooks some_time ''r'' StateCompleted ''exit 0'' zeroOutbox demo_sealed = Inr demo_completed"
  by (simp add: demo_defs)

lemma demo_op_settled: "AcknowledgeOutbox some_time ''r'' demo_completed = Inr demo_settled"
  by (simp add: demo_defs)

lemma demo_op_cancelling:
  "RequestCancellation some_time ''r'' demo_running = Inr (StateCancelling, demo_cancelling)"
  by (simp add: demo_defs)

lemma demo_reachable_running: "reachable demo_running"
  using demo_op_project demo_op_workstream demo_op_created demo_op_launched demo_op_running
  by (meson rtranclp.intros store_step.intros)

lemma demo_steps_completed: "store_step\<^sup>*\<^sup>* demo_running demo_completed"
  using demo_op_output demo_op_sealed demo_op_completed by (meson rtranclp.intros store_step.intros)

lemma demo_steps_settled: "store_step\<^sup>*\<^sup>* demo_completed demo_settled"
  using demo_op_settled by (meson rtranclp.intros store_step.intros)

lemma demo_steps_cancelling: "store_step\<^sup>*\<^sup>* demo_running demo_cancelling"
  using demo_op_cancelling by (meson rtranclp.intros store_step.intros)

lemma demo_steps_sealed: "store_step\<^sup>*\<^sup>* demo_running demo_sealed"
  using demo_op_output demo_op_sealed by (meson rtranclp.intros store_step.intros)

lemma demo_reachable_sealed: "reachable demo_sealed"
  using demo_reachable_running demo_steps_sealed by (rule rtranclp_trans)

lemma demo_reachable_completed: "reachable demo_completed"
  using demo_reachable_running demo_steps_completed by (rule rtranclp_trans)

lemma demo_reachable_settled: "reachable demo_settled"
  using demo_reachable_completed demo_steps_settled by (rule rtranclp_trans)

lemma demo_reachable_cancelling: "reachable demo_cancelling"
  using demo_reachable_running demo_steps_cancelling by (rule rtranclp_trans)

lemmas demo_reachable = demo_reachable_running demo_reachable_sealed demo_reachable_completed
  demo_reachable_settled demo_reachable_cancelling

end
