(* ===== verification/Run_Properties.thy ===== *)
theory Run_Properties
  imports Run_Demo
begin

section \<open>Properties of the run journal\<close>

text \<open>
  The properties of \<^verbatim>\<open>src/internal/store\<close> over every store the operations can produce from an
  empty database.  \<open>reachable s\<close> says that \<open>s\<close> is such a store; the build is the production
  one (both mutation hooks off) except where a hook is named.
\<close>

text \<open>C1: every reachable store satisfies the journal invariant: run and outbox keys are unique,
  each run's transition and event numbers have no gap, every log and outbox row belongs to a run,
  the columns of each run are consistent, each history is a legal path to the run's state, a run is
  terminal exactly when it has an outbox row, which then carries its state, and each outbox row is
  pending, acknowledged or abandoned with matching columns.\<close>

theorem journal_invariant:
  assumes "reachable s"
  shows "store_inv s"
  using assms by (rule reachable_store_inv)

theorem journal_invariant_witness: "reachable demo_settled \<and> store_inv demo_settled \<and> runs demo_settled \<noteq> []"
  using journal_invariant [OF demo_reachable_settled] demo_reachable_settled by (simp add: demo_defs)

text \<open>C2: the journal refines the machine of cleanup obligations: each operation on a reachable
  store is, seen through \<open>journal_view\<close>, a step of that machine or no step.\<close>

theorem journal_refines_obligations:
  assumes "reachable s" and "store_step s s'"
  shows "journal_view s' = journal_view s \<or> spec_step (journal_view s) (journal_view s')"
  using store_step_refines [OF assms(2) reachable_store_inv [OF assms(1)]] .

theorem journal_refines_obligations_witness:
  "spec_step (journal_view demo_sealed) (journal_view demo_completed)
   \<and> journal_view demo_sealed ''r'' = Some (StateRunning, NoObligation)
   \<and> journal_view demo_completed ''r'' = Some (StateCompleted, Owed)"
proof -
  have a: "journal_view demo_sealed ''r'' = Some (StateRunning, NoObligation)"
    and b: "journal_view demo_completed ''r'' = Some (StateCompleted, Owed)"
    by (simp_all add: journal_view_def demo_defs)
  then have "journal_view demo_completed \<noteq> journal_view demo_sealed" by auto
  then show ?thesis
    using a b journal_refines_obligations [OF demo_reachable_sealed
        store_step.commit_terminal [OF demo_op_completed]] by blast
qed

text \<open>C14: a run of a reachable store is terminal exactly when the outbox holds exactly one row for
  it, and that row records the run's state.\<close>

theorem terminal_has_one_outbox_row:
  assumes "reachable s" and "r \<in> set (runs s)"
  shows "IsTerminal (r_State r) \<longleftrightarrow> (\<exists>o'. filter (\<lambda>o'. ob_RunID o' = r_ID r) (finalization_outbox s) = [o']
    \<and> ob_TerminalState o' = r_State r)"
proof
  have inv: "store_inv s" using assms(1) by (rule reachable_store_inv)
  then have r: "find_run (r_ID r) (runs s) = Some r"
    using assms(2) runs_tab.get_Some [of "runs s" "r_ID r" r] by (simp add: store_inv_def)
  have u: "unique_key ob_RunID (finalization_outbox s)" using inv by (simp add: store_inv_def)
  {
    assume "IsTerminal (r_State r)"
    then obtain o' where o': "find_outbox (r_ID r) (finalization_outbox s) = Some o'"
      using terminal_iff_outbox [OF inv r] by blast
    then have "length (filter (\<lambda>o'. ob_RunID o' = r_ID r) (finalization_outbox s)) = 1"
      using outbox_tab.rows_affected_key [OF u, of "r_ID r" "\<lambda>_. True"] by (simp add: rows_affected_def)
    then obtain x where x: "filter (\<lambda>o'. ob_RunID o' = r_ID r) (finalization_outbox s) = [x]"
      by (auto simp: length_Suc_conv)
    then have "x \<in> set (finalization_outbox s) \<and> ob_RunID x = r_ID r"
      by (auto simp: filter_eq_Cons_iff)
    then show "\<exists>o'. filter (\<lambda>o'. ob_RunID o' = r_ID r) (finalization_outbox s) = [o']
        \<and> ob_TerminalState o' = r_State r"
      using x find_run_linked_ok [OF inv r] by (auto simp: linked_ok_def)
  next
    assume "\<exists>o'. filter (\<lambda>o'. ob_RunID o' = r_ID r) (finalization_outbox s) = [o']
      \<and> ob_TerminalState o' = r_State r"
    then have "r_ID r \<in> ob_RunID ` set (finalization_outbox s)"
      by (force simp: filter_eq_Cons_iff)
    then show "IsTerminal (r_State r)"
      using find_run_linked_ok [OF inv r] by (simp add: linked_ok_def)
  }
qed

theorem terminal_has_one_outbox_row_witness:
  "\<exists>r o'. runs demo_completed = [r] \<and> IsTerminal (r_State r)
     \<and> filter (\<lambda>o'. ob_RunID o' = r_ID r) (finalization_outbox demo_completed) = [o']
     \<and> ob_TerminalState o' = StateCompleted"
  using terminal_has_one_outbox_row [OF demo_reachable_completed, of "hd (runs demo_completed)"]
  by (simp add: demo_defs)

text \<open>C15: a terminal run stays in its state under every further sequence of operations, and its row
  is never removed.\<close>

theorem terminal_is_forever:
  assumes "reachable s" and "store_step\<^sup>*\<^sup>* s s'" and "GetRun k s = Inr r" and "IsTerminal (r_State r)"
  shows "\<exists>r'. GetRun k s' = Inr r' \<and> r_State r' = r_State r"
proof -
  have "find_run k (runs s) = Some r" using assms(3) by (simp add: GetRun_def split: option.splits)
  then obtain r' where r': "find_run k (runs s') = Some r'" "evolves\<^sup>*\<^sup>* r r'"
    using store_steps_evolve [OF assms(2) reachable_store_inv [OF assms(1)]] by blast
  then show ?thesis using evolves_star_terminal [OF r'(2) assms(4)] by (simp add: GetRun_def)
qed

theorem terminal_is_forever_witness:
  "\<exists>r'. GetRun ''r'' demo_settled = Inr r' \<and> r_State r' = StateCompleted"
  using terminal_is_forever [OF demo_reachable_completed demo_steps_settled, of "''r''"]
  by (simp add: GetRun_def demo_defs)

text \<open>C16: \<open>ListActiveRuns\<close> returns exactly the runs recovery still owes work: a run is missing from
  it only when it is terminal and its outbox row is acknowledged or abandoned.\<close>

theorem recovery_scan_complete:
  assumes "reachable s" and "r \<in> set (runs s)"
  shows "r \<notin> set (ListActiveRuns s) \<longleftrightarrow>
    IsTerminal (r_State r) \<and> (\<exists>o'. GetOutbox (r_ID r) s = Inr o' \<and> ob_Acknowledged o' \<noteq> 0)"
proof -
  have inv: "store_inv s" using assms(1) by (rule reachable_store_inv)
  then have r: "find_run (r_ID r) (runs s) = Some r"
    using assms(2) runs_tab.get_Some [of "runs s" "r_ID r" r] by (simp add: store_inv_def)
  show ?thesis
  proof (cases "find_outbox (r_ID r) (finalization_outbox s)")
    case None
    then show ?thesis
      using terminal_iff_outbox [OF inv r] assms(2)
      by (simp add: ListActiveRuns_def GetOutbox_def IsTerminal_iff)
  next
    case (Some a)
    then have a: "o' \<in> set (finalization_outbox s) \<and> ob_RunID o' = r_ID r \<longleftrightarrow> o' = a" for o'
      using find_outbox_Some_iff [OF inv, of "r_ID r" o'] Some by auto
    have "list_ex (\<lambda>o'. ob_RunID o' = r_ID r \<and> ob_Acknowledged o' = 0) (finalization_outbox s)
        \<longleftrightarrow> ob_Acknowledged a = 0"
      unfolding list_ex_iff using a by metis
    moreover have "IsTerminal (r_State r)" using terminal_iff_outbox [OF inv r] Some by simp
    ultimately show ?thesis using Some assms(2)
      by (auto simp: ListActiveRuns_def GetOutbox_def IsTerminal_iff)
  qed
qed

theorem recovery_scan_complete_witness:
  "hd (runs demo_completed) \<in> set (ListActiveRuns demo_completed)
   \<and> hd (runs demo_settled) \<notin> set (ListActiveRuns demo_settled)"
proof
  show "hd (runs demo_completed) \<in> set (ListActiveRuns demo_completed)"
    using recovery_scan_complete [OF demo_reachable_completed, of "hd (runs demo_completed)"]
    by (simp add: GetOutbox_def demo_defs)
  show "hd (runs demo_settled) \<notin> set (ListActiveRuns demo_settled)"
    using recovery_scan_complete [OF demo_reachable_settled, of "hd (runs demo_settled)"]
    by (simp add: GetOutbox_def demo_defs)
qed

text \<open>C17: \<open>CommitTerminal\<close> succeeds on a run of a reachable store exactly when the target is
  terminal and allowed from the run's state, a completion was not preceded by a cancellation
  request, and a required transcript is sealed, fully consumed and has its file identity; in
  particular the outbox insert never fails.\<close>

theorem CommitTerminal_succeeds_iff:
  assumes "reachable s" and "GetRun k s = Inr r"
  shows "(\<exists>s'. CommitTerminal productionHooks now k to reason ob s = Inr s') \<longleftrightarrow>
    IsTerminal to \<and> CanTransition (r_State r) to \<and> \<not> (to = StateCompleted \<and> r_CancelRequested r)
    \<and> (\<not> r_TranscriptRequired r \<or>
       (0 \<le> r_TranscriptFinalSize r \<and> r_TranscriptConsumedOffset r = r_TranscriptFinalSize r
        \<and> r_TranscriptIdentity r \<noteq> no_identity))"
proof -
  have "find_run k (runs s) = Some r" using assms(2) by (simp add: GetRun_def split: option.splits)
  then show ?thesis
    using CommitTerminal_succeeds [OF reachable_store_inv [OF assms(1)]] by (auto simp: transcript_settled_def)
qed

theorem CommitTerminal_succeeds_iff_witness:
  "(\<exists>s'. CommitTerminal productionHooks some_time ''r'' StateCompleted [] zeroOutbox demo_sealed = Inr s')
   \<and> \<not> (\<exists>s'. CommitTerminal productionHooks some_time ''r'' StateCompleted [] zeroOutbox demo_running = Inr s')"
proof
  show "\<exists>s'. CommitTerminal productionHooks some_time ''r'' StateCompleted [] zeroOutbox demo_sealed = Inr s'"
  proof (subst CommitTerminal_succeeds_iff [OF demo_reachable_sealed, of "''r''" "hd (runs demo_sealed)"])
  qed (simp_all add: GetRun_def demo_defs)
  show "\<not> (\<exists>s'. CommitTerminal productionHooks some_time ''r'' StateCompleted [] zeroOutbox demo_running = Inr s')"
  proof (subst CommitTerminal_succeeds_iff [OF demo_reachable_running, of "''r''" "hd (runs demo_running)"])
  qed (simp_all add: GetRun_def demo_defs)
qed

text \<open>A successful \<open>CommitTerminal\<close> changes, in one transaction, exactly the run's state, its
  history by one record and the outbox by one pending row with the supervisor identity it was given,
  which \<open>ListPendingOutbox\<close> then returns; no other run is touched.\<close>

theorem CommitTerminal_atomic:
  assumes "reachable s" and "CommitTerminal productionHooks now k to reason ob s = Inr s'"
  shows "\<exists>r o'. GetRun k s = Inr r \<and> GetRun k s' = Inr (r\<lparr>r_State := to, r_UpdatedAt := now\<rparr>)
    \<and> GetOutbox k s' = Inr o' \<and> o' \<in> set (ListPendingOutbox s') \<and> ob_TerminalState o' = to
    \<and> ob_SupervisorPID o' = ob_SupervisorPID ob \<and> ob_SupervisorPGID o' = ob_SupervisorPGID ob
    \<and> ob_SocketPath o' = ob_SocketPath ob \<and> ob_Token o' = ob_Token ob
    \<and> Transitions k s' = Transitions k s @ [\<lparr>tr_RunID = k, tr_Seq = int (length (Transitions k s)),
        tr_FromState = r_State r, tr_ToState = to, tr_Reason = reason, tr_WrittenAt = now\<rparr>]
    \<and> events s' = events s
    \<and> (\<forall>j. j \<noteq> k \<longrightarrow> GetRun j s' = GetRun j s \<and> GetOutbox j s' = GetOutbox j s
        \<and> Transitions j s' = Transitions j s)"
proof -
  let ?c = "\<lparr>tc_terminal = True, tc_noProcess = False, tc_outbox = ob\<rparr>"
  have inv: "store_inv s" using assms(1) by (rule reachable_store_inv)
  have inv': "store_inv s'" using store_inv_CommitTerminal [OF assms(2) inv] .
  have "commitTransition productionHooks now k to reason ?c s = Inr s'"
    using assms(2) by (simp add: CommitTerminal_def split: if_splits)
  then obtain r t where r: "find_run k (runs s) = Some r"
    and t: "tr_RunID t = k" "tr_Seq t = next_seq (transition_seqs k s)" "tr_FromState t = r_State r"
      "tr_ToState t = to" "tr_Reason t = reason" "tr_WrittenAt t = now"
    and s': "s' = s\<lparr>runs := update_where (\<lambda>r. r_ID r = k) (transition_run now to ?c) (runs s),
      state_transitions := state_transitions s @ [t],
      finalization_outbox := finalization_outbox s @ [outbox_row now k to ?c]\<rparr>"
    by (rule commitTransition_store) auto
  have trs: "state_transitions s' = state_transitions s @ [t]" by (simp add: s')
  have hist: "history k (state_transitions s) \<noteq> []"
    using find_run_linked_ok [OF inv r] find_run_ID [OF r] history_ok_nonempty by (auto simp: linked_ok_def)
  then have "tr_Seq t = int (length (history k (state_transitions s)))"
    using t(2) inv gapless_sql_max [of 0 "transition_seqs k s"]
    by (simp add: next_seq_def transition_seqs_def log_seqs_def history_def store_inv_def)
  then have "t = \<lparr>tr_RunID = k, tr_Seq = int (length (Transitions k s)), tr_FromState = r_State r,
      tr_ToState = to, tr_Reason = reason, tr_WrittenAt = now\<rparr>"
    using t by (simp add: Transitions_history [OF inv])
  then have "Transitions k s' = Transitions k s @ [\<lparr>tr_RunID = k, tr_Seq = int (length (Transitions k s)),
      tr_FromState = r_State r, tr_ToState = to, tr_Reason = reason, tr_WrittenAt = now\<rparr>]"
    using t(1) by (simp add: Transitions_history [OF inv] Transitions_history [OF inv'] trs history_snoc)
  moreover have "Transitions j s' = Transitions j s" if "j \<noteq> k" for j
    using t(1) that by (simp add: Transitions_history [OF inv] Transitions_history [OF inv'] trs history_snoc)
  moreover have "find_run j (runs s') = (if j = k then Some (r\<lparr>r_State := to, r_UpdatedAt := now\<rparr>)
      else find_run j (runs s))" for j
    using r find_run_ID transition_run_fields
    by (cases "find_run j (runs s)") (auto simp: s' find_run_update_where [OF inv] transition_run_def)
  moreover have new: "find_outbox k (finalization_outbox s') = Some (outbox_row now k to ?c)"
    using find_outbox_Some_iff [OF inv'] by (simp add: s' outbox_row_def)
  moreover have "find_outbox j (finalization_outbox s') = find_outbox j (finalization_outbox s)" if "j \<noteq> k" for j
    using that by (simp add: s' find_outbox_snoc outbox_row_def split: option.split)
  moreover have "outbox_row now k to ?c \<in> set (ListPendingOutbox s')"
    by (simp add: ListPendingOutbox_def s' outbox_row_def)
  ultimately show ?thesis
    using r by (intro exI [of _ r] exI [of _ "outbox_row now k to ?c"])
      (simp add: GetRun_def GetOutbox_def outbox_row_def s')
qed

theorem CommitTerminal_atomic_witness:
  "\<exists>o'. GetOutbox ''r'' demo_completed = Inr o' \<and> o' \<in> set (ListPendingOutbox demo_completed)
     \<and> length (Transitions ''r'' demo_completed) = Suc (length (Transitions ''r'' demo_sealed))"
  using CommitTerminal_atomic [OF demo_reachable_sealed demo_op_completed] by force

text \<open>C18: the recorded history of a run is numbered 0, 1, 2, ... without a gap, starts with its
  creation, each record continues where the one before ended along an allowed edge (or the
  no-process failure), and it ends in the run's current state.\<close>

theorem history_is_legal_path:
  assumes "reachable s" and "GetRun k s = Inr r"
  shows "history_ok (r_State r) (Transitions k s)
    \<and> map tr_Seq (Transitions k s) = map int [0..<length (Transitions k s)]"
proof -
  have inv: "store_inv s" using assms(1) by (rule reachable_store_inv)
  have r: "find_run k (runs s) = Some r" using assms(2) by (simp add: GetRun_def split: option.splits)
  have "gapless 0 (map tr_Seq (Transitions k s))"
    using inv by (simp add: Transitions_history [OF inv] history_def store_inv_def log_seqs_def)
  then have "map tr_Seq (Transitions k s) = map int [0..<length (Transitions k s)]"
    by (intro nth_equalityI) (auto simp: gapless_def)
  then show ?thesis
    using find_run_linked_ok [OF inv r] find_run_ID [OF r] by (simp add: Transitions_history [OF inv] linked_ok_def)
qed

theorem history_is_legal_path_witness:
  "history_ok StateCompleted (Transitions ''r'' demo_completed)
   \<and> map tr_Seq (Transitions ''r'' demo_completed) = [0, 1, 2]"
proof -
  let ?r = "hd (runs demo_completed)"
  have r: "GetRun ''r'' demo_completed = Inr ?r" and "r_State ?r = StateCompleted"
    by (simp_all add: GetRun_def demo_defs)
  moreover have "length (Transitions ''r'' demo_completed) = 3"
    by (simp only: Transitions_history [OF reachable_store_inv [OF demo_reachable_completed]])
      (simp add: history_def demo_defs)
  moreover have "[0..<3] = [0, 1, 2::nat]" by (simp add: upt_rec)
  ultimately show ?thesis
    using history_is_legal_path [OF demo_reachable_completed r] by simp
qed

text \<open>C19: a reader that resumes after any event number gets exactly the events it has not seen, in
  order, and the numbers run from 1 to \<open>HighestEventSeq\<close> without a gap.\<close>

theorem ListEvents_resumes:
  assumes "reachable s" and "0 \<le> n"
  shows "ListEvents k n s = drop (nat n) (ListEvents k 0 s)
    \<and> map ev_Seq (ListEvents k 0 s) = map (\<lambda>i. int i + 1) [0..<nat (HighestEventSeq k s)]"
proof -
  have inv: "store_inv s" using assms(1) by (rule reachable_store_inv)
  have "gapless 1 (map ev_Seq (ListEvents k 0 s))"
    using inv by (simp add: ListEvents_from_start store_inv_def log_seqs_def)
  then have "map ev_Seq (ListEvents k 0 s) = map (\<lambda>i. int i + 1) [0..<nat (HighestEventSeq k s)]"
    by (intro nth_equalityI) (auto simp: gapless_def HighestEventSeq_length [OF inv] ListEvents_from_start [OF inv])
  then show ?thesis using ListEvents_drop [OF inv assms(2)] by (simp add: ListEvents_from_start [OF inv])
qed

theorem ListEvents_resumes_witness:
  "ListEvents ''r'' 1 demo_sealed = [] \<and> map ev_Seq (ListEvents ''r'' 0 demo_sealed) = [1]"
proof -
  have "HighestEventSeq ''r'' demo_sealed = 1" by (simp add: HighestEventSeq_def demo_defs)
  then have seqs: "map ev_Seq (ListEvents ''r'' 0 demo_sealed) = [1]"
    and "ListEvents ''r'' 1 demo_sealed = drop 1 (ListEvents ''r'' 0 demo_sealed)"
    using ListEvents_resumes [OF demo_reachable_sealed, of 1 "''r''"] by simp_all
  moreover have "length (ListEvents ''r'' 0 demo_sealed) = 1" using seqs by (metis length_map length_Cons list.size(3) One_nat_def)
  ultimately show ?thesis by simp
qed

text \<open>\<open>AppendEvent\<close> adds exactly the event it returns at the end of the run's stream, so a
  reader that had seen everything gets just that event; the streams of other runs are unchanged,
  and the committed offset is raised to the event's offset, never lowered.\<close>

theorem AppendEvent_extends_stream:
  assumes "reachable s" and "AppendEvent now k typ payload off s = Inr (e, s')"
  shows "ListEvents k 0 s' = ListEvents k 0 s @ [e] \<and> ListEvents k (HighestEventSeq k s) s' = [e]
    \<and> HighestEventSeq k s' = HighestEventSeq k s + 1
    \<and> (\<exists>c. CommittedOffset k s = Inr c \<and> CommittedOffset k s' = Inr (max c off))
    \<and> (\<forall>j. j \<noteq> k \<longrightarrow> ListEvents j 0 s' = ListEvents j 0 s \<and> GetRun j s' = GetRun j s)"
proof -
  have inv: "store_inv s" using assms(1) by (rule reachable_store_inv)
  have inv': "store_inv s'" using store_inv_AppendEvent [OF assms(2) inv] .
  let ?fits = "\<lambda>r. r_ID r = k \<and> (r_TranscriptFinalSize r < 0 \<or> off \<le> r_TranscriptFinalSize r)"
  let ?f = "\<lambda>r. r\<lparr>r_CommittedOffset := max (r_CommittedOffset r) off,
    r_TranscriptConsumedOffset := max (r_TranscriptConsumedOffset r) off, r_UpdatedAt := now\<rparr>"
  from assms(2) obtain r where r: "find_run k (runs s) = Some r"
    and e: "ev_RunID e = k" and s': "s' = s\<lparr>events := events s @ [e], runs := update_where ?fits ?f (runs s)\<rparr>"
    and some: "rows_affected ?fits (runs s) \<noteq> 0"
    by (auto simp: AppendEvent_def Let_def split: if_splits option.splits)
  from some obtain q where "q \<in> set (runs s)" "?fits q"
    by (auto simp: rows_affected_zero_iff)
  then have fits: "?fits r" using find_run_unique [OF inv r] by blast
  have runs: "find_run j (runs s') = map_option (\<lambda>r. if ?fits r then ?f r else r) (find_run j (runs s))" for j
    by (simp add: s' find_run_update_where [OF inv])
  have evs: "events s' = events s @ [e]" by (simp add: s')
  have other: "GetRun j s' = GetRun j s" if "j \<noteq> k" for j
    using that runs [of j] find_run_ID [of j "runs s"] by (cases "find_run j (runs s)") (auto simp: GetRun_def)
  show ?thesis
    using e other runs [of k] r fits
    by (simp add: ListEvents_from_start [OF inv] ListEvents_from_start [OF inv'] ListEvents_drop [OF inv']
        HighestEventSeq_length [OF inv] HighestEventSeq_length [OF inv'] CommittedOffset_def evs)
qed

theorem AppendEvent_extends_stream_witness:
  "ListEvents ''r'' 0 demo_output = ListEvents ''r'' 0 demo_running @ [demo_event]
   \<and> CommittedOffset ''r'' demo_output = Inr 5"
proof -
  have "CommittedOffset ''r'' demo_running = Inr 0" by (simp add: CommittedOffset_def demo_defs)
  then show ?thesis using AppendEvent_extends_stream [OF demo_reachable_running demo_op_output] by simp
qed

text \<open>C20: a cancellation request survives every later operation, and a run that has one is never
  recorded as completed.\<close>

theorem cancellation_is_durable:
  assumes "reachable s" and "store_step\<^sup>*\<^sup>* s s'" and "GetRun k s = Inr r" and "r_CancelRequested r"
  shows "\<exists>r'. GetRun k s' = Inr r' \<and> r_CancelRequested r' \<and> r_State r' \<noteq> StateCompleted"
proof -
  have inv: "store_inv s" using assms(1) by (rule reachable_store_inv)
  have inv': "store_inv s'" using store_steps_inv [OF assms(2) inv] .
  have "find_run k (runs s) = Some r" using assms(3) by (simp add: GetRun_def split: option.splits)
  then obtain r' where r': "find_run k (runs s') = Some r'" "evolves\<^sup>*\<^sup>* r r'"
    using store_steps_evolve [OF assms(2) inv] by blast
  have "r_CancelRequested r'" using evolves_star_columns [OF r'(2)] assms(4) by blast
  moreover have "row_ok r'" using find_run_row_ok [OF inv' r'(1)] .
  ultimately show ?thesis using r'(1) by (auto simp: GetRun_def row_ok_def)
qed

theorem cancellation_is_durable_witness:
  "\<exists>r'. GetRun ''r'' demo_cancelling = Inr r' \<and> r_CancelRequested r' \<and> r_State r' \<noteq> StateCompleted"
  using cancellation_is_durable [OF demo_reachable_cancelling rtranclp.rtrancl_refl, of "''r''" "hd (runs demo_cancelling)"]
  by (simp add: GetRun_def demo_defs)

text \<open>\<open>RequestCancellation\<close> is idempotent: repeating it, at any later time, returns the same
  state and changes nothing; it moves a running run to cancelling and leaves any other live state.\<close>

theorem RequestCancellation_idempotent:
  assumes "reachable s" and "RequestCancellation now k s = Inr (st, s')"
  shows "RequestCancellation now' k s' = Inr (st, s')
    \<and> (\<exists>r r'. GetRun k s = Inr r \<and> GetRun k s' = Inr r' \<and> \<not> IsTerminal (r_State r) \<and> r_State r' = st
        \<and> st = (if r_State r = StateRunning then StateCancelling else r_State r) \<and> r_CancelRequested r')"
proof -
  have inv: "store_inv s" using assms(1) by (rule reachable_store_inv)
  from assms(2) obtain r where r: "find_run k (runs s) = Some r" and live: "\<not> IsTerminal (r_State r)"
    by (auto simp: RequestCancellation_def split: option.splits if_splits)
  let ?to = "if r_State r = StateRunning then StateCancelling else r_State r"
  let ?f = "\<lambda>r. r\<lparr>r_State := ?to, r_CancelRequested := True, r_UpdatedAt := now\<rparr>"
  have st: "st = ?to" and s': "runs s' = update_where (\<lambda>r. r_ID r = k) ?f (runs s) \<or>
      (s' = s \<and> r_CancelRequested r \<and> r_State r = ?to)"
    using assms(2) r live
    by (auto simp: RequestCancellation_def Let_def update_run_def insert_transition_def split: if_splits)
  have "find_run k (update_where (\<lambda>r. r_ID r = k) ?f (runs s)) = Some (?f r)"
    using r find_run_ID [OF r] by (simp add: find_run_update_where [OF inv])
  then obtain r' where r': "find_run k (runs s') = Some r'" "r_State r' = ?to" "r_CancelRequested r'"
    using s' r by force
  have "\<not> IsTerminal ?to" "?to \<noteq> StateRunning" using live by auto
  with r' have "RequestCancellation now' k s' = Inr (st, s')"
    unfolding RequestCancellation_def st by simp
  then show ?thesis using r r' live st by (simp add: GetRun_def)
qed

theorem RequestCancellation_idempotent_witness:
  "RequestCancellation some_time ''r'' demo_cancelling = Inr (StateCancelling, demo_cancelling)"
  using RequestCancellation_idempotent [OF demo_reachable_running demo_op_cancelling] by blast

text \<open>Across any sequence of operations a run keeps the columns fixed at creation and its
  committed offset never falls; and unless the run ends in a failure, its consumed offset never
  falls, a sealed transcript size and a recorded transcript identity never change.\<close>

theorem run_columns_evolve:
  assumes "reachable s" and "store_step\<^sup>*\<^sup>* s s'" and "GetRun k s = Inr r"
  shows "\<exists>r'. GetRun k s' = Inr r' \<and> immutable_columns r' = immutable_columns r
    \<and> r_CommittedOffset r \<le> r_CommittedOffset r' \<and> (r_State r' = StateFailed \<or> keeps_transcript r r')"
proof -
  have "find_run k (runs s) = Some r" using assms(3) by (simp add: GetRun_def split: option.splits)
  then obtain r' where r': "find_run k (runs s') = Some r'" "evolves\<^sup>*\<^sup>* r r'"
    using store_steps_evolve [OF assms(2) reachable_store_inv [OF assms(1)]] by blast
  then show ?thesis
    using evolves_star_columns [OF r'(2)] evolves_star_transcript [OF r'(2)] by (auto simp: GetRun_def)
qed

theorem run_columns_evolve_witness:
  "\<exists>r'. GetRun ''r'' demo_completed = Inr r' \<and> r_TranscriptIdentity r' = \<lparr>tf_Device = 1, tf_Inode = 7\<rparr>"
proof -
  let ?r = "hd (runs demo_running)"
  have r: "GetRun ''r'' demo_running = Inr ?r" "r_TranscriptIdentity ?r = \<lparr>tf_Device = 1, tf_Inode = 7\<rparr>"
    by (simp_all add: GetRun_def demo_defs)
  have "\<forall>r'. GetRun ''r'' demo_completed = Inr r' \<longrightarrow> r_State r' \<noteq> StateFailed"
    by (simp add: GetRun_def demo_defs)
  then show ?thesis
    using run_columns_evolve [OF demo_reachable_running demo_steps_completed r(1)] r(2)
    by (auto simp: keeps_transcript_def no_identity_def)
qed

text \<open>C21: an outbox row is never removed, keeps its terminal state and supervisor identity, and once
  acknowledged or abandoned never changes again.\<close>

theorem outbox_settled_once:
  assumes "reachable s" and "store_step\<^sup>*\<^sup>* s s'" and "GetOutbox k s = Inr a"
  shows "\<exists>b. GetOutbox k s' = Inr b \<and> settles a b \<and> (ob_Acknowledged a \<noteq> 0 \<longrightarrow> b = a)
    \<and> ob_TerminalState b = ob_TerminalState a \<and> ob_SupervisorPID b = ob_SupervisorPID a
    \<and> ob_SupervisorPGID b = ob_SupervisorPGID a \<and> ob_SocketPath b = ob_SocketPath a \<and> ob_Token b = ob_Token a"
proof -
  have "find_outbox k (finalization_outbox s) = Some a"
    using assms(3) by (simp add: GetOutbox_def split: option.splits)
  then obtain b where b: "find_outbox k (finalization_outbox s') = Some b" "settles a b"
    using store_steps_settle [OF assms(2) reachable_store_inv [OF assms(1)]] by blast
  from b(2) consider "b = a" | "ob_Acknowledged a = 0" "b = a\<lparr>ob_Acknowledged := ob_Acknowledged b,
      ob_AcknowledgedAt := ob_AcknowledgedAt b, ob_Diagnostic := ob_Diagnostic b\<rparr>"
    by (auto simp: settles_def)
  then have "(ob_Acknowledged a \<noteq> 0 \<longrightarrow> b = a)
    \<and> ob_TerminalState b = ob_TerminalState a \<and> ob_SupervisorPID b = ob_SupervisorPID a
    \<and> ob_SupervisorPGID b = ob_SupervisorPGID a \<and> ob_SocketPath b = ob_SocketPath a \<and> ob_Token b = ob_Token a"
  proof cases
    case 2
    then show ?thesis by (cases a; cases b) simp
  qed simp
  with b show ?thesis by (simp add: GetOutbox_def)
qed

theorem outbox_settled_once_witness:
  "\<exists>b. GetOutbox ''r'' demo_settled = Inr b \<and> settles demo_outbox b"
proof -
  have "GetOutbox ''r'' demo_completed = Inr demo_outbox" by (simp add: GetOutbox_def demo_defs)
  then show ?thesis
    using outbox_settled_once [OF demo_reachable_completed demo_steps_settled] by blast
qed

text \<open>C22: no live run is stuck: from every reachable store, a run that is not terminal and whose
  consumed offset does not exceed its sealed size can be brought by operations of the journal to a
  terminal state with its finalization settled.\<close>

theorem live_run_can_be_settled:
  assumes "reachable s" and "GetRun k s = Inr r" and "\<not> IsTerminal (r_State r)"
    and "r_TranscriptFinalSize r < 0 \<or> r_TranscriptConsumedOffset r \<le> r_TranscriptFinalSize r"
  shows "\<exists>s'. store_step\<^sup>*\<^sup>* s s' \<and> journal_view s' k = Some (StateCancelled, Discharged)"
proof -
  have "find_run k (runs s) = Some r" using assms(2) by (simp add: GetRun_def split: option.splits)
  then show ?thesis
    using live_run_can_settle [OF reachable_store_inv [OF assms(1)]] assms(3,4) by auto
qed

theorem live_run_can_be_settled_witness:
  "\<exists>s'. store_step\<^sup>*\<^sup>* demo_running s' \<and> journal_view s' ''r'' = Some (StateCancelled, Discharged)"
  using live_run_can_be_settled [OF demo_reachable_running, of "''r''" "hd (runs demo_running)"]
  by (simp add: GetRun_def demo_defs)

text \<open>The outbox row is what keeps a finished run visible: in a build with the \<open>noOutbox\<close>
  mutation hook, every successful \<open>CommitTerminal\<close> on a consistent store leaves a terminal run
  that recovery does not list.\<close>

theorem no_outbox_mutant_loses_run:
  assumes "reachable s"
    and "CommitTerminal \<lparr>mh_noOutbox = True, mh_allowIncompleteTerminalTranscript = False\<rparr> now k to reason ob s = Inr s'"
  shows "\<exists>r. GetRun k s' = Inr r \<and> IsTerminal (r_State r) \<and> r \<in> set (runs s') \<and> r \<notin> set (ListActiveRuns s')"
proof -
  let ?c = "\<lparr>tc_terminal = True, tc_noProcess = False, tc_outbox = ob\<rparr>"
  have inv: "store_inv s" using assms(1) by (rule reachable_store_inv)
  from assms(2) obtain r where t: "IsTerminal to" and r: "find_run k (runs s) = Some r"
    and te: "transition_error \<lparr>mh_noOutbox = True, mh_allowIncompleteTerminalTranscript = False\<rparr> r to ?c = None"
    and runs': "runs s' = update_where (\<lambda>r. r_ID r = k) (transition_run now to ?c) (runs s)"
    and ob': "finalization_outbox s' = finalization_outbox s"
    by (auto simp: CommitTerminal_def commitTransition_def Let_def insert_transition_def update_run_def
        split: if_splits option.splits)
  let ?r = "transition_run now to ?c r"
  have r': "find_run k (runs s') = Some ?r"
    using r find_run_ID [OF r] transition_run_fields by (simp add: runs' find_run_update_where [OF inv])
  have "find_outbox k (finalization_outbox s) = None"
    using terminal_iff_outbox [OF inv r] transition_error_nonterminal [OF te] by simp
  then have "\<forall>o' \<in> set (finalization_outbox s'). ob_RunID o' \<noteq> k"
    using find_outbox_None_iff [OF inv] ob' by auto
  then have "?r \<notin> set (ListActiveRuns s')"
    using t find_run_ID [OF r] transition_run_fields
    by (auto simp: ListActiveRuns_def list_ex_iff IsTerminal_iff)
  moreover have "?r \<in> set (runs s')"
    using r' by (simp add: find_run_def find_SomeD)
  ultimately show ?thesis using r' t transition_run_fields by (simp add: GetRun_def)
qed

theorem no_outbox_mutant_loses_run_witness:
  "\<exists>s' r. CommitTerminal \<lparr>mh_noOutbox = True, mh_allowIncompleteTerminalTranscript = False\<rparr>
       some_time ''r'' StateCompleted [] zeroOutbox demo_sealed = Inr s'
     \<and> GetRun ''r'' s' = Inr r \<and> IsTerminal (r_State r) \<and> r \<notin> set (ListActiveRuns s')"
proof -
  have "\<exists>s'. CommitTerminal \<lparr>mh_noOutbox = True, mh_allowIncompleteTerminalTranscript = False\<rparr>
       some_time ''r'' StateCompleted [] zeroOutbox demo_sealed = Inr s'"
    by (simp add: demo_defs)
  then show ?thesis using no_outbox_mutant_loses_run [OF demo_reachable_sealed] by blast
qed

text \<open>The listings that order runs by creation compare the printed times, from which
  \<open>RFC3339Nano\<close> has cut trailing zeros, so they are not in order of creation: a run created half a
  second after another is listed before it.\<close>

theorem creation_order_is_textual:
  "\<exists>s r1 r2. reachable s \<and> runs s = [r1, r2] \<and> stamp_ok (r_CreatedAt r1) \<and> stamp_ok (r_CreatedAt r2)
     \<and> stamp_before (r_CreatedAt r1) (r_CreatedAt r2)
     \<and> ListRunsByProject ''p'' s = [r2, r1] \<and> ListActiveRuns s = [r2, r1]"
proof -
  let ?later = "some_time\<lparr>st_nanos := 500000000\<rparr>"
  let ?r2 = "new_run ?later ''q'' ''p'' ''w'' demo_spec"
  have "\<exists>s. CreateRun ?later ''q'' ''p'' ''w'' demo_spec demo_created = Inr s \<and> runs s = [demo_run, ?r2]
      \<and> finalization_outbox s = []"
    by (simp add: demo_defs demo_spec_def)
  then obtain s where s: "CreateRun ?later ''q'' ''p'' ''w'' demo_spec demo_created = Inr s"
    "runs s = [demo_run, ?r2]" "finalization_outbox s = []" by blast
  have "reachable s"
    using demo_op_project demo_op_workstream demo_op_created s(1) by (meson rtranclp.intros store_step.intros)
  moreover have lt: "stamp_text ?later < stamp_text some_time"
    by (simp add: stamp_text_def some_time_def nano_fraction_def less_char_def)
  have "ListRunsByProject ''p'' s = [?r2, demo_run]" "ListActiveRuns s = [?r2, demo_run]"
    using lt by (simp_all add: ListRunsByProject_def ListActiveRuns_def s order_by_def sort_key_def demo_run_def new_run_def)
  moreover have "stamp_ok some_time" "stamp_ok ?later" "stamp_before some_time ?later"
    by (simp_all add: stamp_ok_def stamp_before_def some_time_def)
  ultimately show ?thesis
    using s(2) by (intro exI [of _ s] exI [of _ demo_run] exI [of _ ?r2]) (simp add: new_run_def)
qed

end
