(* ===== verification/Go_Utf8.thy ===== *)
theory Go_Utf8
  imports Go_Strings
begin

section \<open>UTF-8 round trips\<close>

text \<open>
  Decoding a rune that is not an error and encoding it again gives the bytes it came from; a valid
  string is the concatenation of its encoded runes, none of which is a surrogate.
\<close>

text \<open>The bytes of a rune, as decoded from two, three or four bytes.\<close>

lemma div_mod_64: "z < 64 \<Longrightarrow> (a * 64 + z) div 64 = a" "z < 64 \<Longrightarrow> (a * 64 + z) mod 64 = (z :: nat)"
  by simp_all

lemma encode_two:
  assumes "0xC2 \<le> b0" "b0 < 0xE0" "0x80 \<le> b1" "b1 \<le> 0xBF"
  shows "encodeRune ((b0 - 0xC0) * 64 + (b1 - 0x80)) = [chr b0, chr b1]"
proof -
  define r where "r = (b0 - 0xC0) * 64 + (b1 - 0x80)"
  have lo: "b1 - 0x80 < 64" using assms by linarith
  have hi: "2 \<le> b0 - 0xC0" "b0 - 0xC0 < 32" using assms by linarith+
  have "r div 64 = b0 - 0xC0" "r mod 64 = b1 - 0x80" using lo by (simp_all add: r_def)
  moreover have "0x80 \<le> r" "r < 0x800" using lo hi by (simp_all add: r_def)
  ultimately have "encodeRune r = [chr b0, chr b1]"
    using assms by (simp add: encodeRune_def Let_def)
  then show ?thesis by (simp add: r_def)
qed

lemma encode_three:
  assumes "0xE0 \<le> b0" "b0 < 0xF0" "0x80 \<le> b1" "b1 \<le> 0xBF" "0x80 \<le> b2" "b2 \<le> 0xBF"
    and "b0 = 0xE0 \<Longrightarrow> 0xA0 \<le> b1" and "b0 = 0xED \<Longrightarrow> b1 \<le> 0x9F"
  shows "encodeRune ((b0 - 0xE0) * 4096 + (b1 - 0x80) * 64 + (b2 - 0x80)) = [chr b0, chr b1, chr b2]"
    and "(b0 - 0xE0) * 4096 + (b1 - 0x80) * 64 + (b2 - 0x80) \<notin> {0xD800..0xDFFF}"
    and "(b0 - 0xE0) * 4096 + (b1 - 0x80) * 64 + (b2 - 0x80) \<le> 0x10FFFF"
proof -
  define x y z where "x = b0 - 0xE0" and "y = b1 - 0x80" and "z = b2 - 0x80"
  have b: "b0 = 0xE0 + x" "b1 = 0x80 + y" "b2 = 0x80 + z" and lt: "x < 16" "y < 64" "z < 64"
    using assms by (simp_all add: x_def y_def z_def)
  have e0: "x = 0 \<Longrightarrow> 32 \<le> y" and ed: "x = 13 \<Longrightarrow> y < 32"
    using assms by (simp_all add: b)
  define r where "r = (x * 64 + y) * 64 + z"
  have div: "r div 64 = x * 64 + y" "r mod 64 = z"
    using div_mod_64 [OF lt(3), of "x * 64 + y"] by (simp_all only: r_def)
  have "r div 4096 = r div 64 div 64" by (simp flip: div_mult2_eq)
  then have "r div 4096 = x" "r div 64 mod 64 = y"
    using lt div by simp_all
  moreover have "0x800 \<le> r" using lt e0 by (cases "x = 0") (simp_all add: r_def)
  moreover have "r < 0x10000" using lt by (simp add: r_def)
  moreover have sur: "r < 0xD800 \<or> 0xDFFF < r"
  proof (cases "x < 13")
    case True then show ?thesis using lt by (simp add: r_def)
  next
    case False then show ?thesis using lt ed by (cases "x = 13") (simp_all add: r_def)
  qed
  ultimately have "encodeRune r = [chr b0, chr b1, chr b2]"
    using div by (auto simp: encodeRune_def Let_def b)
  then show "encodeRune ((b0 - 0xE0) * 4096 + (b1 - 0x80) * 64 + (b2 - 0x80)) = [chr b0, chr b1, chr b2]"
    by (simp add: b r_def mult.commute)
  show "(b0 - 0xE0) * 4096 + (b1 - 0x80) * 64 + (b2 - 0x80) \<notin> {0xD800..0xDFFF}"
    using sur by (auto simp: b r_def mult.commute)
  show "(b0 - 0xE0) * 4096 + (b1 - 0x80) * 64 + (b2 - 0x80) \<le> 0x10FFFF"
    using lt by (simp add: b)
qed

lemma encode_four:
  assumes "0xF0 \<le> b0" "b0 \<le> 0xF4" "0x80 \<le> b1" "b1 \<le> 0xBF" "0x80 \<le> b2" "b2 \<le> 0xBF" "0x80 \<le> b3" "b3 \<le> 0xBF"
    and "b0 = 0xF0 \<Longrightarrow> 0x90 \<le> b1" and "b0 = 0xF4 \<Longrightarrow> b1 \<le> 0x8F"
  shows "encodeRune ((b0 - 0xF0) * 262144 + (b1 - 0x80) * 4096 + (b2 - 0x80) * 64 + (b3 - 0x80)) =
      [chr b0, chr b1, chr b2, chr b3]"
    and "0x10000 \<le> (b0 - 0xF0) * 262144 + (b1 - 0x80) * 4096 + (b2 - 0x80) * 64 + (b3 - 0x80)"
    and "(b0 - 0xF0) * 262144 + (b1 - 0x80) * 4096 + (b2 - 0x80) * 64 + (b3 - 0x80) \<le> 0x10FFFF"
proof -
  define w x y z where "w = b0 - 0xF0" and "x = b1 - 0x80" and "y = b2 - 0x80" and "z = b3 - 0x80"
  have b: "b0 = 0xF0 + w" "b1 = 0x80 + x" "b2 = 0x80 + y" "b3 = 0x80 + z"
    and lt: "w < 5" "x < 64" "y < 64" "z < 64"
    using assms by (simp_all add: w_def x_def y_def z_def)
  have f0: "w = 0 \<Longrightarrow> 16 \<le> x" and f4: "w = 4 \<Longrightarrow> x < 16"
    using assms by (simp_all add: b)
  define r where "r = ((w * 64 + x) * 64 + y) * 64 + z"
  have div: "r div 64 = (w * 64 + x) * 64 + y" "r mod 64 = z"
    using div_mod_64 [OF lt(4), of "(w * 64 + x) * 64 + y"] by (simp_all only: r_def)
  have "r div 4096 = r div 64 div 64" "r div 262144 = r div 64 div 64 div 64" by (simp_all flip: div_mult2_eq)
  then have div2: "r div 4096 = w * 64 + x" and div3: "r div 262144 = w"
    using lt div by simp_all
  have "r div 4096 mod 64 = x" "r div 64 mod 64 = y"
    using div_mod_64(2) [OF lt(2), of w] div_mod_64(2) [OF lt(3), of "w * 64 + x"] div(1) div2 by (simp_all only:)
  moreover have lo: "0x10000 \<le> r" using lt f0 by (cases "w = 0") (simp_all add: r_def)
  moreover have top: "r \<le> 0x10FFFF"
  proof (cases "w = 4")
    case True then show ?thesis using lt f4 by (simp add: r_def)
  next
    case False then show ?thesis using lt by (simp add: r_def)
  qed
  ultimately have "encodeRune r = [chr b0, chr b1, chr b2, chr b3]"
    using div div2 div3 by (auto simp: encodeRune_def Let_def b)
  then show "encodeRune ((b0 - 0xF0) * 262144 + (b1 - 0x80) * 4096 + (b2 - 0x80) * 64 + (b3 - 0x80)) =
      [chr b0, chr b1, chr b2, chr b3]"
    by (simp add: b r_def mult.commute)
  show "0x10000 \<le> (b0 - 0xF0) * 262144 + (b1 - 0x80) * 4096 + (b2 - 0x80) * 64 + (b3 - 0x80)"
    using lo by (simp add: b r_def mult.commute)
  show "(b0 - 0xF0) * 262144 + (b1 - 0x80) * 4096 + (b2 - 0x80) * 64 + (b3 - 0x80) \<le> 0x10FFFF"
    using top by (simp add: b r_def mult.commute)
qed

text \<open>A rune that decodes without error.\<close>

lemma decodeRune_encode:
  assumes "decodeRune s = (r, n)" and "s \<noteq> []" and "\<not> (r = RuneError \<and> n = 1)"
  shows "encodeRune r = take n s \<and> n \<le> length s \<and> r \<notin> {0xD800..0xDFFF} \<and> r \<le> 0x10FFFF \<and> (r < 0x80 \<longleftrightarrow> n = 1)"
proof -
  from assms(2) obtain c0 t where s: "s = c0 # t" by (cases s) auto
  show ?thesis
  proof (cases "byte_of c0 < 0x80")
    case True
    then show ?thesis using assms(1) by (auto simp: s decodeRune_def encodeRune_def Let_def)
  next
    case ascii: False
    with assms s obtain k lo hi c1 t1 where u: "utf8_first (byte_of c0) = Some (k, lo, hi)" and t: "t = c1 # t1"
      and c1: "lo \<le> byte_of c1" "byte_of c1 \<le> hi"
      by (auto simp: decodeRune_def Let_def split: option.splits list.splits if_splits)
    consider "k = 2" | "k = 3" | "k = 4"
      using u by (auto simp: utf8_first_def split: if_splits)
    then show ?thesis
    proof cases
      case 1
      then have "0xC2 \<le> byte_of c0" "byte_of c0 < 0xE0" "0x80 \<le> byte_of c1" "byte_of c1 \<le> 0xBF"
        using u c1 by (auto simp: utf8_first_def split: if_splits)
      moreover have "r = (byte_of c0 - 0xC0) * 64 + (byte_of c1 - 0x80)" "n = 2"
        using assms(1) 1 u c1 ascii by (auto simp: s t decodeRune_def Let_def)
      ultimately show ?thesis using encode_two [of "byte_of c0" "byte_of c1"] by (auto simp: s t)
    next
      case 2
      with assms u c1 ascii obtain c2 t2 where t1: "t1 = c2 # t2" "is_cont (byte_of c2)"
        by (auto simp: s t decodeRune_def Let_def split: list.splits if_splits)
      have "r = (byte_of c0 - 0xE0) * 4096 + (byte_of c1 - 0x80) * 64 + (byte_of c2 - 0x80)" "n = 3"
        using assms(1) 2 u c1 t1 ascii by (auto simp: s t decodeRune_def Let_def)
      then show ?thesis
        using encode_three [of "byte_of c0" "byte_of c1" "byte_of c2"] u 2 c1 t1
        by (auto simp: s t utf8_first_def is_cont_def split: if_splits)
    next
      case 3
      with assms u c1 ascii obtain c2 c3 t3 where t1: "t1 = c2 # c3 # t3" "is_cont (byte_of c2)" "is_cont (byte_of c3)"
        by (auto simp: s t decodeRune_def Let_def split: list.splits if_splits)
      have "r = (byte_of c0 - 0xF0) * 262144 + (byte_of c1 - 0x80) * 4096 + (byte_of c2 - 0x80) * 64
          + (byte_of c3 - 0x80)" "n = 4"
        using assms(1) 3 u c1 t1 ascii by (auto simp: s t decodeRune_def Let_def)
      then show ?thesis
        using encode_four [of "byte_of c0" "byte_of c1" "byte_of c2" "byte_of c3"] u 3 c1 t1
        by (auto simp: s t utf8_first_def is_cont_def split: if_splits)
    qed
  qed
qed

lemma encodeRune_high: "0x80 \<le> r \<Longrightarrow> c \<in> set (encodeRune r) \<Longrightarrow> 0x80 \<le> byte_of c"
proof -
  assume r: "0x80 \<le> r" and c: "c \<in> set (encodeRune r)"
  define q where "q = (if 0x10FFFF < r \<or> (0xD800 \<le> r \<and> r \<le> 0xDFFF) then RuneError else r)"
  have q: "0x80 \<le> q" "q \<le> 0x10FFFF" using r by (auto simp: q_def)
  have m: "q mod 64 < 64" "q div 64 mod 64 < 64" "q div 4096 mod 64 < 64" by simp_all
  have d: "q < 0x800 \<Longrightarrow> q div 64 < 32" "q < 0x10000 \<Longrightarrow> q div 4096 < 16" "q div 262144 < 5"
    using q by (simp_all add: less_mult_imp_div_less)
  show ?thesis
    using c q m d unfolding encodeRune_def Let_def q_def [symmetric]
    by (auto split: if_splits)
qed

subsection \<open>Strings\<close>

text \<open>What is known of each rune of a valid string and of the bytes it stands for.\<close>

definition rune_ok :: "rune \<times> string \<Rightarrow> bool" where
  "rune_ok rb \<longleftrightarrow> encodeRune (fst rb) = snd rb \<and> fst rb \<notin> {0xD800..0xDFFF} \<and> fst rb \<le> 0x10FFFF
     \<and> (fst rb < 0x80 \<longleftrightarrow> length (snd rb) = 1)
     \<and> (0x80 \<le> fst rb \<longrightarrow> (\<forall>c \<in> set (snd rb). 0x80 \<le> byte_of c))"

lemma runes_Nil [simp]: "runes [] = []"
  by (simp add: runes.simps)

lemma concat_runes: "concat (map snd (runes s)) = s"
  by (induction s rule: runes.induct) (subst runes.simps, auto split: prod.splits)

lemma runes_ok: "ValidString s \<Longrightarrow> list_all rune_ok (runes s)"
proof (induction s rule: runes.induct)
  case (1 s)
  show ?case
  proof (cases "s = []")
    case False
    obtain r n where d: "decodeRune s = (r, n)" by fastforce
    then have runes: "runes s = (r, take n s) # runes (drop n s)"
      using False by (subst runes.simps) simp
    have n: "0 < n" using decodeRune_size_pos [OF False] d by simp
    have ok: "\<not> (r = RuneError \<and> n = 1)" and rest: "ValidString (drop n s)"
      using 1(2) False n by (auto simp: ValidString_def runes neq_Nil_conv)
    have "list_all rune_ok (runes (drop n s))"
      using 1(1) [OF False d [symmetric] refl rest] .
    moreover have "rune_ok (r, take n s)"
      using decodeRune_encode [OF d False ok] encodeRune_high [of r] by (auto simp: rune_ok_def min_def)
    ultimately show ?thesis by (simp add: runes)
  qed simp
qed

text \<open>\<open>json.Marshal\<close> and \<open>json.Unmarshal\<close> keep a valid string.\<close>

lemma coerceUTF8_valid: "ValidString s \<Longrightarrow> coerceUTF8 s = s"
proof -
  assume "ValidString s"
  then have "map (\<lambda>(r, b). encodeRune r) (runes s) = map snd (runes s)"
    using runes_ok [of s] by (force simp: list_all_iff rune_ok_def)
  then show ?thesis by (simp only: coerceUTF8_def concat_runes)
qed

text \<open>Bytes below 128 are runes of their own.\<close>

lemma runes_ascii: "list_all (\<lambda>c. byte_of c < 0x80) s \<Longrightarrow> runes s = map (\<lambda>c. (byte_of c, [c])) s"
proof (induction s)
  case (Cons c s)
  then show ?case by (simp add: runes.simps [of "c # s"] decodeRune_def utf8_first_def Let_def)
qed simp

lemma ValidString_ascii: "list_all (\<lambda>c. byte_of c < 0x80) s \<Longrightarrow> ValidString s"
  by (induction s) (simp_all add: ValidString_def runes_ascii list_all_iff)

end
