(* ===== verification/Sha256.thy ===== *)
theory Sha256
  imports Go_Strings "HOL-Library.Word"
begin

section \<open>SHA-256\<close>

text \<open>
  The digest the store hashes its canonical JSON with, \<open>sha256.Sum256\<close> of Go's standard library:
  padding, message schedule and compression of FIPS 180-4 on 32-bit words.  The theorems of the
  store only use the shape of a digest; the definition makes the model executable.
\<close>

unbundle bit_operations_syntax

type_synonym w32 = "32 word"

definition rotr :: "nat \<Rightarrow> w32 \<Rightarrow> w32" where
  "rotr n x = (drop_bit n x) OR (push_bit (32 - n) x)"

text \<open>
  The constants are the first 32 bits of the fractional parts of roots of the first primes.
  \<open>root_bits k n b x\<close> fixes the low \<open>b\<close> bits of the \<open>k\<close>-th root of \<open>n\<close>, from the top.
\<close>

fun root_bits :: "nat \<Rightarrow> nat \<Rightarrow> nat \<Rightarrow> nat \<Rightarrow> nat" where
  "root_bits k n 0 x = x"
| "root_bits k n (Suc b) x = root_bits k n b (if (x + 2 ^ b) ^ k \<le> n then x + 2 ^ b else x)"

lemma root_bits_correct:
  "x ^ k \<le> n \<Longrightarrow> n < (x + 2 ^ b) ^ k \<Longrightarrow> root_bits k n b x ^ k \<le> n \<and> n < Suc (root_bits k n b x) ^ k"
  by (induction b arbitrary: x) (simp_all add: mult_2 add.assoc [symmetric])

definition root_fraction :: "nat \<Rightarrow> nat \<Rightarrow> w32" where
  "root_fraction k p = of_nat (root_bits k (p * 2 ^ (32 * k)) 36 0)"

definition primes_below :: "nat \<Rightarrow> nat list" where
  "primes_below n = filter (\<lambda>p. list_all (\<lambda>d. p mod d \<noteq> 0) [2..<p]) [2..<n]"

definition sha_K :: "w32 list" where
  "sha_K = map (root_fraction 3) (primes_below 312)"

record sha_state =
  sha_a :: w32
  sha_b :: w32
  sha_c :: w32
  sha_d :: w32
  sha_e :: w32
  sha_f :: w32
  sha_g :: w32
  sha_h :: w32

definition sha_init :: sha_state where
  "sha_init =
     \<lparr>sha_a = root_fraction 2 2, sha_b = root_fraction 2 3, sha_c = root_fraction 2 5, sha_d = root_fraction 2 7,
      sha_e = root_fraction 2 11, sha_f = root_fraction 2 13, sha_g = root_fraction 2 17, sha_h = root_fraction 2 19\<rparr>"

text \<open>The big-endian bytes of a number, and back.\<close>

fun be_bytes :: "nat \<Rightarrow> nat \<Rightarrow> string" where
  "be_bytes 0 n = []"
| "be_bytes (Suc w) n = be_bytes w (n div 256) @ [chr (n mod 256)]"

definition be_nat :: "string \<Rightarrow> nat" where
  "be_nat s = foldl (\<lambda>n c. n * 256 + byte_of c) 0 s"

definition sha_pad :: "string \<Rightarrow> string" where
  "sha_pad m = m @ [chr 0x80] @ replicate ((119 - length m mod 64) mod 64) (chr 0) @ be_bytes 8 (8 * length m mod 2 ^ 64)"

fun chunks :: "nat \<Rightarrow> 'a list \<Rightarrow> 'a list list" where
  "chunks n [] = []"
| "chunks n (x # xs) = (if n = 0 then [] else take n (x # xs) # chunks n (drop (n - 1) xs))"

definition block_words :: "string \<Rightarrow> w32 list" where
  "block_words b = map (\<lambda>s. of_nat (be_nat s)) (chunks 4 b)"

text \<open>The message schedule, kept as the last sixteen words, the newest first.\<close>

definition sched_next :: "w32 list \<Rightarrow> w32" where
  "sched_next ws =
     (let w15 = ws ! 14; w2 = ws ! 1;
          s0 = rotr 7 w15 XOR rotr 18 w15 XOR drop_bit 3 w15;
          s1 = rotr 17 w2 XOR rotr 19 w2 XOR drop_bit 10 w2
      in s1 + ws ! 6 + s0 + ws ! 15)"

fun sched :: "nat \<Rightarrow> w32 list \<Rightarrow> w32 list" where
  "sched 0 ws = []"
| "sched (Suc n) ws = (let w = sched_next ws in w # sched n (w # ws))"

definition schedule :: "w32 list \<Rightarrow> w32 list" where
  "schedule ws = ws @ sched 48 (rev ws)"

definition sha_round :: "w32 \<times> w32 \<Rightarrow> sha_state \<Rightarrow> sha_state" where
  "sha_round kw s =
     (let s1 = rotr 6 (sha_e s) XOR rotr 11 (sha_e s) XOR rotr 25 (sha_e s);
          ch = (sha_e s AND sha_f s) XOR (NOT (sha_e s) AND sha_g s);
          t1 = sha_h s + s1 + ch + fst kw + snd kw;
          s0 = rotr 2 (sha_a s) XOR rotr 13 (sha_a s) XOR rotr 22 (sha_a s);
          maj = (sha_a s AND sha_b s) XOR (sha_a s AND sha_c s) XOR (sha_b s AND sha_c s);
          t2 = s0 + maj
      in \<lparr>sha_a = t1 + t2, sha_b = sha_a s, sha_c = sha_b s, sha_d = sha_c s,
          sha_e = sha_d s + t1, sha_f = sha_e s, sha_g = sha_f s, sha_h = sha_g s\<rparr>)"

definition sha_block :: "string \<Rightarrow> sha_state \<Rightarrow> sha_state" where
  "sha_block b s =
     (let t = fold sha_round (zip sha_K (schedule (block_words b))) s
      in \<lparr>sha_a = sha_a s + sha_a t, sha_b = sha_b s + sha_b t, sha_c = sha_c s + sha_c t, sha_d = sha_d s + sha_d t,
          sha_e = sha_e s + sha_e t, sha_f = sha_f s + sha_f t, sha_g = sha_g s + sha_g t, sha_h = sha_h s + sha_h t\<rparr>)"

definition Sum256 :: "string \<Rightarrow> string" where
  "Sum256 m =
     (let s = fold sha_block (chunks 64 (sha_pad m)) sha_init
      in concat (map (\<lambda>w. be_bytes 4 (unat w))
        [sha_a s, sha_b s, sha_c s, sha_d s, sha_e s, sha_f s, sha_g s, sha_h s]))"

lemma length_be_bytes [simp]: "length (be_bytes w n) = w"
  by (induction w n rule: be_bytes.induct) auto

lemma length_Sum256 [simp]: "length (Sum256 m) = 32"
  by (simp add: Sum256_def Let_def)

end
