(* ===== verification/Canonical_JSON_Facts.thy ===== *)
theory Canonical_JSON_Facts
  imports Canonical_JSON
begin

section \<open>The canonical encoding is unambiguous\<close>

text \<open>
  A reference encoder on values with sorted keys, to which \<open>canonicalJSON\<close> is equivalent; its
  texts are uniquely decodable, so equal canonical bytes mean equal values.
\<close>

subsection \<open>Key order\<close>

lemma compare_units_less: "compare_units xs ys < 0 \<longleftrightarrow> xs < ys"
  by (induction xs ys rule: compare_units.induct) auto

lemma compareUTF16_less: "compareUTF16 a b < 0 \<longleftrightarrow> utf16_encode a < utf16_encode b"
  by (simp add: compareUTF16_def compare_units_less)

lemma insert_entry_insort: "insert_entry e es = insort_key (utf16_encode \<circ> fst) e es"
  by (induction es) (auto simp: compareUTF16_less not_le)

lemma sort_entries_sort: "sort_entries es = sort_key (utf16_encode \<circ> fst) es"
  by (simp add: sort_entries_def sort_key_def insert_entry_insort [abs_def])

lemma insort_key_map: "(\<And>y. f (g y) = h y) \<Longrightarrow> insort_key f (g x) (map g xs) = map g (insort_key h x xs)"
  by (induction xs) auto

lemma sort_key_map: "(\<And>y. f (g y) = h y) \<Longrightarrow> sort_key f (map g xs) = map g (sort_key h xs)"
  by (induction xs) (simp_all add: insort_key_map)

subsection \<open>The reference encoder\<close>

text \<open>Escaping byte by byte.\<close>

definition escape_byte :: "char \<Rightarrow> string" where
  "escape_byte c = (if byte_of c < 0x80 then escape_rune (byte_of c) else [c])"

definition quoted :: "string \<Rightarrow> string" where
  "quoted s = chr 0x22 # concat (map escape_byte s) @ [chr 0x22]"

function enc :: "json \<Rightarrow> string" where
  "enc JNull = ''null''"
| "enc (JBool b) = (if b then ''true'' else ''false'')"
| "enc (JStr s) = quoted s"
| "enc (JInt n) = FormatInt n"
| "enc (JArr vs) = CHR ''['' # join_commas (map enc vs) @ '']''"
| "enc (JObj kvs) = CHR ''{'' # join_commas (map (\<lambda>kv. quoted (fst kv) @ CHR '':'' # enc (snd kv)) kvs) @ ''}''"
  by pat_completeness auto
termination
  by (relation "measure size") (auto simp: size_entry less_Suc_eq_le size_list_estimation')

text \<open>The value with the entries of every object in canonical order, and the values whose strings
  are valid UTF-8.\<close>

function canon :: "json \<Rightarrow> json" where
  "canon JNull = JNull"
| "canon (JBool b) = JBool b"
| "canon (JStr s) = JStr s"
| "canon (JInt n) = JInt n"
| "canon (JArr vs) = JArr (map canon vs)"
| "canon (JObj kvs) = JObj (sort_key (utf16_encode \<circ> fst) (map (\<lambda>kv. (fst kv, canon (snd kv))) kvs))"
  by pat_completeness auto
termination
  by (relation "measure size") (auto simp: size_entry less_Suc_eq_le size_list_estimation')

function json_ok :: "json \<Rightarrow> bool" where
  "json_ok JNull = True"
| "json_ok (JBool b) = True"
| "json_ok (JStr s) = ValidString s"
| "json_ok (JInt n) = True"
| "json_ok (JArr vs) = list_all json_ok vs"
| "json_ok (JObj kvs) = list_all (\<lambda>kv. ValidString (fst kv) \<and> json_ok (snd kv)) kvs"
  by pat_completeness auto
termination
  by (relation "measure size") (auto simp: size_entry less_Suc_eq_le size_list_estimation')

lemma escape_runes:
  assumes "list_all rune_ok rs"
  shows "concat (map (\<lambda>(r, b). escape_rune r) rs) = concat (map escape_byte (concat (map snd rs)))"
  using assms
proof (induction rs)
  case (Cons rb rs)
  obtain r b where rb: "rb = (r, b)" by fastforce
  have ok: "rune_ok (r, b)" using Cons rb by simp
  have "escape_rune r = concat (map escape_byte b)"
  proof (cases "r < 0x80")
    case True
    then have "b = [chr r]" using ok by (auto simp: rune_ok_def encodeRune_def Let_def)
    then show ?thesis using True by (simp add: escape_byte_def)
  next
    case False
    then have "\<forall>c \<in> set b. 0x80 \<le> byte_of c" "escape_rune r = b"
      using ok by (auto simp: rune_ok_def escape_rune_def)
    moreover have "concat (map escape_byte b) = b" if "\<forall>c \<in> set b. 0x80 \<le> byte_of c" for b
      using that by (induction b) (auto simp: escape_byte_def)
    ultimately show ?thesis by simp
  qed
  with Cons show ?case by (simp add: rb)
qed simp

lemma canonicalJSONString_eq:
  "canonicalJSONString s =
     (if ValidString s then Inr (quoted s) else Inl ''canonical JSON string is not valid UTF-8'')"
proof (cases "ValidString s")
  case True
  then have ok: "list_all rune_ok (runes s)" by (rule runes_ok)
  have "\<not> list_ex (\<lambda>(r, b). 0xD800 \<le> r \<and> r \<le> 0xDFFF) (runes s)"
    using ok by (auto simp: list_all_iff list_ex_iff rune_ok_def)
  then show ?thesis
    using True escape_runes [OF ok] by (simp add: canonicalJSONString_def quoted_def concat_runes)
qed (simp add: canonicalJSONString_def)

lemma collect_map:
  assumes "\<And>x. x \<in> set xs \<Longrightarrow> f x = (if p x then Inr (g x) else Inl e)"
  shows "collect (map f xs) = (if list_all p xs then Inr (map g xs) else Inl e)"
  using assms by (induction xs) auto

lemma canonicalJSON_eq:
  "canonicalJSON v = (if json_ok v then Inr (enc (canon v)) else Inl ''canonical JSON string is not valid UTF-8'')"
proof (induction v rule: canonicalJSON.induct)
  case (3 s)
  then show ?case by (simp add: canonicalJSONString_eq)
next
  case (5 vs)
  then have "collect (map canonicalJSON vs) =
      (if list_all json_ok vs then Inr (map (enc \<circ> canon) vs) else Inl ''canonical JSON string is not valid UTF-8'')"
    by (intro collect_map) simp
  then show ?case by simp
next
  case (6 kvs)
  let ?e = "''canonical JSON string is not valid UTF-8''"
  let ?g = "\<lambda>kv. (fst kv, canonicalJSON (snd kv))"
  let ?s = "sort_key (utf16_encode \<circ> fst) kvs"
  have sorted: "sort_entries (map ?g kvs) = map ?g ?s"
    by (simp add: sort_entries_sort sort_key_map [where h = "utf16_encode \<circ> fst"])
  have "collect (map (\<lambda>kv. member_text (canonicalJSONString (fst kv)) (canonicalJSON (snd kv))) ?s) =
      (if list_all (\<lambda>kv. ValidString (fst kv) \<and> json_ok (snd kv)) ?s
       then Inr (map (\<lambda>kv. quoted (fst kv) @ CHR '':'' # enc (canon (snd kv))) ?s) else Inl ?e)"
    by (rule collect_map) (use 6 in \<open>simp add: member_text_def canonicalJSONString_eq\<close>)
  moreover have "map (\<lambda>(k, r). member_text (canonicalJSONString k) r) (map ?g ?s) =
      map (\<lambda>kv. member_text (canonicalJSONString (fst kv)) (canonicalJSON (snd kv))) ?s"
    by simp
  moreover have "sort_key (utf16_encode \<circ> fst) (map (\<lambda>kv. (fst kv, canon (snd kv))) kvs)
      = map (\<lambda>kv. (fst kv, canon (snd kv))) ?s"
    by (simp add: sort_key_map [where h = "utf16_encode \<circ> fst"])
  ultimately show ?case
    by (simp add: sorted list_all_iff comp_def)
qed simp_all

subsection \<open>Unique decoding of strings\<close>

definition hex_value :: "char \<Rightarrow> nat" where
  "hex_value c = (if byte_of c < 58 then byte_of c - 48 else byte_of c - 87)"

lemma hex_value_digit: "d < 16 \<Longrightarrow> hex_value (hex_digit d) = d"
  by (simp add: hex_value_def hex_digit_def)

text \<open>The first byte of an escaped text, and the rest.\<close>

fun unescape :: "string \<Rightarrow> (char \<times> string) option" where
  "unescape [] = None"
| "unescape [c] = (if c = chr 0x5C then None else Some (c, []))"
| "unescape (c # d # r) =
     (if c \<noteq> chr 0x5C then Some (c, d # r)
      else if d = chr 0x62 then Some (chr 0x08, r)
      else if d = chr 0x66 then Some (chr 0x0C, r)
      else if d = chr 0x6E then Some (chr 0x0A, r)
      else if d = chr 0x72 then Some (chr 0x0D, r)
      else if d = chr 0x74 then Some (chr 0x09, r)
      else if d = chr 0x75 then
        (case r of a # b # h # l # r' \<Rightarrow> Some (chr (hex_value h * 16 + hex_value l), r') | _ \<Rightarrow> None)
      else Some (d, r))"

lemma chr_eq_iff: "n < 256 \<Longrightarrow> chr n = c \<longleftrightarrow> byte_of c = n"
  by (metis byte_of_chr chr_byte_of)

lemma encodeRune_ascii: "r < 0x80 \<Longrightarrow> encodeRune r = [chr r]"
  by (simp add: encodeRune_def Let_def)

lemma unescape_escape: "unescape (escape_byte c @ r) = Some (c, r)"
proof (cases "byte_of c < 0x20")
  case True
  then have "hex_value (hex_digit (byte_of c div 16)) * 16 + hex_value (hex_digit (byte_of c mod 16)) = byte_of c"
    by (simp add: hex_value_digit)
  moreover have "c = chr (byte_of c)" by simp
  ultimately show ?thesis
    using True by (auto simp: escape_byte_def escape_rune_def chr_eq_iff simp del: chr_byte_of)
next
  case False
  have "c = chr (byte_of c)" by simp
  then have "unescape (c # r) = Some (c, r)" if "byte_of c \<noteq> 0x5C"
    using that by (cases r) (auto simp: chr_eq_iff)
  then show ?thesis
    using False by (auto simp: escape_byte_def escape_rune_def encodeRune_ascii chr_eq_iff)
qed

lemma escape_byte_neq_quote: "escape_byte c @ x \<noteq> chr 0x22 # y"
proof
  assume a: "escape_byte c @ x = chr 0x22 # y"
  have "unescape (chr 0x22 # y) = Some (chr 0x22, y)"
    by (cases y) (simp_all add: chr_eq_iff)
  then have "c = chr 0x22" using unescape_escape [of c x] a by simp
  with a show False by (simp add: escape_byte_def escape_rune_def chr_eq_iff)
qed

lemma escaped_inject:
  "concat (map escape_byte s) @ chr 0x22 # r = concat (map escape_byte t) @ chr 0x22 # r' \<Longrightarrow> s = t \<and> r = r'"
proof (induction s arbitrary: t)
  case Nil
  show ?case
  proof (cases t)
    case (Cons d t')
    then show ?thesis using Nil escape_byte_neq_quote [of d "concat (map escape_byte t') @ chr 0x22 # r'" r] by simp
  qed (use Nil in simp)
next
  case (Cons c s)
  have "t \<noteq> []"
    using Cons.prems escape_byte_neq_quote [of c "concat (map escape_byte s) @ chr 0x22 # r" r'] by (intro notI) simp
  then obtain d t' where t: "t = d # t'" by (cases t) auto
  with Cons.prems have "escape_byte c @ concat (map escape_byte s) @ chr 0x22 # r =
      escape_byte d @ concat (map escape_byte t') @ chr 0x22 # r'" by simp
  then have "c = d" "concat (map escape_byte s) @ chr 0x22 # r = concat (map escape_byte t') @ chr 0x22 # r'"
    using unescape_escape by (metis option.inject prod.inject)+
  with Cons.IH t show ?case by simp
qed

lemma quoted_inject: "quoted s @ r = quoted t @ r' \<Longrightarrow> s = t \<and> r = r'"
  using escaped_inject [of s r t r'] by (simp add: quoted_def)

subsection \<open>Unique decoding of numbers\<close>

definition no_digit :: "string \<Rightarrow> bool" where
  "no_digit r \<longleftrightarrow> r = [] \<or> \<not> is_digit (hd r)"

definition digits_value :: "string \<Rightarrow> nat" where
  "digits_value s = foldl (\<lambda>n c. n * 10 + (byte_of c - 48)) 0 s"

lemma is_digit_digit_char: "d < 10 \<Longrightarrow> is_digit (digit_char d) \<and> byte_of (digit_char d) - 48 = d"
  by (simp add: is_digit_def digit_char_def)

lemma nat_text_digits: "list_all is_digit (nat_text n) \<and> nat_text n \<noteq> [] \<and> digits_value (nat_text n) = n"
proof (induction n rule: nat_text.induct)
  case (1 n)
  show ?case
  proof (cases "n < 10")
    case True
    then show ?thesis using is_digit_digit_char [of n] by (simp add: nat_text.simps [of n] digits_value_def)
  next
    case False
    then show ?thesis
      using 1 [OF False] is_digit_digit_char [of "n mod 10"] by (simp add: nat_text.simps [of n] digits_value_def)
  qed
qed

lemma takeWhile_digits: "list_all is_digit s \<Longrightarrow> no_digit r \<Longrightarrow> takeWhile is_digit (s @ r) = s"
  by (induction s) (auto simp: no_digit_def takeWhile_eq_Nil_iff)

lemma nat_text_inject: "nat_text n @ r = nat_text m @ r' \<Longrightarrow> no_digit r \<Longrightarrow> no_digit r' \<Longrightarrow> n = m \<and> r = r'"
  using takeWhile_digits [of "nat_text n" r] takeWhile_digits [of "nat_text m" r'] nat_text_digits
  by (metis append_same_eq same_append_eq)

lemma not_digit_minus: "\<not> is_digit (CHR ''-'')"
  by (simp add: is_digit_def byte_of_def)

lemma FormatInt_inject:
  assumes "FormatInt n @ r = FormatInt m @ r'" and "no_digit r" and "no_digit r'"
  shows "n = m \<and> r = r'"
proof -
  have hd: "nat_text k @ x \<noteq> CHR ''-'' # y" for k x y
    using nat_text_digits [of k] not_digit_minus by (cases "nat_text k") auto
  consider "n < 0" "m < 0" | "0 \<le> n" "0 \<le> m"
    using assms(1) hd [of "nat n" r "nat_text (nat (- m)) @ r'"] hd [of "nat m" r' "nat_text (nat (- n)) @ r"]
    by (cases "n < 0"; cases "m < 0") (auto simp: FormatInt_def)
  then show ?thesis
  proof cases
    case 1
    then show ?thesis using assms nat_text_inject [of "nat (- n)" r "nat (- m)" r']
      by (simp add: FormatInt_def eq_nat_nat_iff)
  next
    case 2
    then show ?thesis using assms nat_text_inject [of "nat n" r "nat m" r']
      by (simp add: FormatInt_def eq_nat_nat_iff)
  qed
qed

lemma FormatInt_hd: "\<exists>c cs. FormatInt n = c # cs \<and> (c = CHR ''-'' \<or> is_digit c)"
proof -
  have "\<exists>c cs. nat_text (nat n) = c # cs \<and> is_digit c" using nat_text_digits [of "nat n"] by (cases "nat_text (nat n)") auto
  then show ?thesis by (auto simp: FormatInt_def)
qed

subsection \<open>Unique decoding of values\<close>

lemma join_commas_Cons: "join_commas (t # ts) = t @ concat (map (\<lambda>u. CHR '','' # u) ts)"
  by (induction ts arbitrary: t) auto

text \<open>Texts closed by a bracket: if each element is uniquely decodable before a comma or the bracket,
  so is the sequence.\<close>

definition decodable :: "('a \<Rightarrow> string) \<Rightarrow> 'a \<Rightarrow> bool" where
  "decodable f x \<longleftrightarrow> (\<forall>y r r'. f x @ r = f y @ r' \<longrightarrow> no_digit r \<longrightarrow> no_digit r' \<longrightarrow> x = y \<and> r = r')"

definition closer :: "char \<Rightarrow> bool" where
  "closer c \<longleftrightarrow> c = CHR '']'' \<or> c = CHR ''}''"

lemma no_digit_sep: "no_digit (CHR '','' # r)" "closer c \<Longrightarrow> no_digit (c # r)"
  by (auto simp: no_digit_def closer_def is_digit_def byte_of_def)

lemma tails_inject:
  assumes "\<And>x. x \<in> set xs \<Longrightarrow> decodable f x" and "closer c"
    and "concat (map (\<lambda>x. CHR '','' # f x) xs) @ c # r = concat (map (\<lambda>x. CHR '','' # f x) ys) @ c # r'"
  shows "xs = ys \<and> r = r'"
  using assms
proof (induction xs arbitrary: ys)
  case Nil
  then show ?case by (cases ys) (auto simp: closer_def)
next
  case (Cons x xs)
  then obtain y ys' where ys: "ys = y # ys'" by (cases ys) (auto simp: closer_def)
  let ?t = "\<lambda>xs r. concat (map (\<lambda>x. CHR '','' # f x) xs) @ c # r"
  have sep: "no_digit (?t zs q)" for zs q
    using no_digit_sep Cons.prems(2) by (cases zs) auto
  have "f x @ ?t xs r = f y @ ?t ys' r'" using Cons.prems(3) by (simp add: ys)
  then have "x = y \<and> ?t xs r = ?t ys' r'"
    using Cons.prems(1) [of x] sep unfolding decodable_def by simp
  then show ?case using Cons.IH [of ys'] Cons.prems(1,2) by (simp add: ys)
qed

lemma join_inject:
  assumes dec: "\<And>x. x \<in> set xs \<Longrightarrow> decodable f x" and c: "closer c"
    and hd: "\<And>x z. f x @ z \<noteq> c # r" "\<And>x z. f x @ z \<noteq> c # r'"
    and eq: "join_commas (map f xs) @ c # r = join_commas (map f ys) @ c # r'"
  shows "xs = ys \<and> r = r'"
proof (cases xs)
  case Nil
  then show ?thesis using eq hd(1) by (cases ys) (auto simp: join_commas_Cons dest: sym)
next
  case xs: (Cons x xs')
  have "ys \<noteq> []" using eq hd(2) by (auto simp: xs join_commas_Cons)
  then obtain y ys' where ys: "ys = y # ys'" by (cases ys) auto
  let ?t = "\<lambda>xs r. concat (map (\<lambda>x. CHR '','' # f x) xs) @ c # r"
  have sep: "no_digit (?t zs q)" for zs q
    using no_digit_sep c by (cases zs) auto
  have "f x @ ?t xs' r = f y @ ?t ys' r'" using eq by (simp add: xs ys join_commas_Cons comp_def)
  then have *: "x = y \<and> ?t xs' r = ?t ys' r'"
    using dec [of x] sep unfolding decodable_def by (simp add: xs)
  then show ?thesis using tails_inject [of xs' f c r ys' r'] dec c by (simp add: xs ys)
qed

text \<open>The first byte tells the kind of value.\<close>

fun kind :: "json \<Rightarrow> nat" where
  "kind JNull = 0"
| "kind (JBool b) = 1"
| "kind (JStr s) = 2"
| "kind (JInt n) = 3"
| "kind (JArr vs) = 4"
| "kind (JObj kvs) = 5"

definition first_kind :: "char \<Rightarrow> nat" where
  "first_kind c = (if c = CHR ''n'' then 0 else if c = CHR ''t'' \<or> c = CHR ''f'' then 1
     else if c = chr 0x22 then 2 else if c = CHR ''-'' \<or> is_digit c then 3 else if c = CHR ''['' then 4 else 5)"

lemma chr_quote: "chr 0x22 = CHR 0x22"
  by code_simp

lemma first_kind_digit: "is_digit c \<Longrightarrow> first_kind c = 3"
  by (auto simp: first_kind_def is_digit_def chr_quote byte_of_def)

lemma enc_first: "enc v \<noteq> [] \<and> first_kind (hd (enc v)) = kind v"
proof (cases v)
  case (JInt n)
  obtain c cs where "FormatInt n = c # cs" "c = CHR ''-'' \<or> is_digit c" using FormatInt_hd by blast
  then show ?thesis using JInt first_kind_digit [of c] by (auto simp: first_kind_def chr_quote)
qed (auto simp: first_kind_def quoted_def is_digit_def chr_quote byte_of_def)

lemma enc_kind: "enc v @ r = enc w @ r' \<Longrightarrow> kind v = kind w"
  using enc_first [of v] enc_first [of w] by (metis hd_append2)

lemma enc_not_closer: "closer c \<Longrightarrow> enc v @ z \<noteq> c # r"
proof
  assume c: "closer c" and eq: "enc v @ z = c # r"
  then have hd: "hd (enc v) = c" using enc_first [of v] by (metis hd_append2 list.sel(1))
  then have "kind v = 5" using enc_first [of v] c
    by (auto simp: closer_def first_kind_def is_digit_def chr_quote byte_of_def)
  then obtain kvs where "v = JObj kvs" by (cases v) auto
  with hd c show False by (auto simp: closer_def)
qed

definition enc_entry :: "string \<times> json \<Rightarrow> string" where
  "enc_entry kv = quoted (fst kv) @ CHR '':'' # enc (snd kv)"

lemma enc_obj: "enc (JObj kvs) = CHR ''{'' # join_commas (map enc_entry kvs) @ ''}''"
  by (simp add: enc_entry_def [abs_def])

lemma enc_entry_not_closer: "closer c \<Longrightarrow> enc_entry kv @ z \<noteq> c # r"
  by (auto simp: enc_entry_def quoted_def closer_def chr_quote)

lemma enc_decodable: "decodable enc v"
proof (induction v)
  case (JArr vs)
  show ?case unfolding decodable_def
  proof (intro allI impI)
    fix w r r' assume eq: "enc (JArr vs) @ r = enc w @ r'"
    then obtain ws where w: "w = JArr ws" using enc_kind [OF eq] by (cases w) auto
    have c: "closer (CHR '']'')" by (simp add: closer_def)
    show "JArr vs = w \<and> r = r'"
      using join_inject [OF JArr c enc_not_closer [OF c] enc_not_closer [OF c], of vs r ws r'] eq by (simp add: w)
  qed
next
  case (JObj kvs)
  have dec: "decodable enc_entry kv" if kv: "kv \<in> set kvs" for kv
    unfolding decodable_def
  proof (intro allI impI)
    fix kv' r r' assume eq: "enc_entry kv @ r = enc_entry kv' @ r'" and d: "no_digit r" "no_digit r'"
    have "fst kv = fst kv'" "enc (snd kv) @ r = enc (snd kv') @ r'"
      using eq quoted_inject [of "fst kv" _ "fst kv'"] by (auto simp: enc_entry_def)
    moreover have "decodable enc (snd kv)" using JObj [of kv "snd kv"] kv by (simp add: snds.simps)
    ultimately show "kv = kv' \<and> r = r'" using d by (auto simp: decodable_def prod_eq_iff)
  qed
  show ?case unfolding decodable_def
  proof (intro allI impI)
    fix w r r' assume eq: "enc (JObj kvs) @ r = enc w @ r'"
    then obtain kws where w: "w = JObj kws" using enc_kind [OF eq] by (cases w) auto
    have c: "closer (CHR ''}'')" by (simp add: closer_def)
    show "JObj kvs = w \<and> r = r'"
      using join_inject [OF dec c enc_entry_not_closer [OF c] enc_entry_not_closer [OF c], of kvs r kws r'] eq
      by (simp add: w enc_obj del: enc.simps)
  qed
next
  case (JStr s)
  show ?case unfolding decodable_def
  proof (intro allI impI)
    fix w r r' assume eq: "enc (JStr s) @ r = enc w @ r'"
    then obtain t where w: "w = JStr t" using enc_kind [OF eq] by (cases w) auto
    then show "JStr s = w \<and> r = r'" using eq quoted_inject [of s r t r'] by simp
  qed
next
  case (JInt n)
  show ?case unfolding decodable_def
  proof (intro allI impI)
    fix w r r' assume eq: "enc (JInt n) @ r = enc w @ r'" and d: "no_digit r" "no_digit r'"
    then obtain m where w: "w = JInt m" using enc_kind [OF eq] by (cases w) auto
    then show "JInt n = w \<and> r = r'" using eq FormatInt_inject [of n r m r'] d by simp
  qed
next
  case (JBool b)
  show ?case unfolding decodable_def
  proof (intro allI impI)
    fix w r r' assume eq: "enc (JBool b) @ r = enc w @ r'"
    then obtain c where w: "w = JBool c" using enc_kind [OF eq] by (cases w) auto
    then show "JBool b = w \<and> r = r'" using eq by (cases b; cases c) auto
  qed
next
  case JNull
  show ?case unfolding decodable_def
  proof (intro allI impI)
    fix w r r' assume eq: "enc JNull @ r = enc w @ r'"
    then have "w = JNull" using enc_kind [OF eq] by (cases w) auto
    then show "JNull = w \<and> r = r'" using eq by simp
  qed
qed

lemma enc_inject: "enc v = enc w \<Longrightarrow> v = w"
  using enc_decodable [of v] unfolding decodable_def no_digit_def by (metis append_Nil2)

subsection \<open>The order of map entries does not matter\<close>

lemma utf16_units_inject:
  assumes "utf16_units r @ x = utf16_units q @ y" and "r \<notin> {0xD800..0xDFFF}" "r \<le> 0x10FFFF"
    and "q \<notin> {0xD800..0xDFFF}" "q \<le> 0x10FFFF"
  shows "r = q \<and> x = y"
proof -
  have pair: "(a - 0x10000) div 1024 = (b - 0x10000) div 1024 \<Longrightarrow> (a - 0x10000) mod 1024 = (b - 0x10000) mod 1024 \<Longrightarrow>
      0x10000 \<le> a \<Longrightarrow> 0x10000 \<le> b \<Longrightarrow> a = b" for a b :: nat
    by (metis eq_diff_iff div_mult_mod_eq)
  show ?thesis
    using assms pair [of r q] by (auto simp: utf16_units_def split: if_splits)
qed

lemma utf16_units_nonempty: "utf16_units r \<noteq> []"
  by (simp add: utf16_units_def)

lemma utf16_inject:
  assumes "ValidString s" "ValidString t" and "utf16_encode s = utf16_encode t"
  shows "s = t"
proof -
  have units: "rs = qs" if "list_all rune_ok rs" "list_all rune_ok qs"
    "concat (map (\<lambda>(r, b). utf16_units r) rs) = concat (map (\<lambda>(r, b). utf16_units r) qs)" for rs qs
    using that
  proof (induction rs arbitrary: qs)
    case Nil
    then show ?case by (cases qs) (auto simp: utf16_units_nonempty)
  next
    case (Cons a rs)
    then obtain b qs' where qs: "qs = b # qs'"
      by (cases qs; cases a) (auto simp: utf16_units_nonempty)
    have ok: "rune_ok a" "rune_ok b" using Cons.prems by (auto simp: qs)
    have "utf16_units (fst a) @ concat (map (\<lambda>(r, b). utf16_units r) rs) =
        utf16_units (fst b) @ concat (map (\<lambda>(r, b). utf16_units r) qs')"
      using Cons.prems(3) by (simp add: qs split: prod.splits)
    then have "fst a = fst b \<and> concat (map (\<lambda>(r, b). utf16_units r) rs) = concat (map (\<lambda>(r, b). utf16_units r) qs')"
      using ok by (intro utf16_units_inject) (auto simp: rune_ok_def)
    moreover have "a = b" if "fst a = fst b" using that ok by (auto simp: rune_ok_def prod_eq_iff)
    ultimately show ?case using Cons.IH [of qs'] Cons.prems by (simp add: qs)
  qed
  have "runes s = runes t" using assms by (intro units) (auto simp: runes_ok utf16_encode_def)
  then show ?thesis by (metis concat_runes)
qed

lemma filter_single: "distinct zs \<Longrightarrow> y \<in> set zs \<Longrightarrow> filter (\<lambda>x. y = x) zs = [y]"
  by (induction zs) (auto simp: filter_empty_conv)

lemma sort_key_mset_eq:
  fixes k :: "'a \<Rightarrow> 'b :: linorder"
  assumes "mset xs = mset ys" and inj: "inj_on k (set xs)" and "distinct xs"
  shows "sort_key k xs = sort_key k ys"
proof (rule properties_for_sort_key)
  show "mset (sort_key k ys) = mset xs" using assms by simp
  show "sorted (map k (sort_key k ys))" by simp
  have set: "set ys = set xs" and dist: "distinct (sort_key k ys)"
    using assms by (auto dest: mset_eq_setD mset_eq_imp_distinct_iff)
  fix y assume y: "y \<in> set (sort_key k ys)"
  have "filter (\<lambda>x. k y = k x) zs = filter (\<lambda>x. y = x) zs" if "set zs = set xs" for zs
    using that y inj set by (intro filter_cong) (auto simp: inj_on_eq_iff)
  then show "filter (\<lambda>x. k y = k x) (sort_key k ys) = filter (\<lambda>x. k y = k x) xs"
    using filter_single [OF dist y] filter_single [OF assms(3), of y] y set by simp
qed

text \<open>Two lists of entries of one map have the same canonical text.\<close>

lemma canonical_map_order:
  assumes "mset kvs = mset kws" and "distinct (map fst kvs)"
  shows "canonicalJSON (JObj kvs) = canonicalJSON (JObj kws)"
proof (cases "json_ok (JObj kvs)")
  case True
  have set: "set kvs = set kws" using assms(1) by (rule mset_eq_setD)
  let ?n = "map (\<lambda>kv. (fst kv, canon (snd kv)))"
  have "fst ` set (?n kvs) = fst ` set kvs" by force
  moreover have "inj_on fst (set (?n kvs))" "distinct (?n kvs)"
    using assms(2) by (auto simp: distinct_map inj_on_def)
  moreover have "inj_on utf16_encode (fst ` set kvs)"
    using True utf16_inject by (auto simp: inj_on_def list_all_iff)
  ultimately have "sort_key (utf16_encode \<circ> fst) (?n kvs) = sort_key (utf16_encode \<circ> fst) (?n kws)"
    using assms(1) by (intro sort_key_mset_eq) (auto intro!: comp_inj_on)
  moreover have "json_ok (JObj kws)" using True set by (simp add: list_all_iff)
  ultimately show ?thesis using True by (simp only: canonicalJSON_eq canon.simps)
next
  case False
  moreover have "set kvs = set kws" using assms(1) by (rule mset_eq_setD)
  ultimately have "\<not> json_ok (JObj kws)" by (simp add: list_all_iff)
  with False show ?thesis by (simp only: canonicalJSON_eq if_False)
qed

end
