(* ===== verification/Canonical_Number.thy ===== *)
theory Canonical_Number
  imports Canonical_JSON_Facts Complex_Main
begin

section \<open>Canonical decimal numbers\<close>

text \<open>
  The tail of \<open>canonicalJSONNumber\<close> in \<^verbatim>\<open>src/internal/store/proposal_canonical.go\<close>: how the
  shortest text of a nonzero float, \<open>strconv.FormatFloat(value, 'g', -1, 64)\<close>, becomes the RFC 8785
  text.  Parsing and shortest formatting of floats are not modelled.  Indexing an empty mantissa
  panics in Go; that branch is \<open>None\<close>.
\<close>

definition IndexByte :: "string \<Rightarrow> char \<Rightarrow> nat option" where
  "IndexByte s c = (if c \<in> set s then Some (length (takeWhile (\<lambda>x. x \<noteq> c) s)) else None)"

text \<open>\<open>strconv.Atoi\<close> on a 64-bit platform.\<close>

definition Atoi :: "string \<Rightarrow> int option" where
  "Atoi s =
     (let neg = (s \<noteq> [] \<and> hd s = CHR ''-'');
          t = (if s \<noteq> [] \<and> (hd s = CHR ''-'' \<or> hd s = CHR ''+'') then tl s else s);
          n = int (digits_value t);
          v = (if neg then - n else n)
      in if t = [] \<or> \<not> list_all is_digit t \<or> v < - (2 ^ 63) \<or> 2 ^ 63 \<le> v then None else Some v)"

definition canonicalExponent :: "int \<Rightarrow> string" where
  "canonicalExponent e = (if 0 \<le> e then CHR ''+'' # FormatInt e else FormatInt e)"

definition expandCanonicalDecimal :: "string \<Rightarrow> int \<Rightarrow> string option" where
  "expandCanonicalDecimal mantissa0 exponent =
     (if mantissa0 = [] then None
      else
        let sign = (if hd mantissa0 = CHR ''-'' then ''-'' else []);
            mantissa = (if hd mantissa0 = CHR ''-'' then tl mantissa0 else mantissa0);
            decimalAt = (case IndexByte mantissa (CHR ''.'') of None \<Rightarrow> length mantissa | Some i \<Rightarrow> i);
            digits = filter (\<lambda>c. c \<noteq> CHR ''.'') mantissa;
            newDecimalAt = int decimalAt + exponent
        in Some (if newDecimalAt \<le> 0 then sign @ ''0.'' @ replicate (nat (- newDecimalAt)) (CHR ''0'') @ digits
                 else if int (length digits) \<le> newDecimalAt
                 then sign @ digits @ replicate (nat (newDecimalAt - int (length digits))) (CHR ''0'')
                 else sign @ take (nat newDecimalAt) digits @ ''.'' @ drop (nat newDecimalAt) digits))"

definition canonical_number_text :: "string \<Rightarrow> string option" where
  "canonical_number_text formatted =
     (case IndexByte formatted (CHR ''e'') of
        None \<Rightarrow> Some formatted
      | Some exponentAt \<Rightarrow>
        let mantissa = take exponentAt formatted; exponentText = drop (exponentAt + 1) formatted in
        (case Atoi exponentText of
           None \<Rightarrow> None
         | Some exponent \<Rightarrow>
           if - 6 \<le> exponent \<and> exponent < 21 then expandCanonicalDecimal mantissa exponent
           else Some (mantissa @ ''e'' @ canonicalExponent exponent)))"

subsection \<open>What a decimal text denotes\<close>

text \<open>\<open>dec_value\<close> is the number a text \<open>[-]digits[.digits]\<close> denotes.\<close>

definition dec_value :: "string \<Rightarrow> rat" where
  "dec_value s =
     (let neg = (s \<noteq> [] \<and> hd s = CHR ''-''); t = (if neg then tl s else s);
          a = takeWhile (\<lambda>c. c \<noteq> CHR ''.'') t; b = tl (dropWhile (\<lambda>c. c \<noteq> CHR ''.'') t);
          v = rat_of_nat (digits_value (a @ b)) / 10 ^ length b
      in if neg then - v else v)"

definition decimal :: "bool \<Rightarrow> string \<Rightarrow> string \<Rightarrow> string" where
  "decimal neg a b = (if neg then ''-'' else []) @ a @ (if b = [] then [] else CHR ''.'' # b)"

lemma dot_not_digit: "list_all is_digit s \<Longrightarrow> CHR ''.'' \<notin> set s"
  by (induction s) (auto simp: is_digit_def byte_of_def)

lemma minus_not_digit: "list_all is_digit s \<Longrightarrow> s \<noteq> [] \<Longrightarrow> hd s \<noteq> CHR ''-''"
  by (cases s) (auto simp: is_digit_def byte_of_def)

lemma dec_value_split:
  assumes "list_all is_digit a" "a \<noteq> []"
  shows "dec_value ((if neg then ''-'' else []) @ a) = (if neg then - 1 else 1) * rat_of_nat (digits_value a)"
    and "dec_value ((if neg then ''-'' else []) @ a @ CHR ''.'' # b) =
      (if neg then - 1 else 1) * (rat_of_nat (digits_value (a @ b)) / 10 ^ length b)"
proof -
  have a: "takeWhile (\<lambda>c. c \<noteq> CHR ''.'') a = a" "dropWhile (\<lambda>c. c \<noteq> CHR ''.'') a = []"
    "takeWhile (\<lambda>c. c \<noteq> CHR ''.'') (a @ CHR ''.'' # b) = a" "dropWhile (\<lambda>c. c \<noteq> CHR ''.'') (a @ CHR ''.'' # b) = CHR ''.'' # b"
    using dot_not_digit [OF assms(1)]
    by (auto simp: takeWhile_eq_all_conv dropWhile_eq_Nil_conv takeWhile_append dropWhile_append)
  have hd: "hd a \<noteq> CHR ''-''" "hd (a @ CHR ''.'' # b) \<noteq> CHR ''-''" using minus_not_digit [OF assms] assms(2) by simp_all
  show "dec_value ((if neg then ''-'' else []) @ a) = (if neg then - 1 else 1) * rat_of_nat (digits_value a)"
    using hd assms(2) by (simp add: dec_value_def Let_def a)
  show "dec_value ((if neg then ''-'' else []) @ a @ CHR ''.'' # b) =
      (if neg then - 1 else 1) * (rat_of_nat (digits_value (a @ b)) / 10 ^ length b)"
    using hd assms(2) by (simp add: dec_value_def Let_def a)
qed

lemma foldl_digits: "foldl (\<lambda>n c. n * 10 + (byte_of c - 48)) k s = k * 10 ^ length s + digits_value s"
proof (induction s rule: rev_induct)
  case (snoc c s)
  then show ?case by (simp add: digits_value_def algebra_simps)
qed (simp add: digits_value_def)

lemma digits_value_append: "digits_value (a @ b) = digits_value a * 10 ^ length b + digits_value b"
  unfolding digits_value_def [of "a @ b"] foldl_append by (simp add: foldl_digits)

lemma digits_value_zeros [simp]: "digits_value (replicate n (CHR ''0'')) = 0"
  by (induction n) (simp_all add: digits_value_def byte_of_def)

lemma digits_value_Cons_zero [simp]: "digits_value (CHR ''0'' # s) = digits_value s"
  by (simp add: digits_value_def byte_of_def)

lemma scale_powi: "int p = int q - e \<Longrightarrow> (x :: rat) / 10 ^ p = x / 10 ^ q * 10 powi e"
  by (simp add: power_int_diff flip: power_int_of_nat)

lemma scale_powi_mult: "int p = e - int q \<Longrightarrow> (x :: rat) * 10 ^ p = x / 10 ^ q * 10 powi e"
  by (simp add: power_int_diff flip: power_int_of_nat)

text \<open>The three shapes of the text.\<close>

lemma expand_decimal_text:
  fixes neg :: bool
  assumes a: "list_all is_digit a" "a \<noteq> []" and b: "list_all is_digit b" and n: "n = int (length a) + e"
  defines "sign \<equiv> if neg then ''-'' else []"
  shows "expandCanonicalDecimal (decimal neg a b) e =
      Some (if n \<le> 0 then sign @ ''0.'' @ replicate (nat (- n)) (CHR ''0'') @ a @ b
            else if int (length (a @ b)) \<le> n then sign @ (a @ b) @ replicate (nat (n - int (length (a @ b)))) (CHR ''0'')
            else sign @ take (nat n) (a @ b) @ ''.'' @ drop (nat n) (a @ b))"
proof -
  let ?m = "a @ (if b = [] then [] else CHR ''.'' # b)"
  have da: "CHR ''.'' \<notin> set a" and db: "CHR ''.'' \<notin> set b" using dot_not_digit a b by blast+
  have hd: "hd ?m \<noteq> CHR ''-''" "?m \<noteq> []" using minus_not_digit [OF a] a(2) by (cases a; simp)+
  have idx: "(case IndexByte ?m (CHR ''.'') of None \<Rightarrow> length ?m | Some i \<Rightarrow> i) = length a"
    using da by (auto simp: IndexByte_def takeWhile_append)
  have "filter (\<lambda>c. c \<noteq> CHR ''.'') a = a" "filter (\<lambda>c. c \<noteq> CHR ''.'') b = b"
    using da db by (auto simp: filter_id_conv)
  then have digits: "filter (\<lambda>c. c \<noteq> CHR ''.'') ?m = a @ b" by simp
  show ?thesis
    using hd idx digits
    by (cases neg) (simp_all add: expandCanonicalDecimal_def decimal_def sign_def n Let_def del: filter_append)
qed

text \<open>Writing a mantissa out with its exponent does not change the number.\<close>

lemma expand_decimal:
  assumes a: "list_all is_digit a" "a \<noteq> []" and b: "list_all is_digit b"
  shows "\<exists>t. expandCanonicalDecimal (decimal neg a b) e = Some t
    \<and> dec_value t = dec_value (decimal neg a b) * 10 powi e"
proof -
  define sign where "sign = (if neg then ''-'' else [])"
  define sg :: rat where "sg = (if neg then - 1 else 1)"
  define n where "n = int (length a) + e"
  let ?d = "a @ b"
  note exp = expand_decimal_text [OF a b n_def, of neg, folded sign_def]
  have d: "list_all is_digit ?d" "?d \<noteq> []" using a b by auto
  have val: "dec_value (decimal neg a b) = sg * (rat_of_nat (digits_value ?d) / 10 ^ length b)"
    using dec_value_split [OF a, of neg] by (auto simp: decimal_def sg_def)
  consider "n \<le> 0" | "0 < n" "int (length ?d) \<le> n" | "0 < n" "n < int (length ?d)" by linarith
  then show ?thesis
  proof cases
    case 1
    have "dec_value (sign @ ''0'' @ CHR ''.'' # (replicate (nat (- n)) (CHR ''0'') @ ?d)) =
        sg * (rat_of_nat (digits_value ?d) / 10 ^ (nat (- n) + length ?d))"
      using dec_value_split(2) [of "''0''" neg] digits_value_append [of "replicate (nat (- n)) (CHR ''0'')" ?d]
      by (simp add: sign_def sg_def is_digit_def byte_of_def)
    also have "\<dots> = dec_value (decimal neg a b) * 10 powi e"
      using scale_powi [of "nat (- n) + length ?d" "length b" e] 1 by (simp add: val n_def)
    finally show ?thesis using 1 by (simp add: exp)
  next
    case 2
    define z where "z = replicate (nat (n - int (length ?d))) (CHR ''0'')"
    have z: "list_all is_digit (?d @ z)" "?d @ z \<noteq> []"
      using d by (auto simp: z_def list_all_iff is_digit_def byte_of_def)
    have "digits_value (?d @ z) = digits_value ?d * 10 ^ nat (n - int (length ?d))"
      using digits_value_append [of ?d z] by (simp add: z_def)
    then have "dec_value (sign @ ?d @ z) = sg * (rat_of_nat (digits_value ?d) * 10 ^ nat (n - int (length ?d)))"
      using dec_value_split(1) [OF z, of neg] by (cases neg) (simp_all add: sign_def sg_def)
    also have "\<dots> = dec_value (decimal neg a b) * 10 powi e"
      using scale_powi_mult [of "nat (n - int (length ?d))" e "length b"] 2 by (simp add: val n_def)
    finally show ?thesis using 2 by (simp add: exp z_def)
  next
    case 3
    have t: "list_all is_digit (take (nat n) ?d)" "take (nat n) ?d \<noteq> []"
      using d 3 by (auto simp: list_all_iff dest: in_set_takeD)
    have "dec_value (sign @ take (nat n) ?d @ CHR ''.'' # drop (nat n) ?d) =
        sg * (rat_of_nat (digits_value ?d) / 10 ^ (length ?d - nat n))"
      using dec_value_split(2) [OF t, of neg "drop (nat n) ?d"] by (simp only: sign_def sg_def append_take_drop_id length_drop)
    also have "\<dots> = dec_value (decimal neg a b) * 10 powi e"
      using scale_powi [of "length ?d - nat n" "length b" e] 3 by (simp add: val n_def)
    finally show ?thesis using 3 by (simp add: exp)
  qed
qed

end
