(* ===== verification/Canonical_Parse.thy ===== *)
theory Canonical_Parse
  imports Canonical_JSON_Facts
begin

section \<open>Reading canonical JSON back\<close>

text \<open>
  The store decodes the canonical texts it wrote with \<open>encoding/json\<close> and then compares the canonical
  encoding of what it decoded with the stored text, answering both a decoding failure and a difference with
  the same corrupt-record error.  So only texts in canonical form matter, and the decoder is modelled on
  those: no white space, the escapes of the encoder, integers.  The fuel of the recursion is the length of
  the text, and every value consumes at least one byte.
\<close>

subsection \<open>The reader\<close>

lemma unescape_shorter: "unescape s = Some (c, r) \<Longrightarrow> length r < length s"
  by (induction s rule: unescape.induct) (auto split: if_splits list.splits)

text \<open>The rest of a string after its opening quote.\<close>

function parse_string :: "string \<Rightarrow> (string \<times> string) option" where
  "parse_string s =
     (case s of
        [] \<Rightarrow> None
      | q # r \<Rightarrow> if q = chr 0x22 then Some ([], r)
          else (case unescape s of
                  None \<Rightarrow> None
                | Some (c, r) \<Rightarrow> (case parse_string r of None \<Rightarrow> None | Some (t, r) \<Rightarrow> Some (c # t, r))))"
  by pat_completeness auto
termination
  by (relation "measure length") (auto dest: unescape_shorter)

declare parse_string.simps [simp del]

definition parse_nat :: "string \<Rightarrow> (nat \<times> string) option" where
  "parse_nat s = (let d = takeWhile is_digit s in if d = [] then None else Some (digits_value d, dropWhile is_digit s))"

definition parse_int :: "string \<Rightarrow> (int \<times> string) option" where
  "parse_int s =
     (case s of
        [] \<Rightarrow> None
      | c # r \<Rightarrow> if c = CHR ''-'' then map_option (\<lambda>(n, r). (- int n, r)) (parse_nat r)
          else map_option (\<lambda>(n, r). (int n, r)) (parse_nat s))"

text \<open>A literal word.\<close>

definition parse_word :: "string \<Rightarrow> json \<Rightarrow> string \<Rightarrow> (json \<times> string) option" where
  "parse_word w v s = (if take (length w) s = w then Some (v, drop (length w) s) else None)"

fun parse_value :: "nat \<Rightarrow> string \<Rightarrow> (json \<times> string) option"
  and parse_elements :: "nat \<Rightarrow> string \<Rightarrow> (json list \<times> string) option"
  and parse_members :: "nat \<Rightarrow> string \<Rightarrow> ((string \<times> json) list \<times> string) option" where
  "parse_value 0 s = None"
| "parse_value (Suc n) [] = None"
| "parse_value (Suc n) (c # r) =
     (if c = CHR ''n'' then parse_word ''null'' JNull (c # r)
      else if c = CHR ''t'' then parse_word ''true'' (JBool True) (c # r)
      else if c = CHR ''f'' then parse_word ''false'' (JBool False) (c # r)
      else if c = chr 0x22 then map_option (\<lambda>(t, r). (JStr t, r)) (parse_string r)
      else if c = CHR ''['' then
        (if take 1 r = '']'' then Some (JArr [], drop 1 r)
         else map_option (\<lambda>(vs, r). (JArr vs, r)) (parse_elements n r))
      else if c = CHR ''{'' then
        (if take 1 r = ''}'' then Some (JObj [], drop 1 r)
         else map_option (\<lambda>(kvs, r). (JObj kvs, r)) (parse_members n r))
      else map_option (\<lambda>(k, r). (JInt k, r)) (parse_int (c # r)))"
| "parse_elements 0 s = None"
| "parse_elements (Suc n) s =
     (case parse_value n s of
        None \<Rightarrow> None
      | Some (v, []) \<Rightarrow> None
      | Some (v, c # r) \<Rightarrow>
          if c = CHR '','' then map_option (\<lambda>(vs, r). (v # vs, r)) (parse_elements n r)
          else if c = CHR '']'' then Some ([v], r) else None)"
| "parse_members 0 s = None"
| "parse_members (Suc n) s =
     (case s of
        [] \<Rightarrow> None
      | q # s \<Rightarrow> if q \<noteq> chr 0x22 then None
          else (case parse_string s of
             None \<Rightarrow> None
           | Some (k, []) \<Rightarrow> None
           | Some (k, d # s) \<Rightarrow> if d \<noteq> CHR '':'' then None
               else (case parse_value n s of
                  None \<Rightarrow> None
                | Some (v, []) \<Rightarrow> None
                | Some (v, c # r) \<Rightarrow>
                    if c = CHR '','' then map_option (\<lambda>(kvs, r). ((k, v) # kvs, r)) (parse_members n r)
                    else if c = CHR ''}'' then Some ([(k, v)], r) else None)))"

definition decodeJSON :: "string \<Rightarrow> json option" where
  "decodeJSON s = (case parse_value (2 * length s) s of Some (v, []) \<Rightarrow> Some v | _ \<Rightarrow> None)"

subsection \<open>Strings and numbers\<close>

lemma parse_quoted: "parse_string (concat (map escape_byte s) @ chr 0x22 # r) = Some (s, r)"
proof (induction s)
  case Nil
  then show ?case by (subst parse_string.simps) simp
next
  case (Cons c s)
  let ?t = "escape_byte c @ concat (map escape_byte s) @ chr 0x22 # r"
  have "?t \<noteq> []" by simp
  then obtain q u where q: "?t = q # u" by (cases ?t) auto
  have "q \<noteq> chr 0x22" using escape_byte_neq_quote [of c] q by metis
  moreover have "unescape (q # u) = Some (c, concat (map escape_byte s) @ chr 0x22 # r)"
    using unescape_escape [of c "concat (map escape_byte s) @ chr 0x22 # r"] q by simp
  ultimately have "parse_string (q # u) = Some (c # s, r)"
    by (subst parse_string.simps) (simp add: Cons.IH)
  then show ?case using q by simp
qed

lemma parse_nat_text:
  assumes "no_digit r"
  shows "parse_nat (nat_text n @ r) = Some (n, r)"
proof -
  have d: "list_all is_digit (nat_text n)" "nat_text n \<noteq> []" "digits_value (nat_text n) = n" using nat_text_digits by auto
  have "takeWhile is_digit (nat_text n @ r) = nat_text n" by (rule takeWhile_digits [OF d(1) assms])
  moreover from this have "dropWhile is_digit (nat_text n @ r) = r" by (metis append_eq_append_conv takeWhile_dropWhile_id same_append_eq)
  ultimately show ?thesis using d by (simp add: parse_nat_def)
qed

lemma parse_FormatInt:
  assumes "no_digit r"
  shows "parse_int (FormatInt k @ r) = Some (k, r)"
proof (cases "k < 0")
  case True
  then show ?thesis using parse_nat_text [OF assms] by (simp add: FormatInt_def parse_int_def)
next
  case False
  obtain c u where c: "nat_text (nat k) = c # u" "is_digit c"
    using nat_text_digits [of "nat k"] by (cases "nat_text (nat k)") auto
  then have "c \<noteq> CHR ''-''" using not_digit_minus by metis
  then show ?thesis using parse_nat_text [OF assms, of "nat k"] c False by (simp add: FormatInt_def parse_int_def)
qed

subsection \<open>Values\<close>

definition reads :: "json \<Rightarrow> bool" where
  "reads v \<longleftrightarrow> (\<forall>n r. 2 * length (enc v) \<le> n \<longrightarrow> no_digit r \<longrightarrow> parse_value n (enc v @ r) = Some (v, r))"

lemma readsD: "reads v \<Longrightarrow> 2 * length (enc v) \<le> n \<Longrightarrow> no_digit r \<Longrightarrow> parse_value n (enc v @ r) = Some (v, r)"
  by (simp add: reads_def)

lemma parse_elements_enc:
  assumes "list_all reads (v # vs)" "2 * length (join_commas (map enc (v # vs))) < n"
  shows "parse_elements n (join_commas (map enc (v # vs)) @ CHR '']'' # r) = Some (v # vs, r)"
  using assms
proof (induction vs arbitrary: v n)
  case Nil
  then obtain m where m: "n = Suc m" by (cases n) auto
  have "parse_value m (enc v @ CHR '']'' # r) = Some (v, CHR '']'' # r)"
    using Nil m by (intro readsD) (auto simp: no_digit_sep closer_def)
  then show ?case by (simp add: m)
next
  case (Cons w vs)
  then obtain m where m: "n = Suc m" by (cases n) auto
  have "parse_value m (enc v @ CHR '','' # join_commas (map enc (w # vs)) @ CHR '']'' # r) =
      Some (v, CHR '','' # join_commas (map enc (w # vs)) @ CHR '']'' # r)"
    using Cons.prems m by (intro readsD) (auto simp: no_digit_sep)
  moreover have "parse_elements m (join_commas (map enc (w # vs)) @ CHR '']'' # r) = Some (w # vs, r)"
    using Cons.prems m by (intro Cons.IH) auto
  ultimately show ?case by (simp add: m)
qed

lemma parse_members_enc:
  assumes "list_all (\<lambda>kv. reads (snd kv)) (kv # kvs)" "2 * length (join_commas (map enc_entry (kv # kvs))) < n"
  shows "parse_members n (join_commas (map enc_entry (kv # kvs)) @ CHR ''}'' # r) = Some (kv # kvs, r)"
  using assms
proof (induction kvs arbitrary: kv n)
  case Nil
  then obtain m where m: "n = Suc m" by (cases n) auto
  have "parse_value m (enc (snd kv) @ CHR ''}'' # r) = Some (snd kv, CHR ''}'' # r)"
    using Nil m by (intro readsD) (auto simp: no_digit_sep closer_def enc_entry_def)
  then show ?case using parse_quoted [of "fst kv" "CHR '':'' # enc (snd kv) @ CHR ''}'' # r"]
    by (simp add: m enc_entry_def quoted_def)
next
  case (Cons kw kvs)
  then obtain m where m: "n = Suc m" by (cases n) auto
  define rest where "rest = join_commas (map enc_entry (kw # kvs)) @ CHR ''}'' # r"
  have "parse_value m (enc (snd kv) @ CHR '','' # rest) = Some (snd kv, CHR '','' # rest)"
    using Cons.prems m by (intro readsD) (auto simp: no_digit_sep enc_entry_def)
  moreover have "parse_members m rest = Some (kw # kvs, r)"
    unfolding rest_def using Cons.prems m by (intro Cons.IH) auto
  moreover have "join_commas (map enc_entry (kv # kw # kvs)) @ CHR ''}'' # r =
      chr 0x22 # concat (map escape_byte (fst kv)) @ chr 0x22 # CHR '':'' # enc (snd kv) @ CHR '','' # rest"
    by (simp add: rest_def enc_entry_def [of kv] quoted_def [of "fst kv"])
  ultimately show ?case using parse_quoted [of "fst kv" "CHR '':'' # enc (snd kv) @ CHR '','' # rest"]
    by (simp add: m)
qed

lemma enc_nonempty: "enc v \<noteq> []"
  using enc_first by blast

lemma readsI:
  assumes "\<And>m r. parse_value (Suc m) (enc v @ r) = Some (v, r)"
  shows "reads v"
  unfolding reads_def
proof (intro allI impI)
  fix n r assume "2 * length (enc v) \<le> n"
  then obtain m where "n = Suc m" using enc_nonempty [of v] by (cases n) auto
  then show "parse_value n (enc v @ r) = Some (v, r)" using assms by simp
qed

lemma parse_atom:
  assumes "c \<notin> {CHR ''n'', CHR ''t'', CHR ''f'', chr 0x22, CHR ''['', CHR ''{''}" "parse_int (c # r) = Some (k, r')"
  shows "parse_value (Suc n) (c # r) = Some (JInt k, r')"
  using assms by simp

lemma reads_enc: "reads v"
proof (induction v)
  case (JInt k)
  show ?case unfolding reads_def
  proof (intro allI impI)
    fix n r assume n: "2 * length (enc (JInt k)) \<le> n" and r: "no_digit r"
    obtain c cs where c: "FormatInt k = c # cs" "c = CHR ''-'' \<or> is_digit c" using FormatInt_hd by blast
    then obtain m where m: "n = Suc m" using n by (cases n) auto
    have "c \<notin> {CHR ''n'', CHR ''t'', CHR ''f'', chr 0x22, CHR ''['', CHR ''{''}"
      using c(2) by (auto simp: is_digit_def chr_quote byte_of_def)
    moreover have "parse_int (c # cs @ r) = Some (k, r)" using parse_FormatInt [OF r, of k] c(1) by simp
    ultimately have "parse_value (Suc m) (c # cs @ r) = Some (JInt k, r)" by (rule parse_atom)
    then show "parse_value n (enc (JInt k) @ r) = Some (JInt k, r)" by (simp only: enc.simps c(1) append_Cons m)
  qed
next
  case (JStr t)
  show ?case unfolding reads_def
  proof (intro allI impI)
    fix n r assume "2 * length (enc (JStr t)) \<le> n"
    then obtain m where "n = Suc m" by (cases n) (auto simp: quoted_def)
    then show "parse_value n (enc (JStr t) @ r) = Some (JStr t, r)"
      using parse_quoted [of t r] by (simp add: quoted_def chr_quote)
  qed
next
  case (JArr vs)
  show ?case unfolding reads_def
  proof (intro allI impI)
    fix n r assume n: "2 * length (enc (JArr vs)) \<le> n"
    then obtain m where m: "n = Suc m" by (cases n) auto
    show "parse_value n (enc (JArr vs) @ r) = Some (JArr vs, r)"
    proof (cases vs)
      case (Cons v ws)
      let ?t = "join_commas (map enc (v # ws))"
      obtain e es where e: "enc v = e # es" using enc_nonempty by (meson neq_Nil_conv)
      then have "e \<noteq> CHR '']''" using enc_not_closer [of "CHR '']''" v "[]" es] by (simp add: closer_def)
      then have "take 1 (?t @ CHR '']'' # r) \<noteq> '']''" by (simp add: join_commas_Cons e)
      moreover have "parse_elements m (?t @ CHR '']'' # r) = Some (v # ws, r)"
        by (rule parse_elements_enc) (use JArr n m Cons in \<open>auto simp: list_all_iff\<close>)
      ultimately show ?thesis by (simp add: m Cons chr_quote del: join_commas.simps)
    qed (simp add: m chr_quote)
  qed
next
  case (JObj kvs)
  have all: "reads (snd kv)" if "kv \<in> set kvs" for kv using JObj that by (metis prod_set_simps(2) prod.collapse insertI1)
  show ?case unfolding reads_def
  proof (intro allI impI)
    fix n r assume n: "2 * length (enc (JObj kvs)) \<le> n"
    then obtain m where m: "n = Suc m" by (cases n) auto
    show "parse_value n (enc (JObj kvs) @ r) = Some (JObj kvs, r)"
    proof (cases kvs)
      case (Cons kv kws)
      let ?t = "join_commas (map enc_entry (kv # kws))"
      have "take 1 (?t @ CHR ''}'' # r) \<noteq> ''}''"
        by (simp add: join_commas_Cons enc_entry_def quoted_def chr_quote)
      moreover have "parse_members m (?t @ CHR ''}'' # r) = Some (kv # kws, r)"
        by (rule parse_members_enc) (use all n m Cons enc_obj [of kvs] in \<open>simp_all add: list_all_iff\<close>)
      ultimately show ?thesis unfolding enc_obj by (simp add: m Cons chr_quote del: join_commas.simps)
    qed (simp add: m chr_quote)
  qed
qed (auto intro!: readsI simp: parse_word_def)

lemma decodeJSON_enc: "decodeJSON (enc v) = Some v"
  using readsD [OF reads_enc, of v "2 * length (enc v)" "[]"] by (simp add: decodeJSON_def no_digit_def)

text \<open>The canonical form is its own canonical form, so a decoded text encodes to itself.\<close>

lemma canon_canon: "canon (canon v) = canon v"
proof (induction v)
  case (JObj kvs)
  let ?k = "utf16_encode \<circ> fst" and ?f = "\<lambda>kv. (fst kv, canon (snd kv))"
  have "map ?f (sort_key ?k (map ?f kvs)) = sort_key ?k (map ?f kvs)"
    using JObj by (intro map_idI) (auto simp: snds.simps)
  then show ?case by (simp add: sort_key_id_if_sorted)
qed (auto simp: comp_def)

lemma json_ok_canon: "json_ok v \<Longrightarrow> json_ok (canon v)"
proof (induction v)
  case (JObj kvs)
  then show ?case by (auto simp: list_all_iff snds.simps)
qed (auto simp: list_all_iff)

end
