(* ===== verification/JSON_Properties.thy ===== *)
theory JSON_Properties
  imports Canonical_Number Canonical_Parse
begin

section \<open>Properties of canonical JSON\<close>

text \<open>
  What the hashing of the store relies on: the encoder agrees with a direct reference encoder, its
  texts are unambiguous and can be read back, they do not depend on the order in which Go enumerates a map, and the
  decimal layout of numbers keeps their value.
\<close>

lemma canonicalJSON_Inr: "canonicalJSON v = Inr t \<longleftrightarrow> json_ok v \<and> enc (canon v) = t"
  by (auto simp: canonicalJSON_eq)

text \<open>C9: The recursive encoder of the code, which escapes rune by rune, sorts the keys of each
  object with \<open>compareUTF16\<close> and stops at the first bad string, computes exactly the reference text
  of the canonical form, and fails exactly on values that contain a string that is not UTF-8.\<close>

theorem canonicalJSON_reference:
  "canonicalJSON v =
     (if json_ok v then Inr (enc (canon v)) else Inl ''canonical JSON string is not valid UTF-8'')"
  by (rule canonicalJSON_eq)

text \<open>C23: A canonical text is unambiguous: two values with the same text have the same canonical
  form, that is, they differ at most in the order of object members.\<close>

theorem canonicalJSON_unambiguous:
  assumes "canonicalJSON v = Inr t"
  shows "canonicalJSON w = Inr t \<longleftrightarrow> json_ok w \<and> canon w = canon v"
  using assms enc_inject [of "canon w" "canon v"] by (auto simp: canonicalJSON_Inr)

theorem canonicalJSON_unambiguous_witness:
  "canonicalJSON (JArr [JInt 7, JStr ''ok'', JNull]) = Inr (enc (JArr [JInt 7, JStr ''ok'', JNull]))
   \<and> canonicalJSON (JArr [JInt 7, JNull]) \<noteq> Inr (enc (JArr [JInt 7, JStr ''ok'', JNull]))"
proof -
  have ok: "canonicalJSON (JArr [JInt 7, JStr ''ok'', JNull]) = Inr (enc (JArr [JInt 7, JStr ''ok'', JNull]))"
    by (simp add: canonicalJSON_eq ValidString_ascii byte_of_def)
  show ?thesis using ok canonicalJSON_unambiguous [OF ok, of "JArr [JInt 7, JNull]"] by simp
qed

text \<open>C24: A canonical text can be read back: it decodes to the canonical form of the value, and encoding
  what was decoded gives the very text, which is the comparison the store makes on every stored text.\<close>

theorem canonical_text_decodes:
  assumes "canonicalJSON v = Inr t"
  shows "decodeJSON t = Some (canon v) \<and> canonicalJSON (canon v) = Inr t"
  using assms by (auto simp: canonicalJSON_Inr decodeJSON_enc canon_canon json_ok_canon)

theorem canonical_text_decodes_witness:
  "decodeJSON (enc (JArr [JInt 7, JStr ''ok'', JNull])) = Some (JArr [JInt 7, JStr ''ok'', JNull])
   \<and> canonicalJSON (JArr [JInt 7, JStr ''ok'', JNull]) = Inr (enc (JArr [JInt 7, JStr ''ok'', JNull]))"
proof -
  have ok: "canonicalJSON (JArr [JInt 7, JStr ''ok'', JNull]) = Inr (enc (JArr [JInt 7, JStr ''ok'', JNull]))"
    by (simp add: canonicalJSON_eq ValidString_ascii byte_of_def)
  show ?thesis using canonical_text_decodes [OF ok] by simp
qed

text \<open>The order in which the entries of a map are enumerated does not change the result, error
  or text, of encoding it.\<close>

theorem map_order_irrelevant:
  assumes "mset kvs = mset kws" "distinct (map fst kvs)"
  shows "canonicalJSON (JObj kvs) = canonicalJSON (JObj kws)"
  by (rule canonical_map_order [OF assms])

theorem map_order_irrelevant_witness:
  "canonicalJSON (JObj [(''b'', JInt 1), (''a'', JNull)]) = canonicalJSON (JObj [(''a'', JNull), (''b'', JInt 1)])"
  by (rule map_order_irrelevant) (simp_all add: add_mset_commute)

text \<open>Laying a decimal mantissa out with its exponent, in each of the three shapes of
  \<open>expandCanonicalDecimal\<close>, yields a text that denotes the same number.\<close>

theorem expandCanonicalDecimal_value:
  assumes "list_all is_digit a" "a \<noteq> []" "list_all is_digit b"
  shows "\<exists>t. expandCanonicalDecimal (decimal neg a b) e = Some t
    \<and> dec_value t = dec_value (decimal neg a b) * 10 powi e"
  by (rule expand_decimal [OF assms])

theorem expandCanonicalDecimal_value_witness:
  "\<exists>t. expandCanonicalDecimal ''-1.25'' 2 = Some t \<and> dec_value t = dec_value ''-1.25'' * 10 powi 2"
  using expandCanonicalDecimal_value [of "''1''" "''25''" True 2] by (simp add: decimal_def is_digit_def byte_of_def)

end
