(* ===== verification/Proposal_Types.thy ===== *)
theory Proposal_Types
  imports Canonical_JSON
begin

section \<open>Proposals: records, canonical bodies and validation\<close>

text \<open>
  The data of \<^verbatim>\<open>src/internal/store/proposals.go\<close>: proposals, their immutable revisions, the
  lifecycle and approval paired with each revision, the request bodies and their canonical JSON
  values, and the validators.
\<close>

datatype proposal_error =
    ErrProposalNotFound
  | ErrRevisionNotFound
  | ErrApprovalNotFound
  | ErrProposalConflict
  | ErrRevisionConflict
  | ErrApprovalConflict
  | ErrIdempotencyConflict
  | ErrProposalRecordCorrupt
  | ErrProposalConstraint
  | ErrProposalMsg string

datatype ProposalState = ProposalStateOpen | ProposalStateApproved | ProposalStateWithdrawn

datatype RevisionLifecycleState =
    RevisionLifecycleStatePending
  | RevisionLifecycleStateApproved
  | RevisionLifecycleStateRejected
  | RevisionLifecycleStateSuperseded
  | RevisionLifecycleStateWithdrawn
  | RevisionLifecycleStateOther string

datatype ApprovalState =
    ApprovalStatePending
  | ApprovalStateApproved
  | ApprovalStateRejected
  | ApprovalStateSuperseded
  | ApprovalStateWithdrawn
  | ApprovalStateOther string

text \<open>The conversion \<open>RevisionLifecycleState(approvalState)\<close>, and \<open>string(decision)\<close>.\<close>

fun toLifecycle :: "ApprovalState \<Rightarrow> RevisionLifecycleState" where
  "toLifecycle ApprovalStatePending = RevisionLifecycleStatePending"
| "toLifecycle ApprovalStateApproved = RevisionLifecycleStateApproved"
| "toLifecycle ApprovalStateRejected = RevisionLifecycleStateRejected"
| "toLifecycle ApprovalStateSuperseded = RevisionLifecycleStateSuperseded"
| "toLifecycle ApprovalStateWithdrawn = RevisionLifecycleStateWithdrawn"
| "toLifecycle (ApprovalStateOther s) = RevisionLifecycleStateOther s"

fun approval_text :: "ApprovalState \<Rightarrow> string" where
  "approval_text ApprovalStatePending = ''pending''"
| "approval_text ApprovalStateApproved = ''approved''"
| "approval_text ApprovalStateRejected = ''rejected''"
| "approval_text ApprovalStateSuperseded = ''superseded''"
| "approval_text ApprovalStateWithdrawn = ''withdrawn''"
| "approval_text (ApprovalStateOther s) = s"

definition localGUIOperator :: string where
  "localGUIOperator = ''local_gui_operator''"

subsection \<open>Records\<close>

record Proposal =
  pr_ProposalID :: string
  pr_ProjectID :: string
  pr_WorkstreamID :: string
  pr_CreatedAt :: stamp
  pr_CreatedBy :: string
  pr_State :: ProposalState
  pr_CurrentRevision :: int
  pr_CurrentRevisionHash :: string

record ProposalTask =
  ta_Title :: string
  ta_Instructions :: string

record ProposalAdapterPolicy =
  ad_Access :: string
  ad_Kind :: string
  ad_Status :: string

record ProposalBudgetPolicy =
  bu_Dimensions :: "string list"
  bu_Status :: string

record ProposalPolicy =
  po_Adapter :: ProposalAdapterPolicy
  po_Authority :: string
  po_Budget :: ProposalBudgetPolicy
  po_ModelRole :: string

record RevisionInput =
  in_Task :: ProposalTask
  in_AcceptanceCriteria :: "string list"
  in_Policy :: ProposalPolicy

record Revision =
  re_SchemaVersion :: string
  re_ProposalID :: string
  re_Revision :: int
  re_ParentRevision :: "int option"
  re_ParentRevisionHash :: "string option"
  re_CreatedAt :: stamp
  re_CreatedBy :: string
  re_IdempotencyKey :: string
  re_Task :: ProposalTask
  re_AcceptanceCriteria :: "string list"
  re_Policy :: ProposalPolicy

text \<open>A row of \<open>task_proposal_revisions\<close>.\<close>

record RevisionRow =
  rv_ProposalID :: string
  rv_Revision :: int
  rv_RevisionHash :: string
  rv_Snapshot :: string

record RevisionLifecycle =
  lc_ProposalID :: string
  lc_Revision :: int
  lc_RevisionHash :: string
  lc_ApprovalID :: string
  lc_State :: RevisionLifecycleState
  lc_CreatedAt :: stamp
  lc_UpdatedAt :: stamp
  lc_Version :: int

record Approval =
  ap_ApprovalID :: string
  ap_ProposalID :: string
  ap_Revision :: int
  ap_RevisionHash :: string
  ap_CreatedAt :: stamp
  ap_CreatedBy :: string
  ap_State :: ApprovalState
  ap_DecidedAt :: "stamp option"
  ap_DecidedBy :: "string option"
  ap_DecisionIdempotencyKey :: "string option"
  ap_Reason :: "string option"

record ProposalActivity =
  ac_ProposalID :: string
  ac_Sequence :: int
  ac_Operation :: string
  ac_Revision :: int
  ac_RevisionHash :: string
  ac_ApprovalID :: string
  ac_WrittenAt :: stamp

record ProposalMutation =
  mu_ProposalID :: string
  mu_Revision :: int
  mu_RevisionHash :: string
  mu_ApprovalID :: string

text \<open>A row of \<open>task_proposal_idempotency\<close>.\<close>

record IdempotencyRow =
  im_Actor :: string
  im_Operation :: string
  im_Resource :: string
  im_Key :: string
  im_BodyHash :: string
  im_Result :: ProposalMutation

record CreateProposalRequest =
  cr_IdempotencyKey :: string
  cr_ProjectID :: string
  cr_WorkstreamID :: string
  cr_RevisionInput :: RevisionInput

record AppendProposalRevisionRequest =
  ar_IdempotencyKey :: string
  ar_ProposalID :: string
  ar_ExpectedCurrentRevision :: int
  ar_ExpectedCurrentRevisionHash :: string
  ar_RevisionInput :: RevisionInput

record DecideProposalApprovalRequest =
  dr_IdempotencyKey :: string
  dr_ApprovalID :: string
  dr_ProposalID :: string
  dr_Revision :: int
  dr_RevisionHash :: string
  dr_Decision :: ApprovalState
  dr_Reason :: string

record WithdrawProposalRequest =
  wr_IdempotencyKey :: string
  wr_ProposalID :: string

subsection \<open>Canonical values\<close>

definition jstrings :: "string list \<Rightarrow> json" where
  "jstrings xs = JArr (map JStr xs)"

definition policy_value :: "ProposalPolicy \<Rightarrow> json" where
  "policy_value p = JObj
     [(''adapter'', JObj [(''access'', JStr (ad_Access (po_Adapter p))), (''kind'', JStr (ad_Kind (po_Adapter p))),
        (''status'', JStr (ad_Status (po_Adapter p)))]),
      (''authority'', JStr (po_Authority p)),
      (''budget'', JObj [(''dimensions'', jstrings (bu_Dimensions (po_Budget p))),
        (''status'', JStr (bu_Status (po_Budget p)))]),
      (''model_role'', JStr (po_ModelRole p))]"

definition task_value :: "ProposalTask \<Rightarrow> json" where
  "task_value t = JObj [(''instructions'', JStr (ta_Instructions t)), (''title'', JStr (ta_Title t))]"

definition revisionInputCanonicalValue :: "RevisionInput \<Rightarrow> json" where
  "revisionInputCanonicalValue i = JObj
     [(''acceptance_criteria'', jstrings (in_AcceptanceCriteria i)),
      (''policy'', policy_value (in_Policy i)),
      (''task'', task_value (in_Task i))]"

definition createRequestBody :: "CreateProposalRequest \<Rightarrow> json" where
  "createRequestBody r = JObj
     [(''project_id'', JStr (cr_ProjectID r)),
      (''revision_input'', revisionInputCanonicalValue (cr_RevisionInput r)),
      (''schema_version'', JStr ''ananke.proposal.create-request.v1''),
      (''workstream_id'', JStr (cr_WorkstreamID r))]"

definition appendRevisionRequestBody :: "AppendProposalRevisionRequest \<Rightarrow> json" where
  "appendRevisionRequestBody r = JObj
     [(''expected_current_revision'', JInt (ar_ExpectedCurrentRevision r)),
      (''expected_current_revision_hash'', JStr (ar_ExpectedCurrentRevisionHash r)),
      (''proposal_id'', JStr (ar_ProposalID r)),
      (''revision_input'', revisionInputCanonicalValue (ar_RevisionInput r)),
      (''schema_version'', JStr ''ananke.proposal.append-request.v1'')]"

definition decisionRequestBody :: "DecideProposalApprovalRequest \<Rightarrow> json" where
  "decisionRequestBody r = JObj
     [(''approval_id'', JStr (dr_ApprovalID r)),
      (''decision'', JStr (approval_text (dr_Decision r))),
      (''proposal_id'', JStr (dr_ProposalID r)),
      (''reason'', JStr (dr_Reason r)),
      (''revision'', JInt (dr_Revision r)),
      (''revision_hash'', JStr (dr_RevisionHash r)),
      (''schema_version'', JStr ''ananke.proposal.decision-request.v1'')]"

definition withdrawProposalRequestBody :: "WithdrawProposalRequest \<Rightarrow> json" where
  "withdrawProposalRequestBody r = JObj
     [(''proposal_id'', JStr (wr_ProposalID r)),
      (''schema_version'', JStr ''ananke.proposal.withdraw-request.v1'')]"

fun joption :: "('a \<Rightarrow> json) \<Rightarrow> 'a option \<Rightarrow> json" where
  "joption f None = JNull"
| "joption f (Some x) = f x"

definition revision_value :: "Revision \<Rightarrow> json" where
  "revision_value r = JObj
     [(''acceptance_criteria'', jstrings (re_AcceptanceCriteria r)),
      (''created_at'', JStr (stamp_text (re_CreatedAt r))),
      (''created_by'', JStr (re_CreatedBy r)),
      (''idempotency_key'', JStr (re_IdempotencyKey r)),
      (''parent_revision'', joption JInt (re_ParentRevision r)),
      (''parent_revision_hash'', joption JStr (re_ParentRevisionHash r)),
      (''policy'', policy_value (re_Policy r)),
      (''proposal_id'', JStr (re_ProposalID r)),
      (''revision'', JInt (re_Revision r)),
      (''schema_version'', JStr (re_SchemaVersion r)),
      (''task'', task_value (re_Task r))]"

text \<open>The snapshot bytes and their hash.\<close>

definition canonicalRevisionSnapshot :: "Revision \<Rightarrow> string + string \<times> string" where
  "canonicalRevisionSnapshot r =
     andThen (canonicalJSON (revision_value r)) (\<lambda>snapshot.
     andThen (canonicalJSONHash (revision_value r)) (\<lambda>hash. Inr (snapshot, hash)))"

subsection \<open>Validation\<close>

definition ident_char :: "char \<Rightarrow> bool" where
  "ident_char c \<longleftrightarrow> is_lower c \<or> is_digit c \<or> c = CHR ''_''"

text \<open>The patterns \<open>^[a-z][a-z0-9_]{2,n}$\<close>.\<close>

definition ident_pattern :: "nat \<Rightarrow> string \<Rightarrow> bool" where
  "ident_pattern n s \<longleftrightarrow>
     (case s of [] \<Rightarrow> False | c # r \<Rightarrow> is_lower c \<and> 2 \<le> length r \<and> length r \<le> n \<and> list_all ident_char r)"

definition validateIdentifier :: "string \<Rightarrow> string \<Rightarrow> proposal_error + unit" where
  "validateIdentifier s name = ensure (ident_pattern 63 s) (ErrProposalMsg (name @ '' must be a P1a identifier''))"

definition validateIdempotencyKey :: "string \<Rightarrow> proposal_error + unit" where
  "validateIdempotencyKey s =
     ensure (ident_pattern 127 s) (ErrProposalMsg ''idempotency key must be a P1a idempotency key'')"

definition validateText :: "string \<Rightarrow> nat \<Rightarrow> string \<Rightarrow> proposal_error + unit" where
  "validateText s maximumBytes name =
     ensure (ValidString s \<and> s \<noteq> [] \<and> length s \<le> maximumBytes)
       (ErrProposalMsg (name @ '' must be valid UTF-8 text from 1 through '' @ nat_text maximumBytes @ '' bytes''))"

definition validateRevisionHash :: "string \<Rightarrow> string \<Rightarrow> proposal_error + unit" where
  "validateRevisionHash s name =
     andThen (ensure (HasPrefix s ''sha256:'' \<and> length s = 71) (ErrProposalMsg (name @ '' must be a SHA-256 hash'')))
       (\<lambda>_. ensure (list_all is_lower_hex (drop 7 s)) (ErrProposalMsg (name @ '' must be a lowercase SHA-256 hash'')))"

text \<open>The loop over the acceptance criteria, from an index on.\<close>

fun validate_criteria :: "nat \<Rightarrow> string list \<Rightarrow> proposal_error + unit" where
  "validate_criteria i [] = Inr ()"
| "validate_criteria i (c # cs) =
     andThen (validateText c 1000 (''acceptance criterion '' @ nat_text i)) (\<lambda>_. validate_criteria (i + 1) cs)"

definition fixed_policy :: "ProposalPolicy \<Rightarrow> bool" where
  "fixed_policy p \<longleftrightarrow>
     ad_Access (po_Adapter p) = ''read_only'' \<and> ad_Kind (po_Adapter p) = ''omp_audit'' \<and> ad_Status (po_Adapter p) = ''future''
   \<and> po_Authority p = ''deterministic'' \<and> po_ModelRole p = ''advisory_only'' \<and> bu_Status (po_Budget p) = ''future''
   \<and> bu_Dimensions (po_Budget p) = [''deadline'', ''attempt_cap'']"

definition validateRevisionInput :: "RevisionInput \<Rightarrow> proposal_error + unit" where
  "validateRevisionInput i =
     andThen (validateText (ta_Title (in_Task i)) 160 ''task title'') (\<lambda>_.
     andThen (validateText (ta_Instructions (in_Task i)) 8000 ''task instructions'') (\<lambda>_.
     andThen (ensure (1 \<le> length (in_AcceptanceCriteria i) \<and> length (in_AcceptanceCriteria i) \<le> 32)
       (ErrProposalMsg ''acceptance criteria count must be 1 through 32'')) (\<lambda>_.
     andThen (validate_criteria 0 (in_AcceptanceCriteria i)) (\<lambda>_.
     ensure (fixed_policy (in_Policy i)) (ErrProposalMsg ''revision policy must be the fixed P1a policy'')))))"

definition validateCreateProposalRequest :: "CreateProposalRequest \<Rightarrow> proposal_error + unit" where
  "validateCreateProposalRequest r =
     andThen (validateIdentifier (cr_ProjectID r) ''project id'') (\<lambda>_.
     andThen (validateIdentifier (cr_WorkstreamID r) ''workstream id'') (\<lambda>_.
     andThen (validateIdempotencyKey (cr_IdempotencyKey r)) (\<lambda>_.
     validateRevisionInput (cr_RevisionInput r))))"

definition validateAppendProposalRevisionRequest :: "AppendProposalRevisionRequest \<Rightarrow> proposal_error + unit" where
  "validateAppendProposalRevisionRequest r =
     andThen (validateIdentifier (ar_ProposalID r) ''proposal id'') (\<lambda>_.
     andThen (validateIdempotencyKey (ar_IdempotencyKey r)) (\<lambda>_.
     andThen (ensure (1 \<le> ar_ExpectedCurrentRevision r)
       (ErrProposalMsg ''expected current revision must be positive'')) (\<lambda>_.
     andThen (validateRevisionHash (ar_ExpectedCurrentRevisionHash r) ''expected current revision hash'') (\<lambda>_.
     validateRevisionInput (ar_RevisionInput r)))))"

definition validateDecideProposalApprovalRequest :: "DecideProposalApprovalRequest \<Rightarrow> proposal_error + unit" where
  "validateDecideProposalApprovalRequest r =
     andThen (validateIdentifier (dr_ApprovalID r) ''approval id'') (\<lambda>_.
     andThen (validateIdentifier (dr_ProposalID r) ''proposal id'') (\<lambda>_.
     andThen (validateIdempotencyKey (dr_IdempotencyKey r)) (\<lambda>_.
     andThen (ensure (1 \<le> dr_Revision r) (ErrProposalMsg ''revision must be positive'')) (\<lambda>_.
     andThen (validateRevisionHash (dr_RevisionHash r) ''revision hash'') (\<lambda>_.
     andThen (ensure (dr_Decision r = ApprovalStateApproved \<or> dr_Decision r = ApprovalStateRejected)
       (ErrProposalMsg ''decision must be approved or rejected'')) (\<lambda>_.
     validateText (dr_Reason r) 1000 ''decision reason''))))))"

definition validateWithdrawProposalRequest :: "WithdrawProposalRequest \<Rightarrow> proposal_error + unit" where
  "validateWithdrawProposalRequest r =
     andThen (validateIdentifier (wr_ProposalID r) ''proposal id'') (\<lambda>_. validateIdempotencyKey (wr_IdempotencyKey r))"

text \<open>\<open>newProposalIdentifier\<close>: the 16 bytes of \<open>rand.Read\<close> are an argument, \<open>None\<close> its error.\<close>

definition newProposalIdentifier :: "string \<Rightarrow> string option \<Rightarrow> proposal_error + string" where
  "newProposalIdentifier prefix rnd =
     (case rnd of
        None \<Rightarrow> Inl (ErrProposalMsg (''generate '' @ prefix @ '' identifier''))
      | Some bytes \<Rightarrow> Inr (prefix @ ''_'' @ hex_encode bytes))"

end
