(* ===== verification/Proposal_Store.thy ===== *)
theory Proposal_Store
  imports Proposal_Types
begin

section \<open>The proposal store\<close>

text \<open>
  The operations of \<^verbatim>\<open>src/internal/store/proposals.go\<close> on the six proposal tables of schema
  version 9 (\<open>createTaskProposalSchemaV9\<close> in \<^verbatim>\<open>store.go\<close>).  Each mutation is one transaction.
  Its primary-key and \<open>UNIQUE\<close> constraints are checked at the insert (\<open>ErrProposalConstraint\<close>);
  its foreign keys are deferred to the commit, where the rows the transaction wrote satisfy them
  (\<open>foreign_keys\<close> in the invariant).  \<open>now\<close> is \<open>nowStamp()\<close>, \<open>rnd\<close> the random bytes drawn.
\<close>

record ProposalDB =
  task_proposals :: "Proposal list"
  task_proposal_revisions :: "RevisionRow list"
  task_proposal_approvals :: "Approval list"
  task_proposal_revision_lifecycles :: "RevisionLifecycle list"
  task_proposal_activity :: "ProposalActivity list"
  task_proposal_idempotency :: "IdempotencyRow list"

definition emptyProposals :: ProposalDB where
  "emptyProposals = \<lparr>task_proposals = [], task_proposal_revisions = [], task_proposal_approvals = [],
     task_proposal_revision_lifecycles = [], task_proposal_activity = [], task_proposal_idempotency = []\<rparr>"

subsection \<open>Identities\<close>

text \<open>The identity columns of a revision row, of a lifecycle and of an approval.\<close>

definition rv_ident :: "RevisionRow \<Rightarrow> string \<times> int \<times> string" where
  "rv_ident r = (rv_ProposalID r, rv_Revision r, rv_RevisionHash r)"

definition lc_ident :: "RevisionLifecycle \<Rightarrow> string \<times> int \<times> string" where
  "lc_ident r = (lc_ProposalID r, lc_Revision r, lc_RevisionHash r)"

definition ap_ident :: "Approval \<Rightarrow> string \<times> int \<times> string" where
  "ap_ident r = (ap_ProposalID r, ap_Revision r, ap_RevisionHash r)"

definition mu_ident :: "ProposalMutation \<Rightarrow> string \<times> int \<times> string" where
  "mu_ident r = (mu_ProposalID r, mu_Revision r, mu_RevisionHash r)"

definition validateRevisionIdentity :: "ProposalDB \<Rightarrow> string \<Rightarrow> int \<Rightarrow> string \<Rightarrow> proposal_error + unit" where
  "validateRevisionIdentity db proposalID revision revisionHash =
     ensure (list_ex (\<lambda>r. rv_ident r = (proposalID, revision, revisionHash)) (task_proposal_revisions db))
       ErrProposalRecordCorrupt"

definition validateProposalMutationIdentity :: "ProposalDB \<Rightarrow> ProposalMutation \<Rightarrow> proposal_error + unit" where
  "validateProposalMutationIdentity db result =
     ensure (list_ex (\<lambda>l. lc_ident l = mu_ident result \<and> lc_ApprovalID l = mu_ApprovalID result
         \<and> list_ex (\<lambda>r. rv_ident r = lc_ident l) (task_proposal_revisions db)
         \<and> list_ex (\<lambda>a. ap_ident a = lc_ident l \<and> ap_ApprovalID a = lc_ApprovalID l) (task_proposal_approvals db))
       (task_proposal_revision_lifecycles db))
       ErrProposalRecordCorrupt"

subsection \<open>Idempotency and activity\<close>

definition find_idempotency :: "string \<Rightarrow> string \<Rightarrow> string \<Rightarrow> ProposalDB \<Rightarrow> IdempotencyRow option" where
  "find_idempotency operation resource key db =
     find (\<lambda>i. im_Actor i = localGUIOperator \<and> im_Operation i = operation \<and> im_Resource i = resource \<and> im_Key i = key)
       (task_proposal_idempotency db)"

definition lookupProposalIdempotency ::
    "ProposalDB \<Rightarrow> string \<Rightarrow> string \<Rightarrow> string \<Rightarrow> string \<Rightarrow> proposal_error + ProposalMutation option" where
  "lookupProposalIdempotency db operation resource key bodyHash =
     (case find_idempotency operation resource key db of
        None \<Rightarrow> Inr None
      | Some i \<Rightarrow>
        andThen (validateProposalMutationIdentity db (im_Result i)) (\<lambda>_.
        andThen (ensure (im_BodyHash i = bodyHash) ErrIdempotencyConflict) (\<lambda>_.
        Inr (Some (im_Result i)))))"

definition insertProposalIdempotency ::
    "string \<Rightarrow> string \<Rightarrow> string \<Rightarrow> string \<Rightarrow> ProposalMutation \<Rightarrow> ProposalDB \<Rightarrow> proposal_error + ProposalDB" where
  "insertProposalIdempotency operation resource key bodyHash result db =
     andThen (validateProposalMutationIdentity db result) (\<lambda>_.
     andThen (ensure (find_idempotency operation resource key db = None) ErrProposalConstraint) (\<lambda>_.
     Inr (db\<lparr>task_proposal_idempotency := task_proposal_idempotency db @
       [\<lparr>im_Actor = localGUIOperator, im_Operation = operation, im_Resource = resource, im_Key = key,
         im_BodyHash = bodyHash, im_Result = result\<rparr>]\<rparr>)))"

definition activity_seqs :: "string \<Rightarrow> ProposalDB \<Rightarrow> int list" where
  "activity_seqs p db = log_seqs ac_ProposalID ac_Sequence p (task_proposal_activity db)"

definition appendProposalActivity :: "ProposalMutation \<Rightarrow> string \<Rightarrow> stamp \<Rightarrow> ProposalDB \<Rightarrow> ProposalDB" where
  "appendProposalActivity result operation now db =
     db\<lparr>task_proposal_activity := task_proposal_activity db @
       [\<lparr>ac_ProposalID = mu_ProposalID result, ac_Sequence = next_seq (activity_seqs (mu_ProposalID result) db),
         ac_Operation = operation, ac_Revision = mu_Revision result, ac_RevisionHash = mu_RevisionHash result,
         ac_ApprovalID = mu_ApprovalID result, ac_WrittenAt = now\<rparr>]\<rparr>"

text \<open>The last two writes of every mutation.\<close>

definition record_mutation ::
    "string \<Rightarrow> string \<Rightarrow> string \<Rightarrow> string \<Rightarrow> stamp \<Rightarrow> ProposalMutation \<Rightarrow> ProposalDB
      \<Rightarrow> proposal_error + ProposalMutation \<times> ProposalDB" where
  "record_mutation operation resource key bodyHash now result db =
     andThen (insertProposalIdempotency operation resource key bodyHash result db) (\<lambda>db.
     Inr (result, appendProposalActivity result operation now db))"

subsection \<open>Inserting a revision with its pending pair\<close>

definition pending_approval :: "stamp \<Rightarrow> string \<Rightarrow> string \<Rightarrow> int \<Rightarrow> string \<Rightarrow> Approval" where
  "pending_approval now approvalID proposalID revision revisionHash =
     \<lparr>ap_ApprovalID = approvalID, ap_ProposalID = proposalID, ap_Revision = revision, ap_RevisionHash = revisionHash,
      ap_CreatedAt = now, ap_CreatedBy = localGUIOperator, ap_State = ApprovalStatePending, ap_DecidedAt = None,
      ap_DecidedBy = None, ap_DecisionIdempotencyKey = None, ap_Reason = None\<rparr>"

definition pending_lifecycle :: "stamp \<Rightarrow> string \<Rightarrow> string \<Rightarrow> int \<Rightarrow> string \<Rightarrow> RevisionLifecycle" where
  "pending_lifecycle now approvalID proposalID revision revisionHash =
     \<lparr>lc_ProposalID = proposalID, lc_Revision = revision, lc_RevisionHash = revisionHash, lc_ApprovalID = approvalID,
      lc_State = RevisionLifecycleStatePending, lc_CreatedAt = now, lc_UpdatedAt = now, lc_Version = 1\<rparr>"

definition insert_revision_pair ::
    "stamp \<Rightarrow> string \<Rightarrow> string \<Rightarrow> int \<Rightarrow> string \<Rightarrow> string \<Rightarrow> ProposalDB \<Rightarrow> proposal_error + ProposalDB" where
  "insert_revision_pair now approvalID proposalID revision revisionHash snapshot db =
     andThen (ensure (list_all (\<lambda>r. \<not> (rv_ProposalID r = proposalID \<and> rv_Revision r = revision)
         \<and> rv_RevisionHash r \<noteq> revisionHash) (task_proposal_revisions db)) ErrProposalConstraint) (\<lambda>_.
     andThen (ensure (list_all (\<lambda>a. ap_ApprovalID a \<noteq> approvalID \<and> ap_RevisionHash a \<noteq> revisionHash
         \<and> \<not> (ap_ProposalID a = proposalID \<and> ap_Revision a = revision)) (task_proposal_approvals db))
         ErrProposalConstraint) (\<lambda>_.
     andThen (ensure (list_all (\<lambda>l. lc_ApprovalID l \<noteq> approvalID \<and> lc_RevisionHash l \<noteq> revisionHash
         \<and> \<not> (lc_ProposalID l = proposalID \<and> lc_Revision l = revision)) (task_proposal_revision_lifecycles db))
         ErrProposalConstraint) (\<lambda>_.
     Inr (db\<lparr>task_proposal_revisions := task_proposal_revisions db @
           [\<lparr>rv_ProposalID = proposalID, rv_Revision = revision, rv_RevisionHash = revisionHash, rv_Snapshot = snapshot\<rparr>],
         task_proposal_approvals := task_proposal_approvals db @
           [pending_approval now approvalID proposalID revision revisionHash],
         task_proposal_revision_lifecycles := task_proposal_revision_lifecycles db @
           [pending_lifecycle now approvalID proposalID revision revisionHash]\<rparr>))))"

text \<open>A canonicalisation error reported by an operation.\<close>

definition canonical_error :: "string + 'a \<Rightarrow> proposal_error + 'a" where
  "canonical_error r = (case r of Inl e \<Rightarrow> Inl (ErrProposalMsg e) | Inr x \<Rightarrow> Inr x)"

subsection \<open>Creating a proposal\<close>

definition root_revision :: "stamp \<Rightarrow> string \<Rightarrow> CreateProposalRequest \<Rightarrow> Revision" where
  "root_revision now proposalID r =
     \<lparr>re_SchemaVersion = ''ananke.proposal-revision.v1'', re_ProposalID = proposalID, re_Revision = 1,
      re_ParentRevision = None, re_ParentRevisionHash = None, re_CreatedAt = now, re_CreatedBy = localGUIOperator,
      re_IdempotencyKey = cr_IdempotencyKey r, re_Task = in_Task (cr_RevisionInput r),
      re_AcceptanceCriteria = in_AcceptanceCriteria (cr_RevisionInput r), re_Policy = in_Policy (cr_RevisionInput r)\<rparr>"

definition find_proposal :: "string \<Rightarrow> Proposal list \<Rightarrow> Proposal option" where
  "find_proposal p t = find (\<lambda>r. pr_ProposalID r = p) t"

definition insert_proposal :: "stamp \<Rightarrow> string \<Rightarrow> CreateProposalRequest \<Rightarrow> string \<Rightarrow> ProposalDB \<Rightarrow> proposal_error + ProposalDB" where
  "insert_proposal now proposalID request revisionHash db =
     andThen (ensure (find_proposal proposalID (task_proposals db) = None) ErrProposalConstraint) (\<lambda>_.
     Inr (db\<lparr>task_proposals := task_proposals db @
       [\<lparr>pr_ProposalID = proposalID, pr_ProjectID = cr_ProjectID request, pr_WorkstreamID = cr_WorkstreamID request,
         pr_CreatedAt = now, pr_CreatedBy = localGUIOperator, pr_State = ProposalStateOpen,
         pr_CurrentRevision = 1, pr_CurrentRevisionHash = revisionHash\<rparr>]\<rparr>))"

definition CreateProposal ::
    "stamp \<Rightarrow> string option \<Rightarrow> string option \<Rightarrow> CreateProposalRequest \<Rightarrow> ProposalDB
      \<Rightarrow> proposal_error + ProposalMutation \<times> ProposalDB" where
  "CreateProposal now rnd1 rnd2 request db =
     andThen (canonical_error (canonicalJSONHash (createRequestBody request))) (\<lambda>bodyHash.
     andThen (lookupProposalIdempotency db ''create_proposal'' ''proposal_collection'' (cr_IdempotencyKey request) bodyHash) (\<lambda>replay.
     case replay of Some result \<Rightarrow> Inr (result, db) | None \<Rightarrow>
     andThen (validateCreateProposalRequest request) (\<lambda>_.
     andThen (newProposalIdentifier ''proposal'' rnd1) (\<lambda>proposalID.
     andThen (newProposalIdentifier ''approval'' rnd2) (\<lambda>approvalID.
     andThen (canonical_error (canonicalRevisionSnapshot (root_revision now proposalID request))) (\<lambda>(snapshot, revisionHash).
     andThen (insert_proposal now proposalID request revisionHash db) (\<lambda>db.
     andThen (insert_revision_pair now approvalID proposalID 1 revisionHash snapshot db) (\<lambda>db.
     record_mutation ''create_proposal'' ''proposal_collection'' (cr_IdempotencyKey request) bodyHash now
       \<lparr>mu_ProposalID = proposalID, mu_Revision = 1, mu_RevisionHash = revisionHash, mu_ApprovalID = approvalID\<rparr> db))))))))"

subsection \<open>Appending a revision\<close>

text \<open>The lifecycle of a revision joined with its approval.\<close>

definition current_pair :: "ProposalDB \<Rightarrow> string \<Rightarrow> int \<Rightarrow> string \<Rightarrow> (RevisionLifecycle \<times> Approval) option" where
  "current_pair db proposalID revision revisionHash =
     find (\<lambda>(l, a). ap_ApprovalID a = lc_ApprovalID l \<and> ap_ident a = lc_ident l
         \<and> lc_ident l = (proposalID, revision, revisionHash))
       (List.product (task_proposal_revision_lifecycles db) (task_proposal_approvals db))"

definition next_revision :: "stamp \<Rightarrow> int \<Rightarrow> string \<Rightarrow> AppendProposalRevisionRequest \<Rightarrow> Revision" where
  "next_revision now currentRevision currentHash r =
     \<lparr>re_SchemaVersion = ''ananke.proposal-revision.v1'', re_ProposalID = ar_ProposalID r,
      re_Revision = currentRevision + 1, re_ParentRevision = Some currentRevision,
      re_ParentRevisionHash = Some currentHash, re_CreatedAt = now, re_CreatedBy = localGUIOperator,
      re_IdempotencyKey = ar_IdempotencyKey r, re_Task = in_Task (ar_RevisionInput r),
      re_AcceptanceCriteria = in_AcceptanceCriteria (ar_RevisionInput r), re_Policy = in_Policy (ar_RevisionInput r)\<rparr>"

definition supersedePendingRevisionPair :: "stamp \<Rightarrow> string \<Rightarrow> int \<Rightarrow> ProposalDB \<Rightarrow> proposal_error + ProposalDB" where
  "supersedePendingRevisionPair now proposalID revision db =
     (let pl = (\<lambda>l. lc_ProposalID l = proposalID \<and> lc_Revision l = revision \<and> lc_State l = RevisionLifecycleStatePending);
          pa = (\<lambda>a. ap_ProposalID a = proposalID \<and> ap_Revision a = revision \<and> ap_State a = ApprovalStatePending) in
      andThen (ensure (rows_affected pl (task_proposal_revision_lifecycles db) = 1) ErrRevisionConflict) (\<lambda>_.
      andThen (ensure (rows_affected pa (task_proposal_approvals db) = 1) ErrRevisionConflict) (\<lambda>_.
      Inr (db\<lparr>task_proposal_revision_lifecycles := update_where pl
            (\<lambda>l. l\<lparr>lc_State := RevisionLifecycleStateSuperseded, lc_UpdatedAt := now, lc_Version := lc_Version l + 1\<rparr>)
            (task_proposal_revision_lifecycles db),
          task_proposal_approvals := update_where pa (\<lambda>a. a\<lparr>ap_State := ApprovalStateSuperseded\<rparr>)
            (task_proposal_approvals db)\<rparr>))))"

text \<open>The update of the current-revision pointer, guarded by the values read.\<close>

definition advance_current :: "string \<Rightarrow> int \<Rightarrow> string \<Rightarrow> int \<Rightarrow> string \<Rightarrow> ProposalDB \<Rightarrow> proposal_error + ProposalDB" where
  "advance_current proposalID currentRevision currentHash nextRevision revisionHash db =
     (let p = (\<lambda>r. pr_ProposalID r = proposalID \<and> pr_State r = ProposalStateOpen
           \<and> pr_CurrentRevision r = currentRevision \<and> pr_CurrentRevisionHash r = currentHash) in
      andThen (ensure (rows_affected p (task_proposals db) = 1) ErrRevisionConflict) (\<lambda>_.
      Inr (db\<lparr>task_proposals := update_where p
        (\<lambda>r. r\<lparr>pr_CurrentRevision := nextRevision, pr_CurrentRevisionHash := revisionHash\<rparr>) (task_proposals db)\<rparr>)))"

definition AppendProposalRevision ::
    "stamp \<Rightarrow> string option \<Rightarrow> AppendProposalRevisionRequest \<Rightarrow> ProposalDB
      \<Rightarrow> proposal_error + ProposalMutation \<times> ProposalDB" where
  "AppendProposalRevision now rnd request db =
     andThen (canonical_error (canonicalJSONHash (appendRevisionRequestBody request))) (\<lambda>bodyHash.
     andThen (lookupProposalIdempotency db ''append_revision'' (ar_ProposalID request) (ar_IdempotencyKey request) bodyHash) (\<lambda>replay.
     case replay of Some result \<Rightarrow> Inr (result, db) | None \<Rightarrow>
     andThen (validateAppendProposalRevisionRequest request) (\<lambda>_.
     andThen (require ErrProposalNotFound (find_proposal (ar_ProposalID request) (task_proposals db))) (\<lambda>p.
     andThen (ensure (pr_State p = ProposalStateOpen \<and> pr_CurrentRevision p = ar_ExpectedCurrentRevision request
       \<and> pr_CurrentRevisionHash p = ar_ExpectedCurrentRevisionHash request) ErrRevisionConflict) (\<lambda>_.
     andThen (require ErrProposalRecordCorrupt
       (current_pair db (ar_ProposalID request) (pr_CurrentRevision p) (pr_CurrentRevisionHash p))) (\<lambda>(l, a).
     andThen (ensure (lc_State l = toLifecycle (ap_State a)) ErrProposalRecordCorrupt) (\<lambda>_.
     andThen (ensure (lc_State l = RevisionLifecycleStatePending \<or> lc_State l = RevisionLifecycleStateRejected)
       ErrRevisionConflict) (\<lambda>_.
     andThen (newProposalIdentifier ''approval'' rnd) (\<lambda>approvalID.
     andThen (canonical_error (canonicalRevisionSnapshot
       (next_revision now (pr_CurrentRevision p) (pr_CurrentRevisionHash p) request))) (\<lambda>(snapshot, revisionHash).
     andThen (insert_revision_pair now approvalID (ar_ProposalID request) (pr_CurrentRevision p + 1) revisionHash snapshot db) (\<lambda>db.
     andThen (if lc_State l = RevisionLifecycleStatePending
       then supersedePendingRevisionPair now (ar_ProposalID request) (pr_CurrentRevision p) db else Inr db) (\<lambda>db.
     andThen (advance_current (ar_ProposalID request) (pr_CurrentRevision p) (pr_CurrentRevisionHash p)
       (pr_CurrentRevision p + 1) revisionHash db) (\<lambda>db.
     record_mutation ''append_revision'' (ar_ProposalID request) (ar_IdempotencyKey request) bodyHash now
       \<lparr>mu_ProposalID = ar_ProposalID request, mu_Revision = pr_CurrentRevision p + 1, mu_RevisionHash = revisionHash,
        mu_ApprovalID = approvalID\<rparr> db)))))))))))))"

subsection \<open>Deciding an approval\<close>

definition find_approval :: "string \<Rightarrow> Approval list \<Rightarrow> Approval option" where
  "find_approval i t = find (\<lambda>a. ap_ApprovalID a = i) t"

text \<open>The proposal joined with the lifecycle the request names.\<close>

definition decided_pair :: "ProposalDB \<Rightarrow> DecideProposalApprovalRequest \<Rightarrow> (Proposal \<times> RevisionLifecycle) option" where
  "decided_pair db request =
     find (\<lambda>(p, l). lc_ProposalID l = pr_ProposalID p \<and> lc_Revision l = dr_Revision request
         \<and> lc_RevisionHash l = dr_RevisionHash request \<and> lc_ApprovalID l = dr_ApprovalID request
         \<and> pr_ProposalID p = dr_ProposalID request)
       (List.product (task_proposals db) (task_proposal_revision_lifecycles db))"

definition decide_lifecycle :: "stamp \<Rightarrow> DecideProposalApprovalRequest \<Rightarrow> ProposalDB \<Rightarrow> proposal_error + ProposalDB" where
  "decide_lifecycle now request db =
     (let pl = (\<lambda>l. lc_ProposalID l = dr_ProposalID request \<and> lc_Revision l = dr_Revision request
           \<and> lc_RevisionHash l = dr_RevisionHash request \<and> lc_ApprovalID l = dr_ApprovalID request
           \<and> lc_State l = RevisionLifecycleStatePending) in
      andThen (ensure (rows_affected pl (task_proposal_revision_lifecycles db) = 1) ErrApprovalConflict) (\<lambda>_.
      Inr (db\<lparr>task_proposal_revision_lifecycles := update_where pl
        (\<lambda>l. l\<lparr>lc_State := toLifecycle (dr_Decision request), lc_UpdatedAt := now, lc_Version := lc_Version l + 1\<rparr>)
        (task_proposal_revision_lifecycles db)\<rparr>)))"

definition decide_approval :: "stamp \<Rightarrow> DecideProposalApprovalRequest \<Rightarrow> ProposalDB \<Rightarrow> proposal_error + ProposalDB" where
  "decide_approval now request db =
     (let pa = (\<lambda>a. ap_ApprovalID a = dr_ApprovalID request \<and> ap_State a = ApprovalStatePending) in
      andThen (ensure (rows_affected pa (task_proposal_approvals db) = 1) ErrApprovalConflict) (\<lambda>_.
      Inr (db\<lparr>task_proposal_approvals := update_where pa
        (\<lambda>a. a\<lparr>ap_State := dr_Decision request, ap_DecidedAt := Some now, ap_DecidedBy := Some localGUIOperator,
           ap_DecisionIdempotencyKey := Some (dr_IdempotencyKey request), ap_Reason := Some (dr_Reason request)\<rparr>)
        (task_proposal_approvals db)\<rparr>)))"

text \<open>Closing an open proposal at the revision it was read with, on approval and on withdrawal.\<close>

definition close_proposal ::
    "ProposalState \<Rightarrow> string \<Rightarrow> int \<Rightarrow> string \<Rightarrow> proposal_error \<Rightarrow> ProposalDB \<Rightarrow> proposal_error + ProposalDB" where
  "close_proposal st proposalID revision revisionHash e db =
     (let p = (\<lambda>r. pr_ProposalID r = proposalID \<and> pr_State r = ProposalStateOpen
           \<and> pr_CurrentRevision r = revision \<and> pr_CurrentRevisionHash r = revisionHash) in
      andThen (ensure (rows_affected p (task_proposals db) = 1) e) (\<lambda>_.
      Inr (db\<lparr>task_proposals := update_where p (\<lambda>r. r\<lparr>pr_State := st\<rparr>) (task_proposals db)\<rparr>)))"

definition DecideProposalApproval ::
    "stamp \<Rightarrow> DecideProposalApprovalRequest \<Rightarrow> ProposalDB \<Rightarrow> proposal_error + ProposalMutation \<times> ProposalDB" where
  "DecideProposalApproval now request db =
     andThen (canonical_error (canonicalJSONHash (decisionRequestBody request))) (\<lambda>bodyHash.
     andThen (lookupProposalIdempotency db ''decide_approval'' (dr_ApprovalID request) (dr_IdempotencyKey request) bodyHash) (\<lambda>replay.
     case replay of Some result \<Rightarrow> Inr (result, db) | None \<Rightarrow>
     andThen (validateDecideProposalApprovalRequest request) (\<lambda>_.
     andThen (require ErrApprovalNotFound (find_approval (dr_ApprovalID request) (task_proposal_approvals db))) (\<lambda>a.
     andThen (ensure (ap_ident a = (dr_ProposalID request, dr_Revision request, dr_RevisionHash request)
       \<and> ap_State a = ApprovalStatePending) ErrApprovalConflict) (\<lambda>_.
     andThen (require ErrProposalRecordCorrupt (decided_pair db request)) (\<lambda>(p, l).
     andThen (ensure (pr_State p = ProposalStateOpen \<and> pr_CurrentRevision p = dr_Revision request
       \<and> pr_CurrentRevisionHash p = dr_RevisionHash request \<and> lc_State l = RevisionLifecycleStatePending)
       ErrApprovalConflict) (\<lambda>_.
     andThen (decide_lifecycle now request db) (\<lambda>db.
     andThen (decide_approval now request db) (\<lambda>db.
     andThen (if dr_Decision request = ApprovalStateApproved
       then close_proposal ProposalStateApproved (dr_ProposalID request) (dr_Revision request) (dr_RevisionHash request)
         ErrApprovalConflict db
       else Inr db) (\<lambda>db.
     record_mutation ''decide_approval'' (dr_ApprovalID request) (dr_IdempotencyKey request) bodyHash now
       \<lparr>mu_ProposalID = dr_ProposalID request, mu_Revision = dr_Revision request, mu_RevisionHash = dr_RevisionHash request,
        mu_ApprovalID = dr_ApprovalID request\<rparr> db))))))))))"

subsection \<open>Withdrawing a proposal\<close>

definition withdraw_pair ::
    "stamp \<Rightarrow> string \<Rightarrow> int \<Rightarrow> string \<Rightarrow> string \<Rightarrow> ProposalDB \<Rightarrow> proposal_error + ProposalDB" where
  "withdraw_pair now proposalID revision revisionHash approvalID db =
     (let pl = (\<lambda>l. lc_ProposalID l = proposalID \<and> lc_Revision l = revision \<and> lc_RevisionHash l = revisionHash
           \<and> lc_ApprovalID l = approvalID \<and> lc_State l = RevisionLifecycleStatePending);
          pa = (\<lambda>a. ap_ApprovalID a = approvalID \<and> ap_State a = ApprovalStatePending) in
      andThen (ensure (rows_affected pl (task_proposal_revision_lifecycles db) = 1) ErrProposalConflict) (\<lambda>_.
      andThen (ensure (rows_affected pa (task_proposal_approvals db) = 1) ErrProposalConflict) (\<lambda>_.
      Inr (db\<lparr>task_proposal_revision_lifecycles := update_where pl
            (\<lambda>l. l\<lparr>lc_State := RevisionLifecycleStateWithdrawn, lc_UpdatedAt := now, lc_Version := lc_Version l + 1\<rparr>)
            (task_proposal_revision_lifecycles db),
          task_proposal_approvals := update_where pa (\<lambda>a. a\<lparr>ap_State := ApprovalStateWithdrawn\<rparr>)
            (task_proposal_approvals db)\<rparr>))))"

definition WithdrawProposal ::
    "stamp \<Rightarrow> WithdrawProposalRequest \<Rightarrow> ProposalDB \<Rightarrow> proposal_error + ProposalMutation \<times> ProposalDB" where
  "WithdrawProposal now request db =
     andThen (canonical_error (canonicalJSONHash (withdrawProposalRequestBody request))) (\<lambda>bodyHash.
     andThen (lookupProposalIdempotency db ''withdraw_proposal'' (wr_ProposalID request) (wr_IdempotencyKey request) bodyHash) (\<lambda>replay.
     case replay of Some result \<Rightarrow> Inr (result, db) | None \<Rightarrow>
     andThen (validateWithdrawProposalRequest request) (\<lambda>_.
     andThen (require ErrProposalNotFound (find_proposal (wr_ProposalID request) (task_proposals db))) (\<lambda>p.
     andThen (ensure (pr_State p = ProposalStateOpen) ErrProposalConflict) (\<lambda>_.
     andThen (require ErrProposalRecordCorrupt
       (current_pair db (wr_ProposalID request) (pr_CurrentRevision p) (pr_CurrentRevisionHash p))) (\<lambda>(l, a).
     andThen (ensure (lc_State l = toLifecycle (ap_State a)) ErrProposalRecordCorrupt) (\<lambda>_.
     andThen (ensure (lc_State l = RevisionLifecycleStatePending \<or> lc_State l = RevisionLifecycleStateRejected)
       ErrProposalConflict) (\<lambda>_.
     andThen (if lc_State l = RevisionLifecycleStatePending
       then withdraw_pair now (wr_ProposalID request) (pr_CurrentRevision p) (pr_CurrentRevisionHash p) (lc_ApprovalID l) db
       else Inr db) (\<lambda>db.
     andThen (close_proposal ProposalStateWithdrawn (wr_ProposalID request) (pr_CurrentRevision p)
       (pr_CurrentRevisionHash p) ErrProposalConflict db) (\<lambda>db.
     record_mutation ''withdraw_proposal'' (wr_ProposalID request) (wr_IdempotencyKey request) bodyHash now
       \<lparr>mu_ProposalID = wr_ProposalID request, mu_Revision = pr_CurrentRevision p,
        mu_RevisionHash = pr_CurrentRevisionHash p, mu_ApprovalID = lc_ApprovalID l\<rparr> db))))))))))"

subsection \<open>Reading\<close>

definition GetProposal :: "string \<Rightarrow> ProposalDB \<Rightarrow> proposal_error + Proposal" where
  "GetProposal proposalID db =
     andThen (require ErrProposalNotFound (find_proposal proposalID (task_proposals db))) (\<lambda>p.
     andThen (validateRevisionIdentity db (pr_ProposalID p) (pr_CurrentRevision p) (pr_CurrentRevisionHash p)) (\<lambda>_.
     Inr p))"

text \<open>\<open>ORDER BY created_at ASC, proposal_id ASC\<close>.\<close>

definition proposal_order :: "Proposal list \<Rightarrow> Proposal list" where
  "proposal_order ps = order_by (stamp_text \<circ> pr_CreatedAt) (order_by pr_ProposalID ps)"

fun validate_all :: "('a \<Rightarrow> proposal_error + unit) \<Rightarrow> 'a list \<Rightarrow> proposal_error + unit" where
  "validate_all f [] = Inr ()"
| "validate_all f (x # xs) = andThen (f x) (\<lambda>_. validate_all f xs)"

definition ListProposalsByTarget :: "string \<Rightarrow> string \<Rightarrow> ProposalDB \<Rightarrow> proposal_error + Proposal list" where
  "ListProposalsByTarget projectID workstreamID db =
     andThen (validateIdentifier projectID ''project id'') (\<lambda>_.
     andThen (validateIdentifier workstreamID ''workstream id'') (\<lambda>_.
     let ps = proposal_order (filter (\<lambda>p. pr_ProjectID p = projectID \<and> pr_WorkstreamID p = workstreamID) (task_proposals db)) in
     andThen (validate_all (\<lambda>p. validateRevisionIdentity db (pr_ProposalID p) (pr_CurrentRevision p) (pr_CurrentRevisionHash p)) ps) (\<lambda>_.
     Inr ps)))"

definition GetRevisionLifecycle :: "string \<Rightarrow> int \<Rightarrow> ProposalDB \<Rightarrow> proposal_error + RevisionLifecycle" where
  "GetRevisionLifecycle proposalID revisionNumber db =
     andThen (require ErrRevisionNotFound (find (\<lambda>l. lc_ProposalID l = proposalID \<and> lc_Revision l = revisionNumber)
       (task_proposal_revision_lifecycles db))) (\<lambda>l.
     andThen (validateProposalMutationIdentity db
       \<lparr>mu_ProposalID = lc_ProposalID l, mu_Revision = lc_Revision l, mu_RevisionHash = lc_RevisionHash l,
        mu_ApprovalID = lc_ApprovalID l\<rparr>) (\<lambda>_.
     Inr l))"

definition GetApproval :: "string \<Rightarrow> ProposalDB \<Rightarrow> proposal_error + Approval" where
  "GetApproval approvalID db =
     andThen (require ErrApprovalNotFound (find_approval approvalID (task_proposal_approvals db))) (\<lambda>a.
     andThen (validateProposalMutationIdentity db
       \<lparr>mu_ProposalID = ap_ProposalID a, mu_Revision = ap_Revision a, mu_RevisionHash = ap_RevisionHash a,
        mu_ApprovalID = ap_ApprovalID a\<rparr>) (\<lambda>_.
     Inr a))"

definition ListProposalActivity :: "string \<Rightarrow> ProposalDB \<Rightarrow> proposal_error + ProposalActivity list" where
  "ListProposalActivity proposalID db =
     andThen (ensure (ident_pattern 63 proposalID) ErrProposalNotFound) (\<lambda>_.
     andThen (require ErrProposalNotFound (find_proposal proposalID (task_proposals db))) (\<lambda>_.
     let rs = order_by ac_Sequence (filter (\<lambda>r. ac_ProposalID r = proposalID) (task_proposal_activity db)) in
     andThen (validate_all (\<lambda>r. validateProposalMutationIdentity db
       \<lparr>mu_ProposalID = ac_ProposalID r, mu_Revision = ac_Revision r, mu_RevisionHash = ac_RevisionHash r,
        mu_ApprovalID = ac_ApprovalID r\<rparr>) rs) (\<lambda>_.
     Inr rs)))"

end
