(* ===== verification/Proposal_Invariants.thy ===== *)
theory Proposal_Invariants
  imports Proposal_Store
begin

section \<open>The invariant of the proposal store\<close>

text \<open>
  The step relation of the four proposal mutations and the invariant every reachable database
  satisfies, in five parts: each revision has exactly one lifecycle and one approval with the same
  identity and state (\<open>pairs_ok\<close>); revisions of a proposal are numbered without a gap up to the
  current one (\<open>numbering_ok\<close>); the review states agree with the state of the proposal
  (\<open>reviews_ok\<close>); idempotency rows and activity name existing pairs (\<open>logs_ok\<close>); and every
  snapshot is the canonical text of a revision that names its parent's hash (\<open>snapshots_ok\<close>).
\<close>

interpretation proposals_tab: keyed_table pr_ProposalID find_proposal
  by unfold_locales (simp add: find_proposal_def find_key_Some)

interpretation approvals_tab: keyed_table ap_ApprovalID find_approval
  by unfold_locales (simp add: find_approval_def find_key_Some)

interpretation revision_log: seq_log rv_ProposalID rv_Revision 1
  by unfold_locales simp

interpretation activity_log: seq_log ac_ProposalID ac_Sequence 1
  by unfold_locales simp

inductive proposal_step :: "ProposalDB \<Rightarrow> ProposalDB \<Rightarrow> bool" where
  create: "CreateProposal now rnd1 rnd2 request db = Inr (m, db') \<Longrightarrow> proposal_step db db'"
| append: "AppendProposalRevision now rnd request db = Inr (m, db') \<Longrightarrow> proposal_step db db'"
| decide: "DecideProposalApproval now request db = Inr (m, db') \<Longrightarrow> proposal_step db db'"
| withdraw: "WithdrawProposal now request db = Inr (m, db') \<Longrightarrow> proposal_step db db'"

abbreviation proposals_reachable :: "ProposalDB \<Rightarrow> bool" where
  "proposals_reachable db \<equiv> proposal_step\<^sup>*\<^sup>* emptyProposals db"

subsection \<open>Definition\<close>

text \<open>Identity, approval id and state of a lifecycle and of an approval.\<close>

definition lc_pair :: "RevisionLifecycle \<Rightarrow> ((string \<times> int \<times> string) \<times> string) \<times> RevisionLifecycleState" where
  "lc_pair l = ((lc_ident l, lc_ApprovalID l), lc_State l)"

definition ap_pair :: "Approval \<Rightarrow> ((string \<times> int \<times> string) \<times> string) \<times> RevisionLifecycleState" where
  "ap_pair a = ((ap_ident a, ap_ApprovalID a), toLifecycle (ap_State a))"

definition pairs_ok :: "RevisionRow list \<Rightarrow> Approval list \<Rightarrow> RevisionLifecycle list \<Rightarrow> bool" where
  "pairs_ok revs aps lcs \<longleftrightarrow>
     map rv_ident revs = map lc_ident lcs \<and> map ap_pair aps = map lc_pair lcs
   \<and> distinct (map rv_RevisionHash revs) \<and> distinct (map ap_ApprovalID aps)"

definition numbering_ok :: "Proposal list \<Rightarrow> RevisionRow list \<Rightarrow> bool" where
  "numbering_ok ps revs \<longleftrightarrow>
     unique_key pr_ProposalID ps
   \<and> (\<forall>k. gapless 1 (log_seqs rv_ProposalID rv_Revision k revs))
   \<and> rv_ProposalID ` set revs \<subseteq> pr_ProposalID ` set ps
   \<and> (\<forall>p \<in> set ps. (pr_ProposalID p, pr_CurrentRevision p, pr_CurrentRevisionHash p) \<in> rv_ident ` set revs
        \<and> pr_CurrentRevision p = int (length (log_seqs rv_ProposalID rv_Revision (pr_ProposalID p) revs)))"

text \<open>The states a revision may be in, given the proposal's.\<close>

definition review_ok :: "Proposal \<Rightarrow> RevisionLifecycle \<Rightarrow> bool" where
  "review_ok p l \<longleftrightarrow>
     (if lc_Revision l \<noteq> pr_CurrentRevision p
      then lc_State l \<in> {RevisionLifecycleStateSuperseded, RevisionLifecycleStateRejected}
      else case pr_State p of
        ProposalStateOpen \<Rightarrow> lc_State l \<in> {RevisionLifecycleStatePending, RevisionLifecycleStateRejected}
      | ProposalStateApproved \<Rightarrow> lc_State l = RevisionLifecycleStateApproved
      | ProposalStateWithdrawn \<Rightarrow> lc_State l \<in> {RevisionLifecycleStateWithdrawn, RevisionLifecycleStateRejected})"

definition reviews_ok :: "Proposal list \<Rightarrow> RevisionLifecycle list \<Rightarrow> bool" where
  "reviews_ok ps lcs \<longleftrightarrow>
     (\<forall>p \<in> set ps. \<forall>l \<in> set lcs. lc_ProposalID l = pr_ProposalID p \<longrightarrow> review_ok p l)"

definition pair_ids :: "RevisionLifecycle list \<Rightarrow> ((string \<times> int \<times> string) \<times> string) list" where
  "pair_ids lcs = map (\<lambda>l. (lc_ident l, lc_ApprovalID l)) lcs"

definition mu_pair :: "ProposalMutation \<Rightarrow> (string \<times> int \<times> string) \<times> string" where
  "mu_pair m = (mu_ident m, mu_ApprovalID m)"

definition ac_pair :: "ProposalActivity \<Rightarrow> (string \<times> int \<times> string) \<times> string" where
  "ac_pair a = ((ac_ProposalID a, ac_Revision a, ac_RevisionHash a), ac_ApprovalID a)"

definition idem_key :: "IdempotencyRow \<Rightarrow> string \<times> string \<times> string \<times> string" where
  "idem_key i = (im_Actor i, im_Operation i, im_Resource i, im_Key i)"

definition logs_ok :: "IdempotencyRow list \<Rightarrow> ProposalActivity list \<Rightarrow> RevisionLifecycle list \<Rightarrow> bool" where
  "logs_ok ids acts lcs \<longleftrightarrow>
     distinct (map idem_key ids) \<and> (\<forall>i \<in> set ids. mu_pair (im_Result i) \<in> set (pair_ids lcs))
   \<and> (\<forall>k. gapless 1 (log_seqs ac_ProposalID ac_Sequence k acts))
   \<and> (\<forall>a \<in> set acts. ac_pair a \<in> set (pair_ids lcs))"

text \<open>The revision a snapshot was made from, linked to its parent.\<close>

definition parent_ok :: "RevisionRow list \<Rightarrow> Revision \<Rightarrow> bool" where
  "parent_ok revs v \<longleftrightarrow>
     (if re_Revision v = 1 then re_ParentRevision v = None \<and> re_ParentRevisionHash v = None
      else \<exists>h. re_ParentRevision v = Some (re_Revision v - 1) \<and> re_ParentRevisionHash v = Some h
        \<and> (re_ProposalID v, re_Revision v - 1, h) \<in> rv_ident ` set revs)"

definition snapshot_of :: "RevisionRow list \<Rightarrow> RevisionRow \<Rightarrow> Revision \<Rightarrow> bool" where
  "snapshot_of revs r v \<longleftrightarrow> canonicalRevisionSnapshot v = Inr (rv_Snapshot r, rv_RevisionHash r)
     \<and> re_ProposalID v = rv_ProposalID r \<and> re_Revision v = rv_Revision r \<and> parent_ok revs v"

definition snapshots_ok :: "RevisionRow list \<Rightarrow> bool" where
  "snapshots_ok revs \<longleftrightarrow> (\<forall>r \<in> set revs. \<exists>v. snapshot_of revs r v)"

definition proposal_inv :: "ProposalDB \<Rightarrow> bool" where
  "proposal_inv db \<longleftrightarrow>
     pairs_ok (task_proposal_revisions db) (task_proposal_approvals db) (task_proposal_revision_lifecycles db)
   \<and> numbering_ok (task_proposals db) (task_proposal_revisions db)
   \<and> reviews_ok (task_proposals db) (task_proposal_revision_lifecycles db)
   \<and> logs_ok (task_proposal_idempotency db) (task_proposal_activity db) (task_proposal_revision_lifecycles db)
   \<and> snapshots_ok (task_proposal_revisions db)"

lemma proposal_inv_empty: "proposal_inv emptyProposals"
  by (simp add: proposal_inv_def emptyProposals_def pairs_ok_def numbering_ok_def reviews_ok_def logs_ok_def
      snapshots_ok_def unique_key_def log_seqs_def)

subsection \<open>What each mutation writes\<close>

lemma canonical_error_Inr [simp]: "canonical_error r = Inr x \<longleftrightarrow> r = Inr x"
  by (simp add: canonical_error_def split: sum.split)

text \<open>A mutation either replays a recorded result, and writes nothing, or records a new one.\<close>

lemma lookup_None:
  "lookupProposalIdempotency db operation resource key h = Inr None \<longleftrightarrow> find_idempotency operation resource key db = None"
  by (auto simp: lookupProposalIdempotency_def andThen_Inr split: option.split)

lemma lookup_Some:
  "lookupProposalIdempotency db operation resource key h = Inr (Some m) \<longleftrightarrow>
     (\<exists>i. find_idempotency operation resource key db = Some i \<and> im_Result i = m \<and> im_BodyHash i = h
        \<and> validateProposalMutationIdentity db m = Inr ())"
  by (auto simp: lookupProposalIdempotency_def andThen_Inr split: option.split)

definition idem_row :: "string \<Rightarrow> string \<Rightarrow> string \<Rightarrow> string \<Rightarrow> ProposalMutation \<Rightarrow> IdempotencyRow" where
  "idem_row operation resource key h m =
     \<lparr>im_Actor = localGUIOperator, im_Operation = operation, im_Resource = resource, im_Key = key, im_BodyHash = h, im_Result = m\<rparr>"

definition activity_row :: "ProposalDB \<Rightarrow> string \<Rightarrow> stamp \<Rightarrow> ProposalMutation \<Rightarrow> ProposalActivity" where
  "activity_row db operation now m =
     \<lparr>ac_ProposalID = mu_ProposalID m, ac_Sequence = next_seq (activity_seqs (mu_ProposalID m) db),
      ac_Operation = operation, ac_Revision = mu_Revision m, ac_RevisionHash = mu_RevisionHash m,
      ac_ApprovalID = mu_ApprovalID m, ac_WrittenAt = now\<rparr>"

lemma record_mutation_Inr:
  "record_mutation operation resource key h now m db = Inr (m', db') \<longleftrightarrow>
     m' = m \<and> validateProposalMutationIdentity db m = Inr () \<and> find_idempotency operation resource key db = None
   \<and> db' = db\<lparr>task_proposal_idempotency := task_proposal_idempotency db @ [idem_row operation resource key h m],
       task_proposal_activity := task_proposal_activity db @ [activity_row db operation now m]\<rparr>"
  by (auto simp: record_mutation_def insertProposalIdempotency_def appendProposalActivity_def andThen_Inr
      idem_row_def activity_row_def activity_seqs_def)

lemma insert_revision_pair_Inr:
  "insert_revision_pair now a p n h snap db = Inr db' \<longleftrightarrow>
     (\<forall>r \<in> set (task_proposal_revisions db). \<not> (rv_ProposalID r = p \<and> rv_Revision r = n) \<and> rv_RevisionHash r \<noteq> h)
   \<and> (\<forall>x \<in> set (task_proposal_approvals db). ap_ApprovalID x \<noteq> a \<and> ap_RevisionHash x \<noteq> h
        \<and> \<not> (ap_ProposalID x = p \<and> ap_Revision x = n))
   \<and> (\<forall>l \<in> set (task_proposal_revision_lifecycles db). lc_ApprovalID l \<noteq> a \<and> lc_RevisionHash l \<noteq> h
        \<and> \<not> (lc_ProposalID l = p \<and> lc_Revision l = n))
   \<and> db' = db\<lparr>task_proposal_revisions := task_proposal_revisions db @
           [\<lparr>rv_ProposalID = p, rv_Revision = n, rv_RevisionHash = h, rv_Snapshot = snap\<rparr>],
         task_proposal_approvals := task_proposal_approvals db @ [pending_approval now a p n h],
         task_proposal_revision_lifecycles := task_proposal_revision_lifecycles db @ [pending_lifecycle now a p n h]\<rparr>"
  by (auto simp: insert_revision_pair_def andThen_Inr list_all_iff)

definition created_proposal :: "stamp \<Rightarrow> string \<Rightarrow> CreateProposalRequest \<Rightarrow> string \<Rightarrow> Proposal" where
  "created_proposal now p request h =
     \<lparr>pr_ProposalID = p, pr_ProjectID = cr_ProjectID request, pr_WorkstreamID = cr_WorkstreamID request,
      pr_CreatedAt = now, pr_CreatedBy = localGUIOperator, pr_State = ProposalStateOpen,
      pr_CurrentRevision = 1, pr_CurrentRevisionHash = h\<rparr>"

lemma insert_proposal_Inr:
  "insert_proposal now p request h db = Inr db' \<longleftrightarrow> find_proposal p (task_proposals db) = None
     \<and> db' = db\<lparr>task_proposals := task_proposals db @ [created_proposal now p request h]\<rparr>"
  by (auto simp: insert_proposal_def andThen_Inr created_proposal_def)

text \<open>The result of a mutation that is not a replay, before the idempotency and activity rows.\<close>

lemmas mutation_unfold = andThen_Inr ensure_Inr require_Inr canonical_error_Inr lookup_None lookup_Some sum.inject option.case
  split_paired_Ex prod.case simp_thms

definition fresh_key :: "string \<Rightarrow> string \<Rightarrow> string \<Rightarrow> ProposalDB \<Rightarrow> bool" where
  "fresh_key operation resource key db \<longleftrightarrow> find_idempotency operation resource key db = None"

lemma CreateProposal_cases:
  assumes "CreateProposal now rnd1 rnd2 request db = Inr (m, db')"
  obtains (replay) h where "canonicalJSONHash (createRequestBody request) = Inr h"
    "lookupProposalIdempotency db ''create_proposal'' ''proposal_collection'' (cr_IdempotencyKey request) h = Inr (Some m)"
    "db' = db"
  | (new) h p a snap rh db1 db2 where "canonicalJSONHash (createRequestBody request) = Inr h"
    "fresh_key ''create_proposal'' ''proposal_collection'' (cr_IdempotencyKey request) db"
    "canonicalRevisionSnapshot (root_revision now p request) = Inr (snap, rh)"
    "insert_proposal now p request rh db = Inr db1"
    "insert_revision_pair now a p 1 rh snap db1 = Inr db2"
    "record_mutation ''create_proposal'' ''proposal_collection'' (cr_IdempotencyKey request) h now
       \<lparr>mu_ProposalID = p, mu_Revision = 1, mu_RevisionHash = rh, mu_ApprovalID = a\<rparr> db2 = Inr (m, db')"
proof -
  from assms obtain h replay where h: "canonicalJSONHash (createRequestBody request) = Inr h"
    and replay: "lookupProposalIdempotency db ''create_proposal'' ''proposal_collection'' (cr_IdempotencyKey request) h = Inr replay"
    unfolding CreateProposal_def by (simp only: mutation_unfold) (elim exE conjE, rule that)
  show thesis
  proof (cases replay)
    case None
    then have fresh: "fresh_key ''create_proposal'' ''proposal_collection'' (cr_IdempotencyKey request) db"
      using replay by (simp add: fresh_key_def lookup_None)
    from assms show thesis
      unfolding CreateProposal_def
      by (simp only: h replay None mutation_unfold) (elim exE conjE, rule new [OF h fresh]; assumption)
  next
    case (Some r)
    with assms replay h have "m = r \<and> db' = db"
      unfolding CreateProposal_def by (simp only: mutation_unfold prod.inject)
    with replay h Some that(1) show thesis by blast
  qed
qed

lemma AppendProposalRevision_cases:
  assumes "AppendProposalRevision now rnd request db = Inr (m, db')"
  obtains (replay) h where "canonicalJSONHash (appendRevisionRequestBody request) = Inr h"
    "lookupProposalIdempotency db ''append_revision'' (ar_ProposalID request) (ar_IdempotencyKey request) h = Inr (Some m)"
    "db' = db"
  | (new) h p l x a snap rh db1 db2 db3 where "canonicalJSONHash (appendRevisionRequestBody request) = Inr h"
    "fresh_key ''append_revision'' (ar_ProposalID request) (ar_IdempotencyKey request) db"
    "find_proposal (ar_ProposalID request) (task_proposals db) = Some p"
    "pr_State p = ProposalStateOpen" "pr_CurrentRevision p = ar_ExpectedCurrentRevision request"
    "pr_CurrentRevisionHash p = ar_ExpectedCurrentRevisionHash request"
    "current_pair db (ar_ProposalID request) (pr_CurrentRevision p) (pr_CurrentRevisionHash p) = Some (l, x)"
    "lc_State l = RevisionLifecycleStatePending \<or> lc_State l = RevisionLifecycleStateRejected"
    "canonicalRevisionSnapshot (next_revision now (pr_CurrentRevision p) (pr_CurrentRevisionHash p) request) = Inr (snap, rh)"
    "insert_revision_pair now a (ar_ProposalID request) (pr_CurrentRevision p + 1) rh snap db = Inr db1"
    "(if lc_State l = RevisionLifecycleStatePending
      then supersedePendingRevisionPair now (ar_ProposalID request) (pr_CurrentRevision p) db1 else Inr db1) = Inr db2"
    "advance_current (ar_ProposalID request) (pr_CurrentRevision p) (pr_CurrentRevisionHash p)
       (pr_CurrentRevision p + 1) rh db2 = Inr db3"
    "record_mutation ''append_revision'' (ar_ProposalID request) (ar_IdempotencyKey request) h now
       \<lparr>mu_ProposalID = ar_ProposalID request, mu_Revision = pr_CurrentRevision p + 1, mu_RevisionHash = rh,
        mu_ApprovalID = a\<rparr> db3 = Inr (m, db')"
proof -
  from assms obtain h replay where h: "canonicalJSONHash (appendRevisionRequestBody request) = Inr h"
    and replay: "lookupProposalIdempotency db ''append_revision'' (ar_ProposalID request) (ar_IdempotencyKey request) h = Inr replay"
    unfolding AppendProposalRevision_def by (simp only: mutation_unfold) (elim exE conjE, rule that)
  show thesis
  proof (cases replay)
    case None
    then have fresh: "fresh_key ''append_revision'' (ar_ProposalID request) (ar_IdempotencyKey request) db"
      using replay by (simp add: fresh_key_def lookup_None)
    from assms show thesis
      unfolding AppendProposalRevision_def
      by (simp only: h replay None mutation_unfold) (elim exE conjE, rule new [OF h fresh]; assumption)
  next
    case (Some r)
    with assms replay h have "m = r \<and> db' = db"
      unfolding AppendProposalRevision_def by (simp only: mutation_unfold prod.inject)
    with replay h Some that(1) show thesis by blast
  qed
qed

lemma DecideProposalApproval_cases:
  assumes "DecideProposalApproval now request db = Inr (m, db')"
  obtains (replay) h where "canonicalJSONHash (decisionRequestBody request) = Inr h"
    "lookupProposalIdempotency db ''decide_approval'' (dr_ApprovalID request) (dr_IdempotencyKey request) h = Inr (Some m)"
    "db' = db"
  | (new) h x p l db1 db2 db3 where "canonicalJSONHash (decisionRequestBody request) = Inr h"
    "fresh_key ''decide_approval'' (dr_ApprovalID request) (dr_IdempotencyKey request) db"
    "dr_Decision request = ApprovalStateApproved \<or> dr_Decision request = ApprovalStateRejected"
    "find_approval (dr_ApprovalID request) (task_proposal_approvals db) = Some x"
    "ap_ident x = (dr_ProposalID request, dr_Revision request, dr_RevisionHash request)" "ap_State x = ApprovalStatePending"
    "decided_pair db request = Some (p, l)"
    "pr_State p = ProposalStateOpen" "pr_CurrentRevision p = dr_Revision request"
    "pr_CurrentRevisionHash p = dr_RevisionHash request" "lc_State l = RevisionLifecycleStatePending"
    "decide_lifecycle now request db = Inr db1" "decide_approval now request db1 = Inr db2"
    "(if dr_Decision request = ApprovalStateApproved
      then close_proposal ProposalStateApproved (dr_ProposalID request) (dr_Revision request) (dr_RevisionHash request)
        ErrApprovalConflict db2 else Inr db2) = Inr db3"
    "record_mutation ''decide_approval'' (dr_ApprovalID request) (dr_IdempotencyKey request) h now
       \<lparr>mu_ProposalID = dr_ProposalID request, mu_Revision = dr_Revision request, mu_RevisionHash = dr_RevisionHash request,
        mu_ApprovalID = dr_ApprovalID request\<rparr> db3 = Inr (m, db')"
proof -
  from assms obtain h replay where h: "canonicalJSONHash (decisionRequestBody request) = Inr h"
    and replay: "lookupProposalIdempotency db ''decide_approval'' (dr_ApprovalID request) (dr_IdempotencyKey request) h = Inr replay"
    unfolding DecideProposalApproval_def by (simp only: mutation_unfold) (elim exE conjE, rule that)
  show thesis
  proof (cases replay)
    case None
    then have fresh: "fresh_key ''decide_approval'' (dr_ApprovalID request) (dr_IdempotencyKey request) db"
      using replay by (simp add: fresh_key_def lookup_None)
    from assms show thesis
      unfolding DecideProposalApproval_def validateDecideProposalApprovalRequest_def
      by (simp only: h replay None mutation_unfold) (elim exE conjE, rule new [OF h fresh]; assumption)
  next
    case (Some r)
    with assms replay h have "m = r \<and> db' = db"
      unfolding DecideProposalApproval_def by (simp only: mutation_unfold prod.inject)
    with replay h Some that(1) show thesis by blast
  qed
qed

lemma WithdrawProposal_cases:
  assumes "WithdrawProposal now request db = Inr (m, db')"
  obtains (replay) h where "canonicalJSONHash (withdrawProposalRequestBody request) = Inr h"
    "lookupProposalIdempotency db ''withdraw_proposal'' (wr_ProposalID request) (wr_IdempotencyKey request) h = Inr (Some m)"
    "db' = db"
  | (new) h p l x db1 db2 where "canonicalJSONHash (withdrawProposalRequestBody request) = Inr h"
    "fresh_key ''withdraw_proposal'' (wr_ProposalID request) (wr_IdempotencyKey request) db"
    "find_proposal (wr_ProposalID request) (task_proposals db) = Some p" "pr_State p = ProposalStateOpen"
    "current_pair db (wr_ProposalID request) (pr_CurrentRevision p) (pr_CurrentRevisionHash p) = Some (l, x)"
    "lc_State l = RevisionLifecycleStatePending \<or> lc_State l = RevisionLifecycleStateRejected"
    "(if lc_State l = RevisionLifecycleStatePending
      then withdraw_pair now (wr_ProposalID request) (pr_CurrentRevision p) (pr_CurrentRevisionHash p) (lc_ApprovalID l) db
      else Inr db) = Inr db1"
    "close_proposal ProposalStateWithdrawn (wr_ProposalID request) (pr_CurrentRevision p)
       (pr_CurrentRevisionHash p) ErrProposalConflict db1 = Inr db2"
    "record_mutation ''withdraw_proposal'' (wr_ProposalID request) (wr_IdempotencyKey request) h now
       \<lparr>mu_ProposalID = wr_ProposalID request, mu_Revision = pr_CurrentRevision p,
        mu_RevisionHash = pr_CurrentRevisionHash p, mu_ApprovalID = lc_ApprovalID l\<rparr> db2 = Inr (m, db')"
proof -
  from assms obtain h replay where h: "canonicalJSONHash (withdrawProposalRequestBody request) = Inr h"
    and replay: "lookupProposalIdempotency db ''withdraw_proposal'' (wr_ProposalID request) (wr_IdempotencyKey request) h = Inr replay"
    unfolding WithdrawProposal_def by (simp only: mutation_unfold) (elim exE conjE, rule that)
  show thesis
  proof (cases replay)
    case None
    then have fresh: "fresh_key ''withdraw_proposal'' (wr_ProposalID request) (wr_IdempotencyKey request) db"
      using replay by (simp add: fresh_key_def lookup_None)
    from assms show thesis
      unfolding WithdrawProposal_def
      by (simp only: h replay None mutation_unfold) (elim exE conjE, rule new [OF h fresh]; assumption)
  next
    case (Some r)
    with assms replay h have "m = r \<and> db' = db"
      unfolding WithdrawProposal_def by (simp only: mutation_unfold prod.inject)
    with replay h Some that(1) show thesis by blast
  qed
qed

subsection \<open>Rows of a pair\<close>

definition set_lifecycle :: "string \<Rightarrow> RevisionLifecycleState \<Rightarrow> stamp \<Rightarrow> RevisionLifecycle list \<Rightarrow> RevisionLifecycle list" where
  "set_lifecycle i st now lcs = update_where (\<lambda>l. lc_ApprovalID l = i)
     (\<lambda>l. l\<lparr>lc_State := st, lc_UpdatedAt := now, lc_Version := lc_Version l + 1\<rparr>) lcs"

definition set_approval :: "string \<Rightarrow> (Approval \<Rightarrow> Approval) \<Rightarrow> Approval list \<Rightarrow> Approval list" where
  "set_approval i g aps = update_where (\<lambda>a. ap_ApprovalID a = i) g aps"

lemma toLifecycle_pending [simp]: "toLifecycle s = RevisionLifecycleStatePending \<longleftrightarrow> s = ApprovalStatePending"
  by (cases s) simp_all

lemma pairs_maps:
  assumes "map ap_pair aps = map lc_pair lcs"
  shows "map ap_ident aps = map lc_ident lcs" "map ap_ApprovalID aps = map lc_ApprovalID lcs"
    "map (toLifecycle \<circ> ap_State) aps = map lc_State lcs"
  using arg_cong [OF assms, of "map (fst \<circ> fst)"] arg_cong [OF assms, of "map (snd \<circ> fst)"]
    arg_cong [OF assms, of "map snd"]
  by (simp_all add: ap_pair_def lc_pair_def comp_def)

lemma pairs_partner:
  assumes "map ap_pair aps = map lc_pair lcs"
  shows "l \<in> set lcs \<Longrightarrow> \<exists>a \<in> set aps. ap_pair a = lc_pair l" "a \<in> set aps \<Longrightarrow> \<exists>l \<in> set lcs. ap_pair a = lc_pair l"
  using arg_cong [OF assms, of set] by (force simp: image_iff)+

lemma pairs_ok_distinct:
  assumes "pairs_ok revs aps lcs"
  shows "distinct (map lc_ApprovalID lcs)"
  using assms pairs_maps(2) [of aps lcs] by (simp add: pairs_ok_def)

lemma pairs_ok_numbers:
  assumes "pairs_ok revs aps lcs" "numbering_ok ps revs"
  shows "distinct (map (\<lambda>l. (lc_ProposalID l, lc_Revision l)) lcs)"
proof -
  have "distinct (map (\<lambda>r. (rv_ProposalID r, rv_Revision r)) revs)"
    using assms(2) revision_log.log_key_unique [of revs] by (simp add: numbering_ok_def unique_key_def)
  also have "map (\<lambda>r. (rv_ProposalID r, rv_Revision r)) revs = map (\<lambda>(a, b, c). (a, b)) (map rv_ident revs)"
    by (simp add: rv_ident_def comp_def)
  also have "\<dots> = map (\<lambda>l. (lc_ProposalID l, lc_Revision l)) lcs"
    using assms(1) by (simp add: pairs_ok_def lc_ident_def comp_def)
  finally show ?thesis .
qed

lemma pairs_ok_snoc:
  assumes "pairs_ok revs aps lcs" "h \<notin> rv_RevisionHash ` set revs" "a \<notin> ap_ApprovalID ` set aps"
  shows "pairs_ok (revs @ [\<lparr>rv_ProposalID = p, rv_Revision = n, rv_RevisionHash = h, rv_Snapshot = snap\<rparr>])
    (aps @ [pending_approval now a p n h]) (lcs @ [pending_lifecycle now a p n h])"
  using assms
  by (auto simp: pairs_ok_def rv_ident_def lc_ident_def ap_ident_def lc_pair_def ap_pair_def pending_approval_def
      pending_lifecycle_def)

lemma set_pair_maps:
  assumes "map ap_pair aps = map lc_pair lcs"
    and "\<And>a. ap_ident (g a) = ap_ident a" "\<And>a. ap_ApprovalID (g a) = ap_ApprovalID a" "\<And>a. toLifecycle (ap_State (g a)) = st"
  shows "map ap_pair (set_approval i g aps) = map lc_pair (set_lifecycle i st now lcs)"
  using assms(1)
proof (induction aps arbitrary: lcs)
  case (Cons a aps)
  then obtain l lcs' where lcs: "lcs = l # lcs'" and eq: "ap_pair a = lc_pair l" "map ap_pair aps = map lc_pair lcs'"
    by (cases lcs) auto
  have "ap_pair (if ap_ApprovalID a = i then g a else a) =
      lc_pair (if lc_ApprovalID l = i then l\<lparr>lc_State := st, lc_UpdatedAt := now, lc_Version := lc_Version l + 1\<rparr> else l)"
    using eq(1) assms by (auto simp: ap_pair_def lc_pair_def lc_ident_def)
  then show ?case using Cons.IH [OF eq(2)] by (simp add: lcs set_approval_def set_lifecycle_def)
qed (simp add: set_approval_def set_lifecycle_def)

lemma set_lifecycle_maps [simp]:
  "map lc_ident (set_lifecycle i st now lcs) = map lc_ident lcs"
  "map lc_ApprovalID (set_lifecycle i st now lcs) = map lc_ApprovalID lcs"
  "pair_ids (set_lifecycle i st now lcs) = pair_ids lcs"
  by (simp_all add: set_lifecycle_def pair_ids_def lc_ident_def)

lemma pairs_ok_set:
  assumes "pairs_ok revs aps lcs"
    and "\<And>a. ap_ident (g a) = ap_ident a" "\<And>a. ap_ApprovalID (g a) = ap_ApprovalID a" "\<And>a. toLifecycle (ap_State (g a)) = st"
  shows "pairs_ok revs (set_approval i g aps) (set_lifecycle i st now lcs)"
proof -
  have "map ap_ApprovalID (set_approval i g aps) = map ap_ApprovalID aps"
    using assms(3) by (simp add: set_approval_def)
  then show ?thesis
    using assms(1) set_pair_maps [OF _ assms(2-4)] by (simp add: pairs_ok_def)
qed

subsection \<open>Numbering\<close>

lemma numbering_ok_create:
  assumes num: "numbering_ok ps revs" and new: "find_proposal p ps = None"
    and r: "rv_ProposalID r = p" "rv_Revision r = 1" and q: "q = created_proposal now p request (rv_RevisionHash r)"
  shows "numbering_ok (ps @ [q]) (revs @ [r])"
proof -
  have u: "unique_key pr_ProposalID ps" and sub: "rv_ProposalID ` set revs \<subseteq> pr_ProposalID ` set ps"
    using num by (simp_all add: numbering_ok_def)
  have qid: "pr_ProposalID q = p" by (simp add: q created_proposal_def)
  have fresh: "p \<notin> pr_ProposalID ` set ps" using new proposals_tab.get_None [OF u] by simp
  then have "p \<notin> rv_ProposalID ` set revs" using sub by blast
  then have empty: "log_seqs rv_ProposalID rv_Revision p revs = []"
    by (auto simp: log_seqs_def filter_empty_conv)
  have "gapless 1 (log_seqs rv_ProposalID rv_Revision k (revs @ [r]))" for k
    using revision_log.log_first [of revs r k] num empty r by (simp add: numbering_ok_def)
  moreover have "unique_key pr_ProposalID (ps @ [q])"
    using proposals_tab.unique_key_insert [of ps q] u new by (simp add: qid)
  moreover have "(p, 1, pr_CurrentRevisionHash q) = rv_ident r" "pr_CurrentRevision q = 1"
    using r by (simp_all add: rv_ident_def q created_proposal_def)
  ultimately show ?thesis
    using num fresh empty r qid by (auto simp: numbering_ok_def log_seqs_snoc)
qed

lemma numbering_ok_advance:
  assumes num: "numbering_ok ps revs" and p: "p \<in> set ps"
    and r: "rv_ProposalID r = pr_ProposalID p" "rv_Revision r = pr_CurrentRevision p + 1"
  shows "numbering_ok (update_where (\<lambda>x. pr_ProposalID x = pr_ProposalID p)
    (\<lambda>x. x\<lparr>pr_CurrentRevision := rv_Revision r, pr_CurrentRevisionHash := rv_RevisionHash r\<rparr>) ps) (revs @ [r])"
    (is "numbering_ok (update_where ?p ?f ps) _")
proof -
  have len: "pr_CurrentRevision p = int (length (log_seqs rv_ProposalID rv_Revision (pr_ProposalID p) revs))"
    using num p by (simp add: numbering_ok_def)
  have g: "gapless 1 (log_seqs rv_ProposalID rv_Revision k (revs @ [r]))" for k
    using num r len by (auto simp: numbering_ok_def log_seqs_snoc gapless_snoc)
  have "map pr_ProposalID (update_where ?p ?f ps) = map pr_ProposalID ps" by simp
  then have ids: "pr_ProposalID ` set (update_where ?p ?f ps) = pr_ProposalID ` set ps" by (metis list.set_map)
  have u: "unique_key pr_ProposalID (update_where ?p ?f ps)"
    using num by (simp add: numbering_ok_def unique_key_def)
  have cur: "(pr_ProposalID x, pr_CurrentRevision x, pr_CurrentRevisionHash x) \<in> rv_ident ` set (revs @ [r])
      \<and> pr_CurrentRevision x = int (length (log_seqs rv_ProposalID rv_Revision (pr_ProposalID x) (revs @ [r])))"
    if x: "x \<in> set (update_where ?p ?f ps)" for x
  proof -
    from x obtain y where y: "y \<in> set ps" and xy: "x = (if ?p y then ?f y else y)" by (auto simp: set_update_where)
    show ?thesis
    proof (cases "?p y")
      case True
      then show ?thesis using r len by (simp add: xy rv_ident_def log_seqs_snoc)
    next
      case False
      then show ?thesis using num y r by (auto simp: xy numbering_ok_def log_seqs_snoc)
    qed
  qed
  have sub: "rv_ProposalID ` set (revs @ [r]) \<subseteq> pr_ProposalID ` set (update_where ?p ?f ps)"
    using num p r unfolding ids by (auto simp: numbering_ok_def)
  show ?thesis unfolding numbering_ok_def
    by (intro conjI allI ballI u g sub cur [THEN conjunct1] cur [THEN conjunct2])
qed

lemma numbering_ok_close:
  assumes "numbering_ok ps revs"
  shows "numbering_ok (update_where q (\<lambda>r. r\<lparr>pr_State := st\<rparr>) ps) revs" (is "numbering_ok ?ps _")
proof -
  have "map pr_ProposalID ?ps = map pr_ProposalID ps" by simp
  then have "unique_key pr_ProposalID ?ps = unique_key pr_ProposalID ps" "pr_ProposalID ` set ?ps = pr_ProposalID ` set ps"
    by (simp add: unique_key_def) (metis \<open>map pr_ProposalID ?ps = map pr_ProposalID ps\<close> list.set_map)
  moreover have "\<exists>y \<in> set ps. pr_ProposalID x = pr_ProposalID y \<and> pr_CurrentRevision x = pr_CurrentRevision y
      \<and> pr_CurrentRevisionHash x = pr_CurrentRevisionHash y" if "x \<in> set ?ps" for x
    using that by (auto simp: set_update_where)
  ultimately show ?thesis using assms unfolding numbering_ok_def by metis
qed

subsection \<open>Logs and snapshots\<close>

lemma logs_ok_record:
  assumes logs: "logs_ok ids (task_proposal_activity db) lcs" and sub: "set (pair_ids lcs) \<subseteq> set (pair_ids lcs')"
    and m: "mu_pair m \<in> set (pair_ids lcs')"
    and fresh: "(localGUIOperator, operation, resource, key) \<notin> idem_key ` set ids"
  shows "logs_ok (ids @ [idem_row operation resource key h m])
    (task_proposal_activity db @ [activity_row db operation now m]) lcs'"
proof -
  have "gapless 1 (log_seqs ac_ProposalID ac_Sequence k
      (task_proposal_activity db @ [activity_row db operation now m]))" for k
    by (rule activity_log.log_append) (use logs in \<open>simp_all add: logs_ok_def activity_row_def activity_seqs_def\<close>)
  moreover have "ac_pair (activity_row db operation now m) = mu_pair m"
    by (simp add: ac_pair_def activity_row_def mu_pair_def mu_ident_def)
  moreover have "idem_key (idem_row operation resource key h m) = (localGUIOperator, operation, resource, key)"
    by (simp add: idem_key_def idem_row_def)
  ultimately show ?thesis
    using logs sub m fresh by (auto simp: logs_ok_def idem_row_def)
qed

lemma fresh_key_idem:
  "find_idempotency operation resource key db = None \<longleftrightarrow>
     (localGUIOperator, operation, resource, key) \<notin> idem_key ` set (task_proposal_idempotency db)"
  by (auto simp: find_idempotency_def find_None_iff_set idem_key_def image_iff)

lemma parent_ok_mono: "parent_ok revs v \<Longrightarrow> set revs \<subseteq> set revs' \<Longrightarrow> parent_ok revs' v"
  by (auto simp: parent_ok_def split: if_splits)

lemma snapshots_ok_snoc:
  assumes "snapshots_ok revs" "snapshot_of revs r v"
  shows "snapshots_ok (revs @ [r])"
proof -
  have "snapshot_of (revs @ [r]) x w" if "snapshot_of revs x w" for x w
    using that by (auto simp: snapshot_of_def intro: parent_ok_mono)
  with assms show ?thesis unfolding snapshots_ok_def by fastforce
qed

subsection \<open>The rows a review updates\<close>

lemma current_pair_SomeD:
  assumes "current_pair db p n h = Some (l, x)"
  shows "l \<in> set (task_proposal_revision_lifecycles db)" "lc_ident l = (p, n, h)"
  using find_SomeD [OF assms [unfolded current_pair_def]] by auto

lemma decided_pair_SomeD:
  assumes "decided_pair db request = Some (p, l)"
  shows "p \<in> set (task_proposals db)" "l \<in> set (task_proposal_revision_lifecycles db)"
    "pr_ProposalID p = dr_ProposalID request" "lc_ApprovalID l = dr_ApprovalID request"
    "lc_ident l = (dr_ProposalID request, dr_Revision request, dr_RevisionHash request)"
  using find_SomeD [OF assms [unfolded decided_pair_def]] by (auto simp: lc_ident_def)

text \<open>The guards of the updates single out the pair by its approval id.\<close>

lemma pending_lifecycle_rows:
  assumes "pairs_ok revs aps lcs" "numbering_ok ps revs"
    and l: "l \<in> set lcs" "lc_State l = RevisionLifecycleStatePending" "lc_ident l = (p, n, h)" and l': "l' \<in> set lcs"
  shows "(lc_ProposalID l' = p \<and> lc_Revision l' = n \<and> lc_State l' = RevisionLifecycleStatePending) = (lc_ApprovalID l' = lc_ApprovalID l)"
    and "(lc_ProposalID l' = p \<and> lc_Revision l' = n \<and> lc_RevisionHash l' = h \<and> lc_ApprovalID l' = lc_ApprovalID l
      \<and> lc_State l' = RevisionLifecycleStatePending) = (lc_ApprovalID l' = lc_ApprovalID l)"
proof -
  have "l' = l" if "lc_ApprovalID l' = lc_ApprovalID l"
    using pairs_ok_distinct [OF assms(1)] l(1) l' that by (auto simp: distinct_map dest: inj_onD)
  moreover have "l' = l" if "lc_ProposalID l' = lc_ProposalID l" "lc_Revision l' = lc_Revision l"
    using pairs_ok_numbers [OF assms(1,2)] l(1) l' that by (auto simp: distinct_map dest: inj_onD)
  moreover have "lc_ProposalID l = p" "lc_Revision l = n" "lc_RevisionHash l = h" using l(3) by (simp_all add: lc_ident_def)
  ultimately show "(lc_ProposalID l' = p \<and> lc_Revision l' = n \<and> lc_State l' = RevisionLifecycleStatePending) = (lc_ApprovalID l' = lc_ApprovalID l)"
    and "(lc_ProposalID l' = p \<and> lc_Revision l' = n \<and> lc_RevisionHash l' = h \<and> lc_ApprovalID l' = lc_ApprovalID l
      \<and> lc_State l' = RevisionLifecycleStatePending) = (lc_ApprovalID l' = lc_ApprovalID l)"
    using l(2) by metis+
qed

lemma pending_approval_rows:
  assumes "pairs_ok revs aps lcs" "numbering_ok ps revs"
    and l: "l \<in> set lcs" "lc_State l = RevisionLifecycleStatePending" "lc_ident l = (p, n, h)" and a: "a \<in> set aps"
  shows "(ap_ProposalID a = p \<and> ap_Revision a = n \<and> ap_State a = ApprovalStatePending) = (ap_ApprovalID a = lc_ApprovalID l)"
    and "(ap_ApprovalID a = lc_ApprovalID l \<and> ap_State a = ApprovalStatePending) = (ap_ApprovalID a = lc_ApprovalID l)"
proof -
  obtain l' where l': "l' \<in> set lcs" "ap_pair a = lc_pair l'"
    using pairs_partner(2) [of aps lcs a] assms(1) a by (auto simp: pairs_ok_def)
  then have eq: "ap_ProposalID a = lc_ProposalID l'" "ap_Revision a = lc_Revision l'" "ap_RevisionHash a = lc_RevisionHash l'"
    "ap_ApprovalID a = lc_ApprovalID l'" "(ap_State a = ApprovalStatePending) = (lc_State l' = RevisionLifecycleStatePending)"
    by (auto simp: ap_pair_def lc_pair_def ap_ident_def lc_ident_def simp flip: toLifecycle_pending)
  show "(ap_ProposalID a = p \<and> ap_Revision a = n \<and> ap_State a = ApprovalStatePending) = (ap_ApprovalID a = lc_ApprovalID l)"
    and "(ap_ApprovalID a = lc_ApprovalID l \<and> ap_State a = ApprovalStatePending) = (ap_ApprovalID a = lc_ApprovalID l)"
    using pending_lifecycle_rows [OF assms(1,2) l l'(1)] unfolding eq by blast+
qed

text \<open>Likewise the guard on a proposal, for the row that was read.\<close>

lemma open_proposal_rows:
  assumes "unique_key pr_ProposalID ps" "p \<in> set ps" "pr_State p = ProposalStateOpen" "x \<in> set ps"
  shows "(pr_ProposalID x = pr_ProposalID p \<and> pr_State x = ProposalStateOpen
      \<and> pr_CurrentRevision x = pr_CurrentRevision p \<and> pr_CurrentRevisionHash x = pr_CurrentRevisionHash p) =
    (pr_ProposalID x = pr_ProposalID p)"
proof -
  have "x = p" if "pr_ProposalID x = pr_ProposalID p"
    using assms that by (auto simp: unique_key_def distinct_map dest: inj_onD)
  then show ?thesis using assms by auto
qed

lemma pending_updates:
  assumes "pairs_ok revs aps lcs" "numbering_ok ps revs"
    and "l \<in> set lcs" "lc_State l = RevisionLifecycleStatePending" "lc_ident l = (p, n, h)"
  shows "update_where (\<lambda>x. lc_ProposalID x = p \<and> lc_Revision x = n \<and> lc_State x = RevisionLifecycleStatePending) f lcs =
      update_where (\<lambda>x. lc_ApprovalID x = lc_ApprovalID l) f lcs"
    and "update_where (\<lambda>x. lc_ProposalID x = p \<and> lc_Revision x = n \<and> lc_RevisionHash x = h
      \<and> lc_ApprovalID x = lc_ApprovalID l \<and> lc_State x = RevisionLifecycleStatePending) f lcs =
      update_where (\<lambda>x. lc_ApprovalID x = lc_ApprovalID l) f lcs"
    and "update_where (\<lambda>a. ap_ProposalID a = p \<and> ap_Revision a = n \<and> ap_State a = ApprovalStatePending) g aps =
      update_where (\<lambda>a. ap_ApprovalID a = lc_ApprovalID l) g aps"
    and "update_where (\<lambda>a. ap_ApprovalID a = lc_ApprovalID l \<and> ap_State a = ApprovalStatePending) g aps =
      update_where (\<lambda>a. ap_ApprovalID a = lc_ApprovalID l) g aps"
  by (rule update_where_cong, erule pending_lifecycle_rows [OF assms] pending_approval_rows [OF assms])+

lemma open_update:
  assumes "unique_key pr_ProposalID ps" "p \<in> set ps" "pr_State p = ProposalStateOpen"
  shows "update_where (\<lambda>x. pr_ProposalID x = pr_ProposalID p \<and> pr_State x = ProposalStateOpen
      \<and> pr_CurrentRevision x = pr_CurrentRevision p \<and> pr_CurrentRevisionHash x = pr_CurrentRevisionHash p) f ps =
    update_where (\<lambda>x. pr_ProposalID x = pr_ProposalID p) f ps"
  by (rule update_where_cong, erule open_proposal_rows [OF assms])

definition advance :: "string \<Rightarrow> int \<Rightarrow> string \<Rightarrow> Proposal list \<Rightarrow> Proposal list" where
  "advance i n h ps = update_where (\<lambda>x. pr_ProposalID x = i) (\<lambda>x. x\<lparr>pr_CurrentRevision := n, pr_CurrentRevisionHash := h\<rparr>) ps"

definition close :: "string \<Rightarrow> ProposalState \<Rightarrow> Proposal list \<Rightarrow> Proposal list" where
  "close i st ps = update_where (\<lambda>x. pr_ProposalID x = i) (\<lambda>x. x\<lparr>pr_State := st\<rparr>) ps"

subsection \<open>What each mutation writes\<close>

text \<open>The two log rows of a mutation that is not a replay.\<close>

definition logged :: "string \<Rightarrow> string \<Rightarrow> string \<Rightarrow> string \<Rightarrow> stamp \<Rightarrow> ProposalMutation \<Rightarrow> ProposalDB \<Rightarrow> ProposalDB \<Rightarrow> bool" where
  "logged operation resource key h now m db db' \<longleftrightarrow>
     find_idempotency operation resource key db = None
   \<and> task_proposal_idempotency db' = task_proposal_idempotency db @ [idem_row operation resource key h m]
   \<and> task_proposal_activity db' = task_proposal_activity db @ [activity_row db operation now m]"

text \<open>The tables other than the two logs.\<close>

definition same_reviews :: "ProposalDB \<Rightarrow> ProposalDB \<Rightarrow> bool" where
  "same_reviews db db' \<longleftrightarrow> task_proposals db' = task_proposals db
     \<and> task_proposal_revisions db' = task_proposal_revisions db \<and> task_proposal_approvals db' = task_proposal_approvals db
     \<and> task_proposal_revision_lifecycles db' = task_proposal_revision_lifecycles db"

definition same_logs :: "ProposalDB \<Rightarrow> ProposalDB \<Rightarrow> bool" where
  "same_logs db db' \<longleftrightarrow> task_proposal_idempotency db' = task_proposal_idempotency db
     \<and> task_proposal_activity db' = task_proposal_activity db"

lemma record_mutation_logged:
  assumes "record_mutation operation resource key h now m0 db1 = Inr (m, db')" "same_logs db db1"
  shows "m = m0" "logged operation resource key h now m db db'" "same_reviews db1 db'"
    "validateProposalMutationIdentity db1 m = Inr ()"
  using assms
  by (auto simp: record_mutation_Inr logged_def same_reviews_def same_logs_def activity_row_def activity_seqs_def
      find_idempotency_def)

lemma proposal_invD:
  assumes "proposal_inv db"
  shows "pairs_ok (task_proposal_revisions db) (task_proposal_approvals db) (task_proposal_revision_lifecycles db)"
    "numbering_ok (task_proposals db) (task_proposal_revisions db)" "unique_key pr_ProposalID (task_proposals db)"
    "reviews_ok (task_proposals db) (task_proposal_revision_lifecycles db)"
    "logs_ok (task_proposal_idempotency db) (task_proposal_activity db) (task_proposal_revision_lifecycles db)"
    "snapshots_ok (task_proposal_revisions db)"
  using assms by (simp_all add: proposal_inv_def) (simp add: numbering_ok_def)

lemma close_proposal_form:
  assumes "close_proposal st (pr_ProposalID p) (pr_CurrentRevision p) (pr_CurrentRevisionHash p) e db = Inr db'"
    and "unique_key pr_ProposalID (task_proposals db)" "p \<in> set (task_proposals db)" "pr_State p = ProposalStateOpen"
  shows "db' = db\<lparr>task_proposals := close (pr_ProposalID p) st (task_proposals db)\<rparr>"
  using assms(1) open_update [OF assms(2-4)]
  by (simp add: close_proposal_def andThen_Inr Let_def close_def)

lemma advance_current_form:
  assumes "advance_current (pr_ProposalID p) (pr_CurrentRevision p) (pr_CurrentRevisionHash p) n h db = Inr db'"
    and "unique_key pr_ProposalID (task_proposals db)" "p \<in> set (task_proposals db)" "pr_State p = ProposalStateOpen"
  shows "db' = db\<lparr>task_proposals := advance (pr_ProposalID p) n h (task_proposals db)\<rparr>"
  using assms(1) open_update [OF assms(2-4)]
  by (simp add: advance_current_def andThen_Inr Let_def advance_def)

lemma withdraw_pair_form:
  assumes "withdraw_pair now p n h (lc_ApprovalID l) db = Inr db'"
    and "proposal_inv db" "l \<in> set (task_proposal_revision_lifecycles db)" "lc_State l = RevisionLifecycleStatePending"
    "lc_ident l = (p, n, h)"
  shows "db' = db\<lparr>task_proposal_revision_lifecycles := set_lifecycle (lc_ApprovalID l) RevisionLifecycleStateWithdrawn now
        (task_proposal_revision_lifecycles db),
      task_proposal_approvals := set_approval (lc_ApprovalID l) (\<lambda>a. a\<lparr>ap_State := ApprovalStateWithdrawn\<rparr>)
        (task_proposal_approvals db)\<rparr>"
  using assms(1) pending_updates(2,4) [OF proposal_invD(1,2) [OF assms(2)] assms(3-5)]
  by (simp add: withdraw_pair_def andThen_Inr Let_def set_lifecycle_def set_approval_def)

end
