(* ===== verification/Proposal_Steps.thy ===== *)
theory Proposal_Steps
  imports Proposal_Invariants
begin

section \<open>The mutations preserve the proposal invariant\<close>

text \<open>
  For each mutation the rows a successful call writes, and from them that \<open>proposal_inv\<close> is kept.
\<close>

subsection \<open>Deciding\<close>

definition decided_rows :: "stamp \<Rightarrow> DecideProposalApprovalRequest \<Rightarrow> string \<Rightarrow> ProposalDB \<Rightarrow> ProposalDB" where
  "decided_rows now request i db =
     db\<lparr>task_proposal_revision_lifecycles := set_lifecycle i (toLifecycle (dr_Decision request)) now
          (task_proposal_revision_lifecycles db),
        task_proposal_approvals := set_approval i
         (\<lambda>a. a\<lparr>ap_State := dr_Decision request, ap_DecidedAt := Some now, ap_DecidedBy := Some localGUIOperator,
            ap_DecisionIdempotencyKey := Some (dr_IdempotencyKey request), ap_Reason := Some (dr_Reason request)\<rparr>)
          (task_proposal_approvals db)\<rparr>"

definition decided_rows_closed :: "stamp \<Rightarrow> DecideProposalApprovalRequest \<Rightarrow> Proposal \<Rightarrow> string \<Rightarrow> ProposalDB \<Rightarrow> ProposalDB" where
  "decided_rows_closed now request p i db =
     (if dr_Decision request = ApprovalStateApproved
      then (decided_rows now request i db)\<lparr>task_proposals := close (pr_ProposalID p) ProposalStateApproved (task_proposals db)\<rparr>
      else decided_rows now request i db)"

lemma decide_prelog:
  assumes inv: "proposal_inv db" and pair: "decided_pair db request = Some (p, l)"
    and p: "pr_State p = ProposalStateOpen" "pr_CurrentRevision p = dr_Revision request"
      "pr_CurrentRevisionHash p = dr_RevisionHash request" and l: "lc_State l = RevisionLifecycleStatePending"
    and upd: "decide_lifecycle now request db = Inr db1" "decide_approval now request db1 = Inr db2"
      "(if dr_Decision request = ApprovalStateApproved
        then close_proposal ProposalStateApproved (dr_ProposalID request) (dr_Revision request) (dr_RevisionHash request)
          ErrApprovalConflict db2 else Inr db2) = Inr db3"
  shows "db3 = decided_rows_closed now request p (lc_ApprovalID l) db"
proof -
  note pl = decided_pair_SomeD [OF pair]
  have db2: "db2 = decided_rows now request (lc_ApprovalID l) db"
    using upd(1,2) pending_updates(2,4) [OF proposal_invD(1,2) [OF inv] pl(2) l pl(5)]
    by (auto simp: decided_rows_def decide_lifecycle_def decide_approval_def andThen_Inr Let_def set_lifecycle_def
        set_approval_def pl(4))
  then have ps: "task_proposals db2 = task_proposals db" by (simp add: decided_rows_def)
  show ?thesis
  proof (cases "dr_Decision request = ApprovalStateApproved")
    case True
    have "db3 = db2\<lparr>task_proposals := close (pr_ProposalID p) ProposalStateApproved (task_proposals db2)\<rparr>"
      by (rule close_proposal_form [of ProposalStateApproved p ErrApprovalConflict db2 db3])
        (use upd(3) True pl(1,3) p proposal_invD(3) [OF inv] in \<open>simp_all add: ps\<close>)
    then show ?thesis using True by (simp add: decided_rows_closed_def db2 decided_rows_def)
  next
    case False
    then show ?thesis using upd(3) by (simp add: decided_rows_closed_def db2)
  qed
qed

lemma decide_writes:
  assumes inv: "proposal_inv db" and op: "DecideProposalApproval now request db = Inr (m, db')"
  obtains (replay) "db' = db"
  | (new) h p l where
    "logged ''decide_approval'' (dr_ApprovalID request) (dr_IdempotencyKey request) h now m db db'"
    "m = \<lparr>mu_ProposalID = dr_ProposalID request, mu_Revision = dr_Revision request, mu_RevisionHash = dr_RevisionHash request,
       mu_ApprovalID = dr_ApprovalID request\<rparr>"
    "p \<in> set (task_proposals db)" "pr_State p = ProposalStateOpen" "pr_ProposalID p = dr_ProposalID request"
    "l \<in> set (task_proposal_revision_lifecycles db)" "lc_ApprovalID l = dr_ApprovalID request"
    "lc_State l = RevisionLifecycleStatePending"
    "lc_ident l = (pr_ProposalID p, pr_CurrentRevision p, pr_CurrentRevisionHash p)"
    "lc_ident l = (dr_ProposalID request, dr_Revision request, dr_RevisionHash request)"
    "dr_Decision request = ApprovalStateApproved \<or> dr_Decision request = ApprovalStateRejected"
    "task_proposals db' = (if dr_Decision request = ApprovalStateApproved
       then close (pr_ProposalID p) ProposalStateApproved (task_proposals db) else task_proposals db)"
    "task_proposal_revisions db' = task_proposal_revisions db"
    "task_proposal_revision_lifecycles db' =
       set_lifecycle (lc_ApprovalID l) (toLifecycle (dr_Decision request)) now (task_proposal_revision_lifecycles db)"
    "task_proposal_approvals db' = set_approval (lc_ApprovalID l)
       (\<lambda>a. a\<lparr>ap_State := dr_Decision request, ap_DecidedAt := Some now, ap_DecidedBy := Some localGUIOperator,
          ap_DecisionIdempotencyKey := Some (dr_IdempotencyKey request), ap_Reason := Some (dr_Reason request)\<rparr>)
       (task_proposal_approvals db)"
  using op
proof (cases rule: DecideProposalApproval_cases)
  case replay
  then show ?thesis using that(1) by simp
next
  case (new h x p l db1 db2 db3)
  note pl = decided_pair_SomeD [OF new(7)]
  note db3 = decide_prelog [OF inv new(7-14), unfolded decided_rows_closed_def decided_rows_def]
  have logs: "same_logs db db3" by (simp add: db3 same_logs_def)
  note rec = record_mutation_logged [OF new(15) logs]
  show ?thesis
    by (rule that(2) [OF rec(2,1) pl(1) new(8) pl(3) pl(2) pl(4) new(11) _ pl(5) new(3)])
      (use rec(3) pl new(9,10) in \<open>simp_all add: same_reviews_def db3\<close>)
qed

subsection \<open>Review states\<close>

lemma unique_rows:
  assumes "distinct (map f t)" "x \<in> set t" "y \<in> set t" "f x = f y"
  shows "x = y"
  using assms by (auto simp: distinct_map dest: inj_onD)

lemma reviews_ok_settle:
  assumes pairs: "pairs_ok revs aps lcs" and num: "numbering_ok ps revs" and rev: "reviews_ok ps lcs"
    and p: "p \<in> set ps" and l: "l \<in> set lcs" "lc_ident l = (pr_ProposalID p, pr_CurrentRevision p, pr_CurrentRevisionHash p)"
    and f: "\<And>x. pr_ProposalID (f x) = pr_ProposalID x" "\<And>x. pr_CurrentRevision (f x) = pr_CurrentRevision x"
    and g: "\<And>x. lc_ident (g x) = lc_ident x" and ok: "review_ok (f p) (g l)"
  shows "reviews_ok (update_where (\<lambda>x. pr_ProposalID x = pr_ProposalID p) f ps)
    (update_where (\<lambda>x. lc_ApprovalID x = lc_ApprovalID l) g lcs)"
  unfolding reviews_ok_def
proof (intro ballI impI)
  fix p' l' assume "p' \<in> set (update_where (\<lambda>x. pr_ProposalID x = pr_ProposalID p) f ps)"
    and "l' \<in> set (update_where (\<lambda>x. lc_ApprovalID x = lc_ApprovalID l) g lcs)" and same: "lc_ProposalID l' = pr_ProposalID p'"
  then obtain p0 l0 where p0: "p0 \<in> set ps" "p' = (if pr_ProposalID p0 = pr_ProposalID p then f p0 else p0)"
    and l0: "l0 \<in> set lcs" "l' = (if lc_ApprovalID l0 = lc_ApprovalID l then g l0 else l0)"
    by (auto simp: set_update_where)
  have gl: "lc_ProposalID (g x) = lc_ProposalID x" "lc_Revision (g x) = lc_Revision x" for x
    using g [of x] by (simp_all add: lc_ident_def)
  have same0: "lc_ProposalID l0 = pr_ProposalID p0" using same p0(2) l0(2) f gl by (auto split: if_splits)
  have old: "review_ok p0 l0" using rev p0(1) l0(1) same0 by (simp add: reviews_ok_def)
  have p0_eq: "p0 = p" if "pr_ProposalID p0 = pr_ProposalID p"
    using num p p0(1) that unique_rows [of pr_ProposalID ps] by (auto simp: numbering_ok_def unique_key_def)
  have l_cols: "lc_ProposalID l = pr_ProposalID p" "lc_Revision l = pr_CurrentRevision p" using l(2) by (simp_all add: lc_ident_def)
  have a_eq: "l0 = l" if "lc_ApprovalID l0 = lc_ApprovalID l"
    using unique_rows [OF pairs_ok_distinct [OF pairs]] l0(1) l(1) that by blast
  have n_eq: "l0 = l" if "lc_ProposalID l0 = lc_ProposalID l" "lc_Revision l0 = lc_Revision l"
    using unique_rows [OF pairs_ok_numbers [OF pairs num], of l0 l] l0(1) l(1) that by simp
  show "review_ok p' l'"
  proof (cases "l0 = l")
    case True
    then show ?thesis using ok p0(2) l0(2) p0_eq same0 l_cols by simp
  next
    case False
    then have l': "l' = l0" using l0(2) a_eq by auto
    show ?thesis
    proof (cases "pr_ProposalID p0 = pr_ProposalID p")
      case True
      then have "lc_Revision l0 \<noteq> pr_CurrentRevision p0" using n_eq same0 l_cols p0_eq False by auto
      then show ?thesis using old p0(2) True f l' by (simp add: review_ok_def)
    next
      case False
      then show ?thesis using old p0(2) l' by simp
    qed
  qed
qed

subsection \<open>Preservation: deciding and withdrawing\<close>

lemma logged_ok:
  assumes "logged operation resource key h now m db db'" "proposal_inv db"
    and "set (pair_ids (task_proposal_revision_lifecycles db)) \<subseteq> set (pair_ids (task_proposal_revision_lifecycles db'))"
    and "mu_pair m \<in> set (pair_ids (task_proposal_revision_lifecycles db'))"
  shows "logs_ok (task_proposal_idempotency db') (task_proposal_activity db') (task_proposal_revision_lifecycles db')"
  using logs_ok_record [OF proposal_invD(5) [OF assms(2)] assms(3,4)] assms(1)
  by (simp add: logged_def fresh_key_idem)

lemma pair_ids_pending [simp]:
  "pair_ids (lcs @ [pending_lifecycle now a p n h]) = pair_ids lcs @ [((p, n, h), a)]"
  by (simp add: pair_ids_def pending_lifecycle_def lc_ident_def)

lemma in_pair_ids: "l \<in> set lcs \<Longrightarrow> (lc_ident l, lc_ApprovalID l) \<in> set (pair_ids lcs)"
  by (auto simp: pair_ids_def)

lemma proposal_inv_settle:
  assumes inv: "proposal_inv db" and p: "p \<in> set (task_proposals db)"
    and l: "l \<in> set (task_proposal_revision_lifecycles db)"
      "lc_ident l = (pr_ProposalID p, pr_CurrentRevision p, pr_CurrentRevisionHash p)"
    and g: "\<And>a. ap_ident (g a) = ap_ident a" "\<And>a. ap_ApprovalID (g a) = ap_ApprovalID a" "\<And>a. toLifecycle (ap_State (g a)) = st"
    and db': "task_proposals db' = close (pr_ProposalID p) pst (task_proposals db)"
      "task_proposal_revisions db' = task_proposal_revisions db"
      "task_proposal_revision_lifecycles db' = set_lifecycle (lc_ApprovalID l) st now (task_proposal_revision_lifecycles db)"
      "task_proposal_approvals db' = set_approval (lc_ApprovalID l) g (task_proposal_approvals db)"
    and log: "logged operation resource key h now m db db'" "mu_pair m = (lc_ident l, lc_ApprovalID l)"
    and ok: "(pst, st) \<in> {(ProposalStateOpen, RevisionLifecycleStateRejected),
      (ProposalStateApproved, RevisionLifecycleStateApproved), (ProposalStateWithdrawn, RevisionLifecycleStateWithdrawn)}"
  shows "proposal_inv db'"
proof -
  note I = proposal_invD [OF inv]
  have "review_ok (p\<lparr>pr_State := pst\<rparr>) (l\<lparr>lc_State := st, lc_UpdatedAt := now, lc_Version := lc_Version l + 1\<rparr>)"
    using ok l(2) by (auto simp: review_ok_def lc_ident_def)
  then have "reviews_ok (task_proposals db') (task_proposal_revision_lifecycles db')"
    unfolding db' close_def set_lifecycle_def
    by (intro reviews_ok_settle [OF I(1,2,4) p l]) (simp_all add: lc_ident_def)
  moreover have "pairs_ok (task_proposal_revisions db') (task_proposal_approvals db') (task_proposal_revision_lifecycles db')"
    unfolding db' by (rule pairs_ok_set [OF I(1) g])
  moreover have "logs_ok (task_proposal_idempotency db') (task_proposal_activity db') (task_proposal_revision_lifecycles db')"
    by (rule logged_ok [OF log(1) inv]) (simp_all add: db' log(2) in_pair_ids l(1))
  ultimately show ?thesis
    using numbering_ok_close [OF I(2)] I(6) by (simp add: proposal_inv_def db'(1,2) close_def)
qed

lemma close_open:
  assumes "unique_key pr_ProposalID ps" "p \<in> set ps" "pr_State p = ProposalStateOpen"
  shows "close (pr_ProposalID p) ProposalStateOpen ps = ps"
proof -
  have "x\<lparr>pr_State := ProposalStateOpen\<rparr> = x" if "x \<in> set ps" "pr_ProposalID x = pr_ProposalID p" for x
    using assms that unique_rows [of pr_ProposalID ps x p] by (simp add: unique_key_def)
  then show ?thesis by (simp add: close_def update_where_def map_idI)
qed

lemma proposal_inv_decide:
  assumes inv: "proposal_inv db" and op: "DecideProposalApproval now request db = Inr (m, db')"
  shows "proposal_inv db'"
  using inv op
proof (cases rule: decide_writes)
  case (new h p l)
  let ?st = "if dr_Decision request = ApprovalStateApproved then ProposalStateApproved else ProposalStateOpen"
  have ps: "task_proposals db' = close (pr_ProposalID p) ?st (task_proposals db)"
    using new(12) close_open [OF proposal_invD(3) [OF inv] new(3,4)] by simp
  show ?thesis
    by (rule proposal_inv_settle [OF inv new(3,6,9) _ _ _ ps new(13-15,1)])
      (use new(2,7,10,11) in \<open>auto simp: ap_ident_def mu_pair_def mu_ident_def\<close>)
qed (use inv in simp)

lemma withdraw_writes:
  assumes inv: "proposal_inv db" and op: "WithdrawProposal now request db = Inr (m, db')"
  obtains (replay) "db' = db"
  | (new) h p l where
    "logged ''withdraw_proposal'' (wr_ProposalID request) (wr_IdempotencyKey request) h now m db db'"
    "m = \<lparr>mu_ProposalID = pr_ProposalID p, mu_Revision = pr_CurrentRevision p, mu_RevisionHash = pr_CurrentRevisionHash p,
       mu_ApprovalID = lc_ApprovalID l\<rparr>"
    "p \<in> set (task_proposals db)" "pr_State p = ProposalStateOpen" "pr_ProposalID p = wr_ProposalID request"
    "l \<in> set (task_proposal_revision_lifecycles db)"
    "lc_ident l = (pr_ProposalID p, pr_CurrentRevision p, pr_CurrentRevisionHash p)"
    "lc_State l = RevisionLifecycleStatePending \<or> lc_State l = RevisionLifecycleStateRejected"
    "task_proposals db' = close (pr_ProposalID p) ProposalStateWithdrawn (task_proposals db)"
    "task_proposal_revisions db' = task_proposal_revisions db"
    "task_proposal_revision_lifecycles db' = (if lc_State l = RevisionLifecycleStatePending
       then set_lifecycle (lc_ApprovalID l) RevisionLifecycleStateWithdrawn now (task_proposal_revision_lifecycles db)
       else task_proposal_revision_lifecycles db)"
    "task_proposal_approvals db' = (if lc_State l = RevisionLifecycleStatePending
       then set_approval (lc_ApprovalID l) (\<lambda>a. a\<lparr>ap_State := ApprovalStateWithdrawn\<rparr>) (task_proposal_approvals db)
       else task_proposal_approvals db)"
  using op
proof (cases rule: WithdrawProposal_cases)
  case replay
  then show ?thesis using that(1) by simp
next
  case (new h p l x db1 db2)
  have p: "p \<in> set (task_proposals db)" "pr_ProposalID p = wr_ProposalID request"
    using new(3) proposals_tab.get_Some [OF proposal_invD(3) [OF inv]] by auto
  note l = current_pair_SomeD [OF new(5)]
  have db1: "db1 = (if lc_State l = RevisionLifecycleStatePending
      then db\<lparr>task_proposal_revision_lifecycles := set_lifecycle (lc_ApprovalID l) RevisionLifecycleStateWithdrawn now
          (task_proposal_revision_lifecycles db),
        task_proposal_approvals := set_approval (lc_ApprovalID l) (\<lambda>a. a\<lparr>ap_State := ApprovalStateWithdrawn\<rparr>)
          (task_proposal_approvals db)\<rparr> else db)"
    using new(7) withdraw_pair_form [OF _ inv l(1) _ l(2)] by auto
  have db2: "db2 = db1\<lparr>task_proposals := close (pr_ProposalID p) ProposalStateWithdrawn (task_proposals db1)\<rparr>"
    using close_proposal_form [OF new(8) [folded p(2)] _ _ new(4)] proposal_invD(3) [OF inv] p(1) by (simp add: db1)
  have logs: "same_logs db db2" by (simp add: db2 db1 same_logs_def)
  note rec = record_mutation_logged [OF new(9) logs]
  show ?thesis
    by (rule that(2) [OF rec(2) _ p(1) new(4) p(2) l(1) _ new(6)])
      (use rec(1,3) p(2) l(2) in \<open>simp_all add: same_reviews_def db2 db1\<close>)
qed

lemma proposal_inv_withdraw:
  assumes inv: "proposal_inv db" and op: "WithdrawProposal now request db = Inr (m, db')"
  shows "proposal_inv db'"
  using inv op
proof (cases rule: withdraw_writes)
  case (new h p l)
  note I = proposal_invD [OF inv]
  have m: "mu_pair m = (lc_ident l, lc_ApprovalID l)"
    using new(2,7) by (simp add: mu_pair_def mu_ident_def)
  show ?thesis
  proof (cases "lc_State l = RevisionLifecycleStatePending")
    case True
    show ?thesis
      by (rule proposal_inv_settle [OF inv new(3,6,7) _ _ _ new(9,10) _ _ new(1) m])
        (use new(11,12) True in \<open>simp_all add: ap_ident_def\<close>)
  next
    case False
    then have st: "lc_State l = RevisionLifecycleStateRejected" using new(8) by blast
    have "reviews_ok (close (pr_ProposalID p) ProposalStateWithdrawn (task_proposals db))
        (update_where (\<lambda>x. lc_ApprovalID x = lc_ApprovalID l) (\<lambda>x. x) (task_proposal_revision_lifecycles db))"
      unfolding close_def
      by (rule reviews_ok_settle [OF I(1,2,4) new(3,6,7)]) (use st new(7) in \<open>simp_all add: review_ok_def lc_ident_def\<close>)
    then have "reviews_ok (task_proposals db') (task_proposal_revision_lifecycles db')"
      using False by (simp add: new(9,11) update_where_def)
    moreover have "logs_ok (task_proposal_idempotency db') (task_proposal_activity db') (task_proposal_revision_lifecycles db')"
      by (rule logged_ok [OF new(1) inv]) (use False in \<open>simp_all add: new(11) m in_pair_ids new(6)\<close>)
    ultimately show ?thesis
      using I(1,6) numbering_ok_close [OF I(2)] False by (simp add: proposal_inv_def new(9,10,11,12) close_def)
  qed
qed (use inv in simp)

subsection \<open>Preservation: appending\<close>

lemma append_writes:
  assumes inv: "proposal_inv db" and op: "AppendProposalRevision now rnd request db = Inr (m, db')"
  obtains (replay) "db' = db"
  | (new) h p l a snap rh where
    "logged ''append_revision'' (ar_ProposalID request) (ar_IdempotencyKey request) h now m db db'"
    "m = \<lparr>mu_ProposalID = pr_ProposalID p, mu_Revision = pr_CurrentRevision p + 1, mu_RevisionHash = rh, mu_ApprovalID = a\<rparr>"
    "p \<in> set (task_proposals db)" "pr_State p = ProposalStateOpen" "pr_ProposalID p = ar_ProposalID request"
    "pr_CurrentRevision p = ar_ExpectedCurrentRevision request" "pr_CurrentRevisionHash p = ar_ExpectedCurrentRevisionHash request"
    "l \<in> set (task_proposal_revision_lifecycles db)"
    "lc_ident l = (pr_ProposalID p, pr_CurrentRevision p, pr_CurrentRevisionHash p)"
    "lc_State l = RevisionLifecycleStatePending \<or> lc_State l = RevisionLifecycleStateRejected"
    "canonicalRevisionSnapshot (next_revision now (pr_CurrentRevision p) (pr_CurrentRevisionHash p) request) = Inr (snap, rh)"
    "rh \<notin> rv_RevisionHash ` set (task_proposal_revisions db)" "a \<notin> ap_ApprovalID ` set (task_proposal_approvals db)"
    "task_proposals db' = advance (pr_ProposalID p) (pr_CurrentRevision p + 1) rh (task_proposals db)"
    "task_proposal_revisions db' = task_proposal_revisions db @ [\<lparr>rv_ProposalID = pr_ProposalID p,
       rv_Revision = pr_CurrentRevision p + 1, rv_RevisionHash = rh, rv_Snapshot = snap\<rparr>]"
    "task_proposal_revision_lifecycles db' = (if lc_State l = RevisionLifecycleStatePending
       then set_lifecycle (lc_ApprovalID l) RevisionLifecycleStateSuperseded now (task_proposal_revision_lifecycles db)
       else task_proposal_revision_lifecycles db) @ [pending_lifecycle now a (pr_ProposalID p) (pr_CurrentRevision p + 1) rh]"
    "task_proposal_approvals db' = (if lc_State l = RevisionLifecycleStatePending
       then set_approval (lc_ApprovalID l) (\<lambda>a. a\<lparr>ap_State := ApprovalStateSuperseded\<rparr>) (task_proposal_approvals db)
       else task_proposal_approvals db) @ [pending_approval now a (pr_ProposalID p) (pr_CurrentRevision p + 1) rh]"
  using op
proof (cases rule: AppendProposalRevision_cases)
  case replay
  then show ?thesis using that(1) by simp
next
  case (new h p l x a snap rh db1 db2 db3)
  note I = proposal_invD [OF inv]
  have p: "p \<in> set (task_proposals db)" "pr_ProposalID p = ar_ProposalID request"
    using new(3) proposals_tab.get_Some [OF I(3)] by auto
  note l = current_pair_SomeD [OF new(7)]
  note ins = new(10) [unfolded insert_revision_pair_Inr, folded p(2)]
  have db2: "db2 = (if lc_State l = RevisionLifecycleStatePending
      then db1\<lparr>task_proposal_revision_lifecycles := set_lifecycle (lc_ApprovalID l) RevisionLifecycleStateSuperseded now
          (task_proposal_revision_lifecycles db) @ [pending_lifecycle now a (pr_ProposalID p) (pr_CurrentRevision p + 1) rh],
        task_proposal_approvals := set_approval (lc_ApprovalID l) (\<lambda>a. a\<lparr>ap_State := ApprovalStateSuperseded\<rparr>)
          (task_proposal_approvals db) @ [pending_approval now a (pr_ProposalID p) (pr_CurrentRevision p + 1) rh]\<rparr> else db1)"
  proof (cases "lc_State l = RevisionLifecycleStatePending")
    case True
    then show ?thesis
      using new(11) ins pending_updates(1,3) [OF I(1,2) l(1) True l(2)]
      by (auto simp: supersedePendingRevisionPair_def andThen_Inr Let_def set_lifecycle_def set_approval_def p(2)
          pending_lifecycle_def pending_approval_def)
  qed (use new(11) in simp)
  have db3: "db3 = db2\<lparr>task_proposals := advance (pr_ProposalID p) (pr_CurrentRevision p + 1) rh (task_proposals db2)\<rparr>"
    using advance_current_form [OF new(12) [folded p(2)] _ _ new(4)] I(3) p(1) ins by (simp add: db2)
  have logs: "same_logs db db3" using ins by (simp add: db3 db2 same_logs_def)
  note rec = record_mutation_logged [OF new(13) logs]
  show ?thesis
    by (rule that(2) [OF rec(2) _ p(1) new(4) p(2) new(5,6) l(1) _ new(8,9)])
      (use rec(1,3) p(2) l(2) ins in \<open>auto simp: same_reviews_def db3 db2\<close>)
qed

lemma revision_bounds:
  assumes pairs: "pairs_ok revs aps lcs" and num: "numbering_ok ps revs"
    and p: "p \<in> set ps" and x: "x \<in> set lcs" "lc_ProposalID x = pr_ProposalID p"
  shows "1 \<le> lc_Revision x" "lc_Revision x \<le> pr_CurrentRevision p"
proof -
  let ?s = "log_seqs rv_ProposalID rv_Revision (pr_ProposalID p) revs"
  have "lc_ident x \<in> set (map rv_ident revs)" using pairs x(1) by (simp add: pairs_ok_def)
  then obtain r where r: "r \<in> set revs" "rv_ident r = lc_ident x" by auto
  then have "lc_Revision x \<in> set ?s"
    using x(2) by (force simp: log_seqs_def rv_ident_def lc_ident_def)
  moreover have "gapless 1 ?s" "pr_CurrentRevision p = int (length ?s)" using num p by (simp_all add: numbering_ok_def)
  ultimately show "1 \<le> lc_Revision x" "lc_Revision x \<le> pr_CurrentRevision p"
    by (auto simp: in_set_conv_nth gapless_nth)
qed

lemma reviews_ok_advance:
  assumes pairs: "pairs_ok revs aps lcs" and num: "numbering_ok ps revs" and rev: "reviews_ok ps lcs"
    and p: "p \<in> set ps" "pr_State p = ProposalStateOpen"
    and l: "l \<in> set lcs" "lc_ident l = (pr_ProposalID p, pr_CurrentRevision p, pr_CurrentRevisionHash p)"
    and g: "\<And>x. lc_ident (g x) = lc_ident x" and ok: "lc_State (g l) \<in> {RevisionLifecycleStateSuperseded, RevisionLifecycleStateRejected}"
  shows "reviews_ok (advance (pr_ProposalID p) (pr_CurrentRevision p + 1) rh ps)
    (update_where (\<lambda>x. lc_ApprovalID x = lc_ApprovalID l) g lcs @
      [pending_lifecycle now a (pr_ProposalID p) (pr_CurrentRevision p + 1) rh])"
  unfolding reviews_ok_def
proof (intro ballI impI)
  fix p' l' assume p'_in: "p' \<in> set (advance (pr_ProposalID p) (pr_CurrentRevision p + 1) rh ps)"
    and l'_in: "l' \<in> set (update_where (\<lambda>x. lc_ApprovalID x = lc_ApprovalID l) g lcs @
      [pending_lifecycle now a (pr_ProposalID p) (pr_CurrentRevision p + 1) rh])"
    and same: "lc_ProposalID l' = pr_ProposalID p'"
  have p0_eq: "p0 = p" if "pr_ProposalID p0 = pr_ProposalID p" "p0 \<in> set ps" for p0
    using num p that unique_rows [of pr_ProposalID ps] by (auto simp: numbering_ok_def unique_key_def)
  from p'_in obtain p0 where p0: "p0 \<in> set ps" and p': "p' = (if pr_ProposalID p0 = pr_ProposalID p
      then p0\<lparr>pr_CurrentRevision := pr_CurrentRevision p + 1, pr_CurrentRevisionHash := rh\<rparr> else p0)"
    by (auto simp: advance_def set_update_where)
  consider (fresh) "l' = pending_lifecycle now a (pr_ProposalID p) (pr_CurrentRevision p + 1) rh"
    | (old) l0 where "l0 \<in> set lcs" "l' = (if lc_ApprovalID l0 = lc_ApprovalID l then g l0 else l0)"
    using l'_in by (auto simp: set_update_where)
  then show "review_ok p' l'"
  proof cases
    case fresh
    then show ?thesis
      using same p' p0_eq [OF _ p0] p(2) by (cases "pr_ProposalID p0 = pr_ProposalID p") (simp_all add: pending_lifecycle_def review_ok_def)
  next
    case old
    have gl: "lc_ProposalID (g x) = lc_ProposalID x" "lc_Revision (g x) = lc_Revision x" for x
      using g [of x] by (simp_all add: lc_ident_def)
    have same0: "lc_ProposalID l0 = pr_ProposalID p0" using same p' old(2) gl by (auto split: if_splits)
    have before: "review_ok p0 l0" using rev p0 old(1) same0 by (simp add: reviews_ok_def)
    have a_eq: "l0 = l" if "lc_ApprovalID l0 = lc_ApprovalID l"
      using unique_rows [OF pairs_ok_distinct [OF pairs]] old(1) l(1) that by blast
    have n_eq: "l0 = l" if "lc_ProposalID l0 = pr_ProposalID p" "lc_Revision l0 = pr_CurrentRevision p"
      using unique_rows [OF pairs_ok_numbers [OF pairs num], of l0 l] old(1) l that by (simp add: lc_ident_def)
    have l_id: "lc_ProposalID l = pr_ProposalID p" using l(2) by (simp add: lc_ident_def)
    show ?thesis
    proof (cases "pr_ProposalID p0 = pr_ProposalID p")
      case True
      then have "lc_Revision l0 \<le> pr_CurrentRevision p"
        using revision_bounds(2) [OF pairs num p0 old(1) same0] p0_eq [OF True p0] by simp
      then have past: "lc_Revision l' \<noteq> pr_CurrentRevision p'"
        using True p' old(2) gl by (auto split: if_splits)
      have "lc_State l' \<in> {RevisionLifecycleStateSuperseded, RevisionLifecycleStateRejected}"
      proof (cases "l0 = l")
        case True
        then show ?thesis using ok old(2) by simp
      next
        case False
        then have "l' = l0" "lc_Revision l0 \<noteq> pr_CurrentRevision p0"
          using old(2) a_eq n_eq same0 True p0_eq [OF True p0] by auto
        then show ?thesis using before by (simp add: review_ok_def)
      qed
      with past show ?thesis by (simp add: review_ok_def)
    next
      case False
      then have "l' = l0" using old(2) a_eq same0 l_id by fastforce
      with False show ?thesis using before p' by simp
    qed
  qed
qed

lemma proposal_inv_append:
  assumes inv: "proposal_inv db" and op: "AppendProposalRevision now rnd request db = Inr (m, db')"
  shows "proposal_inv db'"
  using inv op
proof (cases rule: append_writes)
  case (new h p l a snap rh)
  note I = proposal_invD [OF inv]
  let ?r = "\<lparr>rv_ProposalID = pr_ProposalID p, rv_Revision = pr_CurrentRevision p + 1, rv_RevisionHash = rh, rv_Snapshot = snap\<rparr>"
  let ?pend = "lc_State l = RevisionLifecycleStatePending"
  define lcs where "lcs = (if ?pend
    then set_lifecycle (lc_ApprovalID l) RevisionLifecycleStateSuperseded now (task_proposal_revision_lifecycles db)
    else task_proposal_revision_lifecycles db)"
  define aps where "aps = (if ?pend
    then set_approval (lc_ApprovalID l) (\<lambda>a. a\<lparr>ap_State := ApprovalStateSuperseded\<rparr>) (task_proposal_approvals db)
    else task_proposal_approvals db)"
  note tabs = new(14-17) [folded lcs_def aps_def]
  have old: "pairs_ok (task_proposal_revisions db) aps lcs"
    using pairs_ok_set [OF I(1), of "\<lambda>a. a\<lparr>ap_State := ApprovalStateSuperseded\<rparr>" RevisionLifecycleStateSuperseded] I(1)
    by (simp add: lcs_def aps_def ap_ident_def)
  have "map ap_ApprovalID aps = map ap_ApprovalID (task_proposal_approvals db)" by (simp add: aps_def set_approval_def)
  then have "ap_ApprovalID ` set aps = ap_ApprovalID ` set (task_proposal_approvals db)" by (metis list.set_map)
  then have pairs: "pairs_ok (task_proposal_revisions db') (task_proposal_approvals db') (task_proposal_revision_lifecycles db')"
    unfolding tabs using new(12,13) by (intro pairs_ok_snoc [OF old]) simp_all
  have num: "numbering_ok (task_proposals db') (task_proposal_revisions db')"
    using numbering_ok_advance [OF I(2) new(3), of ?r] by (simp add: tabs advance_def)
  have rev: "reviews_ok (task_proposals db') (task_proposal_revision_lifecycles db')"
  proof (cases ?pend)
    case True
    then show ?thesis unfolding tabs lcs_def set_lifecycle_def if_P [OF True]
      by (intro reviews_ok_advance [OF I(1,2,4) new(3,4,8,9)]) (simp_all add: lc_ident_def)
  next
    case False
    then show ?thesis
      using reviews_ok_advance [OF I(1,2,4) new(3,4,8,9), of "\<lambda>x. x"] new(10) by (simp add: tabs lcs_def update_where_def)
  qed
  have ids: "pair_ids (task_proposal_revision_lifecycles db') =
      pair_ids (task_proposal_revision_lifecycles db) @ [((pr_ProposalID p, pr_CurrentRevision p + 1, rh), a)]"
    by (simp add: tabs lcs_def)
  have logs: "logs_ok (task_proposal_idempotency db') (task_proposal_activity db') (task_proposal_revision_lifecycles db')"
    by (rule logged_ok [OF new(1) inv]) (auto simp: ids new(2) mu_pair_def mu_ident_def)
  have "(pr_ProposalID p, pr_CurrentRevision p, pr_CurrentRevisionHash p) \<in> rv_ident ` set (task_proposal_revisions db)"
    and "pr_CurrentRevision p \<ge> 1"
    using I(2) new(3) revision_bounds(1) [OF I(1,2) new(3,8)] new(9) by (auto simp: numbering_ok_def lc_ident_def)
  then have "snapshot_of (task_proposal_revisions db) ?r (next_revision now (pr_CurrentRevision p) (pr_CurrentRevisionHash p) request)"
    using new(5,11) by (simp add: snapshot_of_def parent_ok_def next_revision_def)
  then have "snapshots_ok (task_proposal_revisions db')" using snapshots_ok_snoc [OF I(6)] by (simp add: tabs)
  with pairs num rev logs show ?thesis by (simp add: proposal_inv_def)
qed (use inv in simp)

subsection \<open>Preservation: creating\<close>

lemma create_writes:
  assumes op: "CreateProposal now rnd1 rnd2 request db = Inr (m, db')"
  obtains (replay) "db' = db"
  | (new) h p a snap rh where
    "logged ''create_proposal'' ''proposal_collection'' (cr_IdempotencyKey request) h now m db db'"
    "m = \<lparr>mu_ProposalID = p, mu_Revision = 1, mu_RevisionHash = rh, mu_ApprovalID = a\<rparr>"
    "canonicalRevisionSnapshot (root_revision now p request) = Inr (snap, rh)"
    "find_proposal p (task_proposals db) = None"
    "rh \<notin> rv_RevisionHash ` set (task_proposal_revisions db)" "a \<notin> ap_ApprovalID ` set (task_proposal_approvals db)"
    "task_proposals db' = task_proposals db @ [created_proposal now p request rh]"
    "task_proposal_revisions db' = task_proposal_revisions db @
       [\<lparr>rv_ProposalID = p, rv_Revision = 1, rv_RevisionHash = rh, rv_Snapshot = snap\<rparr>]"
    "task_proposal_revision_lifecycles db' = task_proposal_revision_lifecycles db @ [pending_lifecycle now a p 1 rh]"
    "task_proposal_approvals db' = task_proposal_approvals db @ [pending_approval now a p 1 rh]"
  using op
proof (cases rule: CreateProposal_cases)
  case replay
  then show ?thesis using that(1) by simp
next
  case (new h p a snap rh db1 db2)
  note ins = new(4) [unfolded insert_proposal_Inr] new(5) [unfolded insert_revision_pair_Inr]
  have logs: "same_logs db db2" using ins by (simp add: same_logs_def)
  note rec = record_mutation_logged [OF new(6) logs]
  show ?thesis
    by (rule that(2) [OF rec(2,1) new(3)]) (use rec(3) ins in \<open>auto simp: same_reviews_def\<close>)
qed

lemma proposal_inv_create:
  assumes inv: "proposal_inv db" and op: "CreateProposal now rnd1 rnd2 request db = Inr (m, db')"
  shows "proposal_inv db'"
  using op
proof (cases rule: create_writes)
  case (new h p a snap rh)
  note I = proposal_invD [OF inv]
  let ?r = "\<lparr>rv_ProposalID = p, rv_Revision = 1, rv_RevisionHash = rh, rv_Snapshot = snap\<rparr>"
  let ?q = "created_proposal now p request rh"
  have pairs: "pairs_ok (task_proposal_revisions db') (task_proposal_approvals db') (task_proposal_revision_lifecycles db')"
    unfolding new by (rule pairs_ok_snoc [OF I(1) new(5,6)])
  have num: "numbering_ok (task_proposals db') (task_proposal_revisions db')"
    unfolding new by (rule numbering_ok_create [OF I(2) new(4), where now = now and request = request]) simp_all
  have fresh: "p \<notin> pr_ProposalID ` set (task_proposals db)" using new(4) proposals_tab.get_None [OF I(3)] by simp
  have "lc_ident ` set (task_proposal_revision_lifecycles db) = rv_ident ` set (task_proposal_revisions db)"
    using I(1) by (metis list.set_map pairs_ok_def)
  then have "lc_ProposalID l \<in> pr_ProposalID ` set (task_proposals db)" if "l \<in> set (task_proposal_revision_lifecycles db)" for l
    using that I(2) imageI [OF that, of lc_ident] by (auto simp: numbering_ok_def lc_ident_def rv_ident_def)
  with fresh have rev: "reviews_ok (task_proposals db') (task_proposal_revision_lifecycles db')"
    using I(4) unfolding new
    by (fastforce simp: reviews_ok_def review_ok_def created_proposal_def pending_lifecycle_def)
  have logs: "logs_ok (task_proposal_idempotency db') (task_proposal_activity db') (task_proposal_revision_lifecycles db')"
    by (rule logged_ok [OF new(1) inv]) (auto simp: new(2,9) mu_pair_def mu_ident_def)
  have "snapshot_of (task_proposal_revisions db) ?r (root_revision now p request)"
    using new(3) by (simp add: snapshot_of_def parent_ok_def root_revision_def)
  then have "snapshots_ok (task_proposal_revisions db')" using snapshots_ok_snoc [OF I(6)] by (simp add: new)
  with pairs num rev logs show ?thesis by (simp add: proposal_inv_def)
qed (use inv in simp)

lemma proposal_step_inv: "proposal_step db db' \<Longrightarrow> proposal_inv db \<Longrightarrow> proposal_inv db'"
  by (erule proposal_step.cases)
    (blast intro: proposal_inv_create proposal_inv_append proposal_inv_decide proposal_inv_withdraw)+

lemma proposals_reachable_inv: "proposals_reachable db \<Longrightarrow> proposal_inv db"
  by (induction rule: rtranclp_induct) (auto intro: proposal_inv_empty proposal_step_inv)

end
