(* ===== verification/Proposal_Facts.thy ===== *)
theory Proposal_Facts
  imports Proposal_Steps "HOL-Library.Sublist"
begin

section \<open>How the proposal tables evolve\<close>

text \<open>
  What one mutation, and hence any sequence of them, does to the rows that are already there:
  revisions, activity and idempotency rows are append-only, a closed proposal and a decided
  approval never change, and the revision counter only grows.
\<close>

lemma validate_mutation_iff:
  assumes "pairs_ok (task_proposal_revisions db) (task_proposal_approvals db) (task_proposal_revision_lifecycles db)"
  shows "validateProposalMutationIdentity db m = Inr () \<longleftrightarrow> mu_pair m \<in> set (pair_ids (task_proposal_revision_lifecycles db))"
proof -
  have "\<exists>r \<in> set (task_proposal_revisions db). rv_ident r = lc_ident l"
    if "l \<in> set (task_proposal_revision_lifecycles db)" for l
  proof -
    have "lc_ident l \<in> set (map rv_ident (task_proposal_revisions db))" using assms that by (simp add: pairs_ok_def)
    then show ?thesis by auto
  qed
  moreover have "\<exists>a \<in> set (task_proposal_approvals db). ap_ident a = lc_ident l \<and> ap_ApprovalID a = lc_ApprovalID l"
    if "l \<in> set (task_proposal_revision_lifecycles db)" for l
    using pairs_partner(1) [OF _ that] assms by (fastforce simp: pairs_ok_def ap_pair_def lc_pair_def)
  ultimately have "validateProposalMutationIdentity db m = Inr () \<longleftrightarrow>
      (\<exists>l \<in> set (task_proposal_revision_lifecycles db). lc_ident l = mu_ident m \<and> lc_ApprovalID l = mu_ApprovalID m)"
    by (auto simp: validateProposalMutationIdentity_def list_ex_iff)
  also have "\<dots> \<longleftrightarrow> mu_pair m \<in> set (pair_ids (task_proposal_revision_lifecycles db))"
    by (auto simp: mu_pair_def pair_ids_def image_iff) metis
  finally show ?thesis .
qed

lemma validate_revision_iff:
  "validateRevisionIdentity db p n h = Inr () \<longleftrightarrow> (p, n, h) \<in> rv_ident ` set (task_proposal_revisions db)"
  by (force simp: validateRevisionIdentity_def list_ex_iff image_iff)

subsection \<open>Evolution of a proposal and of an approval\<close>

definition proposal_evolves :: "Proposal \<Rightarrow> Proposal \<Rightarrow> bool" where
  "proposal_evolves p p' \<longleftrightarrow>
     pr_ProjectID p' = pr_ProjectID p \<and> pr_WorkstreamID p' = pr_WorkstreamID p \<and> pr_CreatedAt p' = pr_CreatedAt p
   \<and> pr_CreatedBy p' = pr_CreatedBy p \<and> pr_CurrentRevision p \<le> pr_CurrentRevision p'
   \<and> (pr_State p \<noteq> ProposalStateOpen \<longrightarrow> p' = p)"

definition approval_evolves :: "Approval \<Rightarrow> Approval \<Rightarrow> bool" where
  "approval_evolves a a' \<longleftrightarrow>
     ap_ident a' = ap_ident a \<and> ap_CreatedAt a' = ap_CreatedAt a \<and> (ap_State a \<noteq> ApprovalStatePending \<longrightarrow> a' = a)"

definition db_evolves :: "ProposalDB \<Rightarrow> ProposalDB \<Rightarrow> bool" where
  "db_evolves db db' \<longleftrightarrow>
     prefix (task_proposal_revisions db) (task_proposal_revisions db')
   \<and> prefix (task_proposal_activity db) (task_proposal_activity db')
   \<and> prefix (task_proposal_idempotency db) (task_proposal_idempotency db')
   \<and> (\<forall>i p. find_proposal i (task_proposals db) = Some p
        \<longrightarrow> (\<exists>p'. find_proposal i (task_proposals db') = Some p' \<and> proposal_evolves p p'))
   \<and> (\<forall>i a. find_approval i (task_proposal_approvals db) = Some a
        \<longrightarrow> (\<exists>a'. find_approval i (task_proposal_approvals db') = Some a' \<and> approval_evolves a a'))"

lemma proposal_evolves_refl [simp]: "proposal_evolves p p"
  by (simp add: proposal_evolves_def)

lemma approval_evolves_refl [simp]: "approval_evolves a a"
  by (simp add: approval_evolves_def)

lemma db_evolves_refl [simp]: "db_evolves db db"
  by (simp add: db_evolves_def)

lemma db_evolvesD:
  assumes "db_evolves db db'"
  shows "prefix (task_proposal_revisions db) (task_proposal_revisions db')"
    "prefix (task_proposal_activity db) (task_proposal_activity db')"
    "prefix (task_proposal_idempotency db) (task_proposal_idempotency db')"
    "find_proposal i (task_proposals db) = Some p
      \<Longrightarrow> \<exists>p'. find_proposal i (task_proposals db') = Some p' \<and> proposal_evolves p p'"
    "find_approval j (task_proposal_approvals db) = Some a
      \<Longrightarrow> \<exists>a'. find_approval j (task_proposal_approvals db') = Some a' \<and> approval_evolves a a'"
  using assms by (simp_all add: db_evolves_def)

lemma db_evolves_trans:
  assumes "db_evolves db1 db2" "db_evolves db2 db3"
  shows "db_evolves db1 db3"
proof -
  have pp: "proposal_evolves p p''" if "proposal_evolves p p'" "proposal_evolves p' p''" for p p' p''
    using that by (auto simp: proposal_evolves_def)
  have aa: "approval_evolves a a''" if "approval_evolves a a'" "approval_evolves a' a''" for a a' a''
    using that by (auto simp: approval_evolves_def)
  have "\<exists>p''. find_proposal i (task_proposals db3) = Some p'' \<and> proposal_evolves p p''"
    if "find_proposal i (task_proposals db1) = Some p" for i p
    using db_evolvesD(4) [OF assms(1) that] db_evolvesD(4) [OF assms(2)] pp by meson
  moreover have "\<exists>a''. find_approval i (task_proposal_approvals db3) = Some a'' \<and> approval_evolves a a''"
    if "find_approval i (task_proposal_approvals db1) = Some a" for i a
    using db_evolvesD(5) [OF assms(1) that] db_evolvesD(5) [OF assms(2)] aa by meson
  moreover note prefix_order.trans [OF db_evolvesD(1) [OF assms(1)] db_evolvesD(1) [OF assms(2)]]
    prefix_order.trans [OF db_evolvesD(2) [OF assms(1)] db_evolvesD(2) [OF assms(2)]]
    prefix_order.trans [OF db_evolvesD(3) [OF assms(1)] db_evolvesD(3) [OF assms(2)]]
  ultimately show ?thesis by (simp add: db_evolves_def)
qed

subsection \<open>One mutation\<close>

lemma find_proposal_update:
  assumes "unique_key pr_ProposalID ps" "\<And>x. pr_ProposalID (f x) = pr_ProposalID x"
    and "\<And>x. x \<in> set ps \<Longrightarrow> q x \<Longrightarrow> proposal_evolves x (f x)" "find_proposal i ps = Some p"
  shows "\<exists>p'. find_proposal i (update_where q f ps) = Some p' \<and> proposal_evolves p p'"
proof -
  have "p \<in> set ps" using assms(4) proposals_tab.get_Some [OF assms(1)] by simp
  moreover have "find_proposal i (update_where q f ps) = Some (if q p then f p else p)"
    using proposals_tab.get_update [OF assms(1), of q f i] assms(2,4) by simp
  ultimately show ?thesis using assms(3) by (cases "q p") simp_all
qed

lemma find_approval_update:
  assumes "unique_key ap_ApprovalID aps" "\<And>x. ap_ApprovalID (f x) = ap_ApprovalID x"
    and "\<And>x. x \<in> set aps \<Longrightarrow> q x \<Longrightarrow> approval_evolves x (f x)" "find_approval i aps = Some a"
  shows "\<exists>a'. find_approval i (update_where q f aps) = Some a' \<and> approval_evolves a a'"
proof -
  have "a \<in> set aps" using assms(4) approvals_tab.get_Some [OF assms(1)] by simp
  moreover have "find_approval i (update_where q f aps) = Some (if q a then f a else a)"
    using approvals_tab.get_update [OF assms(1), of q f i] assms(2,4) by simp
  ultimately show ?thesis using assms(3) by (cases "q a") simp_all
qed

lemma find_insert:
  "find_proposal i ps = Some p \<Longrightarrow> find_proposal i (ps @ [q]) = Some p"
  "find_approval j aps = Some a \<Longrightarrow> find_approval j (aps @ [b]) = Some a"
  by (simp_all add: find_proposal_def find_approval_def find_append)

lemma pending_partner:
  assumes "pairs_ok revs aps lcs" "l \<in> set lcs" "lc_State l = RevisionLifecycleStatePending" "a \<in> set aps"
    "ap_ApprovalID a = lc_ApprovalID l"
  shows "ap_State a = ApprovalStatePending"
proof -
  obtain l' where l': "l' \<in> set lcs" "ap_pair a = lc_pair l'"
    using pairs_partner(2) [of aps lcs a] assms(1,4) by (auto simp: pairs_ok_def)
  then have "lc_ApprovalID l' = lc_ApprovalID l" using assms(5) by (simp add: ap_pair_def lc_pair_def)
  then have "l' = l" by (rule unique_rows [OF pairs_ok_distinct [OF assms(1)] l'(1) assms(2)])
  then have "toLifecycle (ap_State a) = RevisionLifecycleStatePending"
    using arg_cong [OF l'(2), of snd] assms(3) by (simp add: ap_pair_def lc_pair_def del: toLifecycle_pending)
  then show ?thesis by simp
qed

lemma approvals_unique: "proposal_inv db \<Longrightarrow> unique_key ap_ApprovalID (task_proposal_approvals db)"
  by (simp add: proposal_inv_def pairs_ok_def unique_key_def)

lemma logged_prefix:
  assumes "logged operation resource key h now m db db'"
  shows "prefix (task_proposal_activity db) (task_proposal_activity db')"
    "prefix (task_proposal_idempotency db) (task_proposal_idempotency db')"
  using assms by (simp_all add: logged_def)

lemma open_row:
  assumes "unique_key pr_ProposalID ps" "p \<in> set ps" "x \<in> set ps" "pr_ProposalID x = pr_ProposalID p"
  shows "x = p"
  using assms unique_rows [of pr_ProposalID ps x p] by (simp add: unique_key_def)

lemma find_proposal_close:
  assumes "unique_key pr_ProposalID ps" "p \<in> set ps" "pr_State p = ProposalStateOpen" "find_proposal i ps = Some x"
  shows "\<exists>x'. find_proposal i (close (pr_ProposalID p) st ps) = Some x' \<and> proposal_evolves x x'"
    and "pr_CurrentRevision p \<le> n \<Longrightarrow>
      \<exists>x'. find_proposal i (advance (pr_ProposalID p) n h ps) = Some x' \<and> proposal_evolves x x'"
  unfolding close_def advance_def
  by (rule find_proposal_update [OF assms(1) _ _ assms(4)];
      use open_row [OF assms(1,2)] assms(3) in \<open>force simp: proposal_evolves_def\<close>)+

lemma find_approval_set:
  assumes "proposal_inv db" "l \<in> set (task_proposal_revision_lifecycles db)" "lc_State l = RevisionLifecycleStatePending"
    and "\<And>x. ap_ApprovalID (g x) = ap_ApprovalID x" "\<And>x. ap_ident (g x) = ap_ident x" "\<And>x. ap_CreatedAt (g x) = ap_CreatedAt x"
    and "find_approval i (task_proposal_approvals db) = Some a"
  shows "\<exists>a'. find_approval i (set_approval (lc_ApprovalID l) g (task_proposal_approvals db)) = Some a' \<and> approval_evolves a a'"
  unfolding set_approval_def
  by (rule find_approval_update [OF approvals_unique [OF assms(1)] assms(4) _ assms(7)])
    (use pending_partner [OF proposal_invD(1) [OF assms(1)] assms(2,3)] assms(5,6) in \<open>simp add: approval_evolves_def\<close>)

lemma db_evolves_decide:
  assumes inv: "proposal_inv db" and op: "DecideProposalApproval now request db = Inr (m, db')"
  shows "db_evolves db db'"
  using inv op
proof (cases rule: decide_writes)
  case (new h p l)
  have "\<exists>x'. find_proposal i (task_proposals db') = Some x' \<and> proposal_evolves x x'"
    if "find_proposal i (task_proposals db) = Some x" for i x
    using find_proposal_close(1) [OF proposal_invD(3) [OF inv] new(3,4) that] that by (simp add: new(12))
  moreover have "\<exists>a'. find_approval i (task_proposal_approvals db') = Some a' \<and> approval_evolves a a'"
    if "find_approval i (task_proposal_approvals db) = Some a" for i a
    unfolding new(15) by (rule find_approval_set [OF inv new(6,8) _ _ _ that]) (simp_all add: ap_ident_def)
  ultimately show ?thesis using logged_prefix [OF new(1)] new(13) by (simp add: db_evolves_def)
qed simp

lemma db_evolves_withdraw:
  assumes inv: "proposal_inv db" and op: "WithdrawProposal now request db = Inr (m, db')"
  shows "db_evolves db db'"
  using inv op
proof (cases rule: withdraw_writes)
  case (new h p l)
  have "\<exists>x'. find_proposal i (task_proposals db') = Some x' \<and> proposal_evolves x x'"
    if "find_proposal i (task_proposals db) = Some x" for i x
    unfolding new(9) by (rule find_proposal_close(1) [OF proposal_invD(3) [OF inv] new(3,4) that])
  moreover have "\<exists>a'. find_approval i (task_proposal_approvals db') = Some a' \<and> approval_evolves a a'"
    if "find_approval i (task_proposal_approvals db) = Some a" for i a
    using find_approval_set [OF inv new(6) _ _ _ _ that, of "\<lambda>a. a\<lparr>ap_State := ApprovalStateWithdrawn\<rparr>"] that
    by (simp add: new(12) ap_ident_def)
  ultimately show ?thesis using logged_prefix [OF new(1)] new(10) by (simp add: db_evolves_def)
qed simp

lemma db_evolves_append:
  assumes inv: "proposal_inv db" and op: "AppendProposalRevision now rnd request db = Inr (m, db')"
  shows "db_evolves db db'"
  using inv op
proof (cases rule: append_writes)
  case (new h p l a snap rh)
  have "\<exists>x'. find_proposal i (task_proposals db') = Some x' \<and> proposal_evolves x x'"
    if "find_proposal i (task_proposals db) = Some x" for i x
    unfolding new(14) by (rule find_proposal_close(2) [OF proposal_invD(3) [OF inv] new(3,4) that]) simp
  moreover have "\<exists>b'. find_approval i (task_proposal_approvals db') = Some b' \<and> approval_evolves b b'"
    if "find_approval i (task_proposal_approvals db) = Some b" for i b
    using find_approval_set [OF inv new(8) _ _ _ _ that, of "\<lambda>a. a\<lparr>ap_State := ApprovalStateSuperseded\<rparr>"] that
    by (auto simp: new(17) ap_ident_def intro: find_insert(2))
  ultimately show ?thesis using logged_prefix [OF new(1)] new(15) by (simp add: db_evolves_def)
qed simp

lemma db_evolves_create:
  assumes "CreateProposal now rnd1 rnd2 request db = Inr (m, db')"
  shows "db_evolves db db'"
  using assms
proof (cases rule: create_writes)
  case (new h p a snap rh)
  show ?thesis
    using logged_prefix [OF new(1)] new(7-10) find_insert by (simp add: db_evolves_def)
qed simp

lemma proposal_step_evolves: "proposal_step db db' \<Longrightarrow> proposal_inv db \<Longrightarrow> db_evolves db db'"
  by (erule proposal_step.cases)
    (blast intro: db_evolves_create db_evolves_append db_evolves_decide db_evolves_withdraw)+

lemma proposal_steps_evolve:
  "proposal_step\<^sup>*\<^sup>* db db' \<Longrightarrow> proposal_inv db \<Longrightarrow> proposal_inv db' \<and> db_evolves db db'"
  by (induction rule: rtranclp_induct) (auto intro: proposal_step_inv db_evolves_trans proposal_step_evolves)

subsection \<open>Idempotency rows\<close>

lemma find_prefix: "prefix t u \<Longrightarrow> find q t = Some r \<Longrightarrow> find q u = Some r"
  by (auto simp: prefix_def find_append)

lemma find_idempotency_evolves:
  "db_evolves db db' \<Longrightarrow> find_idempotency operation resource key db = Some i \<Longrightarrow> find_idempotency operation resource key db' = Some i"
  unfolding find_idempotency_def by (blast intro: find_prefix dest: db_evolvesD(3))

lemma recorded_valid:
  assumes "proposal_inv db" "find_idempotency operation resource key db = Some i"
  shows "validateProposalMutationIdentity db (im_Result i) = Inr ()"
proof -
  have "i \<in> set (task_proposal_idempotency db)" using assms(2) find_SomeD unfolding find_idempotency_def by fastforce
  then show ?thesis
    using assms(1) by (simp add: validate_mutation_iff [OF proposal_invD(1) [OF assms(1)]] proposal_inv_def logs_ok_def)
qed

text \<open>A recorded key answers with its result, or refuses another body.\<close>

lemma lookup_recorded:
  assumes "proposal_inv db" "find_idempotency operation resource key db = Some i"
  shows "lookupProposalIdempotency db operation resource key h =
    (if im_BodyHash i = h then Inr (Some (im_Result i)) else Inl ErrIdempotencyConflict)"
  using recorded_valid [OF assms] assms(2) by (simp add: lookupProposalIdempotency_def)

end
