(* ===== verification/Proposal_Review.thy ===== *)
theory Proposal_Review
  imports Proposal_Facts
begin

section \<open>Requests and the review machine\<close>

text \<open>
  The four mutations seen uniformly: each is a request with an operation name, a resource, a key and
  a canonical body, which is all the idempotency protocol looks at.  Then the abstract machine of
  reviews that the six tables implement, with the simulation.
\<close>

datatype proposal_request =
    CreateRequest CreateProposalRequest
  | AppendRequest AppendProposalRevisionRequest
  | DecideRequest DecideProposalApprovalRequest
  | WithdrawRequest WithdrawProposalRequest

fun perform :: "stamp \<Rightarrow> string option \<Rightarrow> string option \<Rightarrow> proposal_request \<Rightarrow> ProposalDB
    \<Rightarrow> proposal_error + ProposalMutation \<times> ProposalDB" where
  "perform now rnd1 rnd2 (CreateRequest r) db = CreateProposal now rnd1 rnd2 r db"
| "perform now rnd1 rnd2 (AppendRequest r) db = AppendProposalRevision now rnd1 r db"
| "perform now rnd1 rnd2 (DecideRequest r) db = DecideProposalApproval now r db"
| "perform now rnd1 rnd2 (WithdrawRequest r) db = WithdrawProposal now r db"

text \<open>Operation, resource and key under which a request is recorded, and its body.\<close>

fun slot :: "proposal_request \<Rightarrow> string \<times> string \<times> string" where
  "slot (CreateRequest r) = (''create_proposal'', ''proposal_collection'', cr_IdempotencyKey r)"
| "slot (AppendRequest r) = (''append_revision'', ar_ProposalID r, ar_IdempotencyKey r)"
| "slot (DecideRequest r) = (''decide_approval'', dr_ApprovalID r, dr_IdempotencyKey r)"
| "slot (WithdrawRequest r) = (''withdraw_proposal'', wr_ProposalID r, wr_IdempotencyKey r)"

fun request_body :: "proposal_request \<Rightarrow> json" where
  "request_body (CreateRequest r) = createRequestBody r"
| "request_body (AppendRequest r) = appendRevisionRequestBody r"
| "request_body (DecideRequest r) = decisionRequestBody r"
| "request_body (WithdrawRequest r) = withdrawProposalRequestBody r"

definition recorded :: "proposal_request \<Rightarrow> ProposalDB \<Rightarrow> IdempotencyRow option" where
  "recorded r db = (case slot r of (operation, resource, key) \<Rightarrow> find_idempotency operation resource key db)"

lemma perform_step: "perform now rnd1 rnd2 r db = Inr (m, db') \<Longrightarrow> proposal_step db db'"
  by (cases r) (auto intro: proposal_step.intros)

lemma step_perform: "proposal_step db db' \<Longrightarrow> \<exists>now rnd1 rnd2 r m. perform now rnd1 rnd2 r db = Inr (m, db')"
  by (erule proposal_step.cases) (metis perform.simps)+

subsection \<open>The idempotency protocol\<close>

text \<open>A recorded key decides the answer before anything else is looked at.\<close>

lemma perform_recorded:
  assumes "proposal_inv db" "recorded r db = Some i" "canonicalJSONHash (request_body r) = Inr h"
  shows "perform now rnd1 rnd2 r db =
    (if im_BodyHash i = h then Inr (im_Result i, db) else Inl ErrIdempotencyConflict)"
proof -
  have "lookupProposalIdempotency db operation resource key h =
      (if im_BodyHash i = h then Inr (Some (im_Result i)) else Inl ErrIdempotencyConflict)"
    if "slot r = (operation, resource, key)" for operation resource key
    using lookup_recorded [OF assms(1)] assms(2) that by (simp add: recorded_def)
  then show ?thesis
    using assms(3)
    by (cases r) (simp_all add: CreateProposal_def AppendProposalRevision_def DecideProposalApproval_def
        WithdrawProposal_def canonical_error_def)
qed

lemma record_mutation_recorded:
  assumes "record_mutation operation resource key h now m0 db1 = Inr (m, db')"
  shows "\<exists>i. find_idempotency operation resource key db' = Some i \<and> im_Result i = m \<and> im_BodyHash i = h"
  using assms by (auto simp: record_mutation_Inr find_idempotency_def find_append idem_row_def)

lemma perform_records:
  assumes "perform now rnd1 rnd2 r db = Inr (m, db')"
  shows "\<exists>h i. canonicalJSONHash (request_body r) = Inr h \<and> recorded r db' = Some i \<and> im_Result i = m \<and> im_BodyHash i = h"
proof (cases r)
  case (CreateRequest q)
  from assms [unfolded CreateRequest perform.simps] show ?thesis
    by (cases rule: CreateProposal_cases)
      (auto simp: CreateRequest recorded_def lookup_Some dest: record_mutation_recorded)
next
  case (AppendRequest q)
  from assms [unfolded AppendRequest perform.simps] show ?thesis
    by (cases rule: AppendProposalRevision_cases)
      (auto simp: AppendRequest recorded_def lookup_Some dest: record_mutation_recorded)
next
  case (DecideRequest q)
  from assms [unfolded DecideRequest perform.simps] show ?thesis
    by (cases rule: DecideProposalApproval_cases)
      (auto simp: DecideRequest recorded_def lookup_Some dest: record_mutation_recorded)
next
  case (WithdrawRequest q)
  from assms [unfolded WithdrawRequest perform.simps] show ?thesis
    by (cases rule: WithdrawProposal_cases)
      (auto simp: WithdrawRequest recorded_def lookup_Some dest: record_mutation_recorded)
qed

lemma recorded_evolves: "db_evolves db db' \<Longrightarrow> recorded r db = Some i \<Longrightarrow> recorded r db' = Some i"
  by (auto simp: recorded_def find_idempotency_evolves split: prod.splits)

subsection \<open>The review machine\<close>

datatype review = ReviewPending | ReviewRejected | ReviewApproved | ReviewWithdrawn

text \<open>A proposal is its number of revisions and the review of the last one.\<close>

type_synonym reviews = "string \<Rightarrow> (int \<times> review) option"

inductive review_step :: "reviews \<Rightarrow> reviews \<Rightarrow> bool" where
  open_review: "s i = None \<Longrightarrow> review_step s (s(i \<mapsto> (1, ReviewPending)))"
| revise: "s i = Some (n, r) \<Longrightarrow> r \<in> {ReviewPending, ReviewRejected} \<Longrightarrow> review_step s (s(i \<mapsto> (n + 1, ReviewPending)))"
| approve: "s i = Some (n, ReviewPending) \<Longrightarrow> review_step s (s(i \<mapsto> (n, ReviewApproved)))"
| reject: "s i = Some (n, ReviewPending) \<Longrightarrow> review_step s (s(i \<mapsto> (n, ReviewRejected)))"
| retract: "s i = Some (n, r) \<Longrightarrow> r \<in> {ReviewPending, ReviewRejected} \<Longrightarrow> review_step s (s(i \<mapsto> (n, ReviewWithdrawn)))"

text \<open>The review state of a proposal in the tables.\<close>

definition lifecycle_of :: "Proposal \<Rightarrow> RevisionLifecycle list \<Rightarrow> RevisionLifecycle option" where
  "lifecycle_of p lcs = find (\<lambda>l. lc_ProposalID l = pr_ProposalID p \<and> lc_Revision l = pr_CurrentRevision p) lcs"

fun review_of :: "ProposalState \<Rightarrow> RevisionLifecycleState \<Rightarrow> review" where
  "review_of ProposalStateApproved _ = ReviewApproved"
| "review_of ProposalStateWithdrawn _ = ReviewWithdrawn"
| "review_of ProposalStateOpen RevisionLifecycleStateRejected = ReviewRejected"
| "review_of ProposalStateOpen _ = ReviewPending"

definition review_view :: "ProposalDB \<Rightarrow> reviews" where
  "review_view db i =
     (case find_proposal i (task_proposals db) of
        None \<Rightarrow> None
      | Some p \<Rightarrow> map_option (\<lambda>l. (pr_CurrentRevision p, review_of (pr_State p) (lc_State l)))
          (lifecycle_of p (task_proposal_revision_lifecycles db)))"

lemma current_lifecycle:
  assumes "proposal_inv db" "p \<in> set (task_proposals db)"
  obtains l where "l \<in> set (task_proposal_revision_lifecycles db)"
    "lc_ident l = (pr_ProposalID p, pr_CurrentRevision p, pr_CurrentRevisionHash p)"
proof -
  have "(pr_ProposalID p, pr_CurrentRevision p, pr_CurrentRevisionHash p) \<in> set (map rv_ident (task_proposal_revisions db))"
    using proposal_invD(2) [OF assms(1)] assms(2) unfolding numbering_ok_def set_map by blast
  also have "map rv_ident (task_proposal_revisions db) = map lc_ident (task_proposal_revision_lifecycles db)"
    using proposal_invD(1) [OF assms(1)] by (simp add: pairs_ok_def)
  finally show ?thesis using that by auto
qed

lemma lifecycle_of_current:
  assumes "proposal_inv db" "l \<in> set (task_proposal_revision_lifecycles db)"
    "lc_ProposalID l = pr_ProposalID p" "lc_Revision l = pr_CurrentRevision p"
  shows "lifecycle_of p (task_proposal_revision_lifecycles db) = Some l"
proof -
  have "unique_key (\<lambda>l. (lc_ProposalID l, lc_Revision l)) (task_proposal_revision_lifecycles db)"
    using pairs_ok_numbers [OF proposal_invD(1,2) [OF assms(1)]] by (simp add: unique_key_def)
  from find_key_Some [OF this, of "(pr_ProposalID p, pr_CurrentRevision p)" l] assms(2-4)
  show ?thesis by (simp add: lifecycle_of_def)
qed

lemma review_view_at:
  assumes "proposal_inv db" "p \<in> set (task_proposals db)" "l \<in> set (task_proposal_revision_lifecycles db)"
    "lc_ProposalID l = pr_ProposalID p" "lc_Revision l = pr_CurrentRevision p"
  shows "review_view db (pr_ProposalID p) = Some (pr_CurrentRevision p, review_of (pr_State p) (lc_State l))"
proof -
  have "find_proposal (pr_ProposalID p) (task_proposals db) = Some p"
    using proposals_tab.get_Some [OF proposal_invD(3) [OF assms(1)]] assms(2) by simp
  then show ?thesis using lifecycle_of_current [OF assms(1,3-5)] by (simp add: review_view_def)
qed

lemma review_view_frame:
  assumes "proposal_inv db" "proposal_inv db'" "find_proposal j (task_proposals db') = find_proposal j (task_proposals db)"
    and "\<And>l. l \<in> set (task_proposal_revision_lifecycles db) \<Longrightarrow> lc_ProposalID l = j \<Longrightarrow> l \<in> set (task_proposal_revision_lifecycles db')"
  shows "review_view db' j = review_view db j"
proof (cases "find_proposal j (task_proposals db)")
  case None
  then show ?thesis using assms(3) by (simp add: review_view_def)
next
  case (Some p)
  then have p: "p \<in> set (task_proposals db)" "pr_ProposalID p = j"
    using proposals_tab.get_Some [OF proposal_invD(3) [OF assms(1)]] by simp_all
  obtain l where l: "l \<in> set (task_proposal_revision_lifecycles db)"
    "lc_ident l = (pr_ProposalID p, pr_CurrentRevision p, pr_CurrentRevisionHash p)"
    using current_lifecycle [OF assms(1) p(1)] by blast
  then have "l \<in> set (task_proposal_revision_lifecycles db')" using assms(4) p(2) by (simp add: lc_ident_def)
  then show ?thesis
    using lifecycle_of_current [OF assms(1) l(1)] lifecycle_of_current [OF assms(2)] l(2) Some assms(3)
    by (simp add: review_view_def lc_ident_def)
qed

lemma set_lifecycle_other:
  assumes "pairs_ok revs aps lcs" "l \<in> set lcs" "x \<in> set lcs" "lc_ProposalID x \<noteq> lc_ProposalID l"
  shows "x \<in> set (set_lifecycle (lc_ApprovalID l) st now lcs)"
proof -
  have "lc_ApprovalID x \<noteq> lc_ApprovalID l"
    using unique_rows [OF pairs_ok_distinct [OF assms(1)] assms(3,2)] assms(4) by blast
  then show ?thesis
    using assms(3) by (force simp: set_lifecycle_def set_update_where image_iff)
qed

lemma set_lifecycle_own:
  "l \<in> set lcs \<Longrightarrow> l\<lparr>lc_State := st, lc_UpdatedAt := now, lc_Version := lc_Version l + 1\<rparr> \<in> set (set_lifecycle (lc_ApprovalID l) st now lcs)"
  by (force simp: set_lifecycle_def set_update_where)

lemma find_close_other:
  assumes "unique_key pr_ProposalID ps" "j \<noteq> i"
  shows "find_proposal j (close i st ps) = find_proposal j ps" "find_proposal j (advance i n h ps) = find_proposal j ps"
proof -
  have "find_proposal j (update_where (\<lambda>x. pr_ProposalID x = i) f ps) = find_proposal j ps"
    if "\<And>x. pr_ProposalID (f x) = pr_ProposalID x" for f
  proof (cases "find_proposal j ps")
    case None
    then show ?thesis using proposals_tab.get_update [OF assms(1)] that by simp
  next
    case (Some a)
    then have "pr_ProposalID a = j" using proposals_tab.get_Some [OF assms(1)] by simp
    then show ?thesis using proposals_tab.get_update [OF assms(1)] that Some assms(2) by simp
  qed
  then show "find_proposal j (close i st ps) = find_proposal j ps" "find_proposal j (advance i n h ps) = find_proposal j ps"
    by (simp_all add: close_def advance_def)
qed

subsection \<open>The simulation\<close>

lemma view_update:
  assumes "review_view db' i = Some x" "\<And>j. j \<noteq> i \<Longrightarrow> review_view db' j = review_view db j"
  shows "review_view db' = (review_view db)(i \<mapsto> x)"
  using assms by auto

lemma close_own: "p \<in> set ps \<Longrightarrow> p\<lparr>pr_State := st\<rparr> \<in> set (close (pr_ProposalID p) st ps)"
  by (force simp: close_def set_update_where)

lemma decide_refines:
  assumes inv: "proposal_inv db" and op: "DecideProposalApproval now request db = Inr (m, db')"
  shows "db' = db \<or> review_step (review_view db) (review_view db')"
proof -
  have inv': "proposal_inv db'" by (rule proposal_inv_decide [OF inv op])
  show ?thesis using inv op
  proof (cases rule: decide_writes)
    case (new h p l)
    let ?i = "pr_ProposalID p" and ?d = "dr_Decision request"
    note I = proposal_invD [OF inv]
    have lcols: "lc_ProposalID l = ?i" "lc_Revision l = pr_CurrentRevision p" using new(9) by (simp_all add: lc_ident_def)
    have before: "review_view db ?i = Some (pr_CurrentRevision p, ReviewPending)"
      using review_view_at [OF inv new(3,6) lcols] new(4,8) by simp
    have other: "review_view db' j = review_view db j" if "j \<noteq> ?i" for j
      using that find_close_other(1) [OF I(3) that] set_lifecycle_other [OF I(1) new(6)] lcols(1)
      by (intro review_view_frame [OF inv inv']) (auto simp: new(12,14))
    define p' where "p' = (if ?d = ApprovalStateApproved then p\<lparr>pr_State := ProposalStateApproved\<rparr> else p)"
    have p': "p' \<in> set (task_proposals db')" "pr_ProposalID p' = ?i" "pr_CurrentRevision p' = pr_CurrentRevision p"
      using new(3) close_own by (simp_all add: p'_def new(12))
    have own: "review_view db' ?i = Some (pr_CurrentRevision p, review_of (pr_State p') (toLifecycle ?d))"
      using review_view_at [OF inv' p'(1) set_lifecycle_own [OF new(6), where st = "toLifecycle ?d" and now = now, folded new(14)]] lcols p'(2,3) by simp
    have upd: "review_view db' = (review_view db)(?i \<mapsto> (pr_CurrentRevision p, review_of (pr_State p') (toLifecycle ?d)))"
      by (rule view_update [OF own]) (rule other)
    from new(11) have "review_step (review_view db) (review_view db')"
    proof
      assume "?d = ApprovalStateApproved"
      then show ?thesis unfolding upd using review_step.approve [of "review_view db", OF before] by (simp add: p'_def)
    next
      assume "?d = ApprovalStateRejected"
      then show ?thesis unfolding upd using review_step.reject [of "review_view db", OF before] new(4) by (simp add: p'_def)
    qed
    then show ?thesis by blast
  qed simp
qed

lemma withdraw_refines:
  assumes inv: "proposal_inv db" and op: "WithdrawProposal now request db = Inr (m, db')"
  shows "db' = db \<or> review_step (review_view db) (review_view db')"
proof -
  have inv': "proposal_inv db'" by (rule proposal_inv_withdraw [OF inv op])
  show ?thesis using inv op
  proof (cases rule: withdraw_writes)
    case (new h p l)
    let ?i = "pr_ProposalID p" and ?pend = "lc_State l = RevisionLifecycleStatePending"
    note I = proposal_invD [OF inv]
    have lcols: "lc_ProposalID l = ?i" "lc_Revision l = pr_CurrentRevision p" using new(7) by (simp_all add: lc_ident_def)
    have before: "review_view db ?i = Some (pr_CurrentRevision p, if ?pend then ReviewPending else ReviewRejected)"
      using review_view_at [OF inv new(3,6) lcols] new(4,8) by auto
    have other: "review_view db' j = review_view db j" if "j \<noteq> ?i" for j
      using that find_close_other(1) [OF I(3) that] set_lifecycle_other [OF I(1) new(6)] lcols(1)
      by (intro review_view_frame [OF inv inv']) (auto simp: new(9,11))
    define l' where "l' = (if ?pend
      then l\<lparr>lc_State := RevisionLifecycleStateWithdrawn, lc_UpdatedAt := now, lc_Version := lc_Version l + 1\<rparr> else l)"
    have l': "l' \<in> set (task_proposal_revision_lifecycles db')" "lc_ProposalID l' = ?i" "lc_Revision l' = pr_CurrentRevision p"
      using set_lifecycle_own [OF new(6)] new(6) lcols by (simp_all add: l'_def new(11))
    have own: "review_view db' ?i = Some (pr_CurrentRevision p, ReviewWithdrawn)"
      using review_view_at [OF inv' close_own [OF new(3), of ProposalStateWithdrawn, folded new(9)] l'(1)] l'(2,3) by simp
    have "review_view db' = (review_view db)(?i \<mapsto> (pr_CurrentRevision p, ReviewWithdrawn))"
      by (rule view_update [OF own]) (rule other)
    then show ?thesis using review_step.retract [of "review_view db", OF before] by (simp split: if_splits)
  qed simp
qed

lemma append_refines:
  assumes inv: "proposal_inv db" and op: "AppendProposalRevision now rnd request db = Inr (m, db')"
  shows "db' = db \<or> review_step (review_view db) (review_view db')"
proof -
  have inv': "proposal_inv db'" by (rule proposal_inv_append [OF inv op])
  show ?thesis using inv op
  proof (cases rule: append_writes)
    case (new h p l a snap rh)
    let ?i = "pr_ProposalID p" and ?n = "pr_CurrentRevision p" and ?pend = "lc_State l = RevisionLifecycleStatePending"
    note I = proposal_invD [OF inv]
    have lcols: "lc_ProposalID l = ?i" "lc_Revision l = ?n" using new(9) by (simp_all add: lc_ident_def)
    have before: "review_view db ?i = Some (?n, if ?pend then ReviewPending else ReviewRejected)"
      using review_view_at [OF inv new(3,8) lcols] new(4,10) by auto
    have other: "review_view db' j = review_view db j" if "j \<noteq> ?i" for j
      using that find_close_other(2) [OF I(3) that] set_lifecycle_other [OF I(1) new(8)] lcols(1)
      by (intro review_view_frame [OF inv inv']) (auto simp: new(14,16))
    let ?p = "p\<lparr>pr_CurrentRevision := ?n + 1, pr_CurrentRevisionHash := rh\<rparr>"
    have p: "?p \<in> set (task_proposals db')"
      using new(3) by (force simp: new(14) advance_def set_update_where)
    have l: "pending_lifecycle now a ?i (?n + 1) rh \<in> set (task_proposal_revision_lifecycles db')" by (simp add: new(16))
    have own: "review_view db' ?i = Some (?n + 1, ReviewPending)"
      using review_view_at [OF inv' p l] new(4) by (simp add: pending_lifecycle_def)
    have "review_view db' = (review_view db)(?i \<mapsto> (?n + 1, ReviewPending))"
      by (rule view_update [OF own]) (rule other)
    then show ?thesis using review_step.revise [of "review_view db", OF before] by (simp split: if_splits)
  qed simp
qed

lemma create_refines:
  assumes inv: "proposal_inv db" and op: "CreateProposal now rnd1 rnd2 request db = Inr (m, db')"
  shows "db' = db \<or> review_step (review_view db) (review_view db')"
proof -
  have inv': "proposal_inv db'" by (rule proposal_inv_create [OF inv op])
  show ?thesis using op
  proof (cases rule: create_writes)
    case (new h p a snap rh)
    have before: "review_view db p = None" using new(4) by (simp add: review_view_def)
    have other: "review_view db' j = review_view db j" if "j \<noteq> p" for j
      using that
      by (intro review_view_frame [OF inv inv'])
        (auto simp: new(7,9) find_proposal_def find_append created_proposal_def split: option.split)
    have q: "created_proposal now p request rh \<in> set (task_proposals db')"
      and l: "pending_lifecycle now a p 1 rh \<in> set (task_proposal_revision_lifecycles db')" by (simp_all add: new(7,9))
    have own: "review_view db' p = Some (1, ReviewPending)"
      using review_view_at [OF inv' q l] by (simp add: created_proposal_def pending_lifecycle_def)
    have "review_view db' = (review_view db)(p \<mapsto> (1, ReviewPending))"
      by (rule view_update [OF own]) (rule other)
    then show ?thesis using review_step.open_review [of "review_view db", OF before] by (simp split: if_splits)
  qed simp
qed

lemma proposal_step_refines:
  "proposal_step db db' \<Longrightarrow> proposal_inv db \<Longrightarrow> db' = db \<or> review_step (review_view db) (review_view db')"
  by (erule proposal_step.cases) (metis create_refines append_refines decide_refines withdraw_refines)+

end
