(* ===== verification/Proposal_Progress.thy ===== *)
theory Proposal_Progress
  imports Proposal_Review
begin

section \<open>When mutations succeed\<close>

text \<open>
  The converse of the preservation lemmas: on a database that satisfies the invariant the guarded
  updates of a decision hit exactly the rows they name, so the checks the code repeats on the joined
  rows cannot fail once the approval is found pending.
\<close>

lemma rows_affected_one:
  assumes "distinct (map key t)" "x \<in> set t" "q x" "\<And>y. y \<in> set t \<Longrightarrow> q y \<Longrightarrow> key y = key x"
  shows "rows_affected q t = 1"
proof -
  obtain t1 t2 where t: "t = t1 @ x # t2" using assms(2) by (meson split_list)
  have "\<not> q y" if "y \<in> set t1 \<union> set t2" for y
  proof
    assume "q y"
    then have "key y = key x" using assms(4) that by (auto simp: t)
    then show False using assms(1) that by (auto simp: t) (metis imageI)+
  qed
  then show ?thesis using assms(3) by (simp add: rows_affected_def t filter_empty_conv)
qed

lemma find_product:
  assumes "x \<in> set xs" "y \<in> set ys" "q (x, y)"
    and "\<And>x' y'. x' \<in> set xs \<Longrightarrow> y' \<in> set ys \<Longrightarrow> q (x', y') \<Longrightarrow> (x', y') = (x, y)"
  shows "find q (List.product xs ys) = Some (x, y)"
proof -
  have "find q (List.product xs ys) \<noteq> None" using assms(1-3) by (auto simp: find_None_iff_set)
  then obtain r where r: "find q (List.product xs ys) = Some r" by blast
  from find_SomeD [OF r] assms(4) [of "fst r" "snd r"] have "r = (x, y)" by auto
  with r show ?thesis by simp
qed

text \<open>A pending approval belongs to the current revision of an open proposal.\<close>

lemma pending_approval_current:
  assumes inv: "proposal_inv db" and a: "a \<in> set (task_proposal_approvals db)" "ap_State a = ApprovalStatePending"
  obtains p l where "p \<in> set (task_proposals db)" "l \<in> set (task_proposal_revision_lifecycles db)"
    "pr_State p = ProposalStateOpen" "lc_State l = RevisionLifecycleStatePending" "lc_ApprovalID l = ap_ApprovalID a"
    "lc_ident l = ap_ident a" "ap_ident a = (pr_ProposalID p, pr_CurrentRevision p, pr_CurrentRevisionHash p)"
proof -
  note I = proposal_invD [OF inv]
  obtain l where l: "l \<in> set (task_proposal_revision_lifecycles db)" "ap_pair a = lc_pair l"
    using pairs_partner(2) [OF _ a(1), of "task_proposal_revision_lifecycles db"] I(1) by (auto simp: pairs_ok_def)
  then have cols: "lc_ident l = ap_ident a" "lc_ApprovalID l = ap_ApprovalID a" "lc_State l = RevisionLifecycleStatePending"
    using a(2) by (auto simp: ap_pair_def lc_pair_def)
  have "lc_ident l \<in> set (map rv_ident (task_proposal_revisions db))" using I(1) l(1) by (simp add: pairs_ok_def)
  then obtain r where r: "r \<in> set (task_proposal_revisions db)" "rv_ident r = lc_ident l" by auto
  then have "lc_ProposalID l = rv_ProposalID r" by (simp add: rv_ident_def lc_ident_def)
  moreover have "rv_ProposalID r \<in> pr_ProposalID ` set (task_proposals db)"
    using I(2) r(1) unfolding numbering_ok_def by blast
  ultimately obtain p where p: "p \<in> set (task_proposals db)" "pr_ProposalID p = lc_ProposalID l" by auto
  have "review_ok p l" using I(4) p l(1) by (simp add: reviews_ok_def)
  then have cur: "lc_Revision l = pr_CurrentRevision p" and st: "pr_State p = ProposalStateOpen"
    using cols(3) by (auto simp: review_ok_def split: if_splits ProposalState.splits)
  obtain k where k: "k \<in> set (task_proposal_revision_lifecycles db)"
    "lc_ident k = (pr_ProposalID p, pr_CurrentRevision p, pr_CurrentRevisionHash p)"
    using current_lifecycle [OF inv p(1)] by blast
  have "k = l"
    using unique_rows [OF pairs_ok_numbers [OF I(1,2)] k(1) l(1)] k(2) p(2) cur by (simp add: lc_ident_def)
  with k that [OF p(1) l(1) st cols(3,2,1)] cols(1) show ?thesis by simp
qed

lemma record_mutation_ok:
  assumes "pairs_ok (task_proposal_revisions db) (task_proposal_approvals db) (task_proposal_revision_lifecycles db)"
    and "mu_pair m \<in> set (pair_ids (task_proposal_revision_lifecycles db))" "find_idempotency operation resource key db = None"
  shows "\<exists>db'. record_mutation operation resource key h now m db = Inr (m, db')"
  using validate_mutation_iff [OF assms(1), of m] assms(2,3) by (simp add: record_mutation_Inr)

lemma decided_rows_pairs:
  fixes now :: stamp and request :: DecideProposalApprovalRequest and p :: Proposal and i :: string
  assumes "pairs_ok (task_proposal_revisions db) (task_proposal_approvals db) (task_proposal_revision_lifecycles db)"
  defines "db' \<equiv> decided_rows_closed now request p i db"
  shows "pairs_ok (task_proposal_revisions db') (task_proposal_approvals db') (task_proposal_revision_lifecycles db')"
    "pair_ids (task_proposal_revision_lifecycles db') = pair_ids (task_proposal_revision_lifecycles db)"
    "task_proposal_idempotency db' = task_proposal_idempotency db"
  using assms(1)
  by (simp_all add: db'_def decided_rows_closed_def decided_rows_def pairs_ok_set ap_ident_def)

lemma decide_updates_succeed:
  assumes inv: "proposal_inv db" and p: "p \<in> set (task_proposals db)" "pr_State p = ProposalStateOpen"
    and l: "l \<in> set (task_proposal_revision_lifecycles db)" "lc_State l = RevisionLifecycleStatePending"
      "lc_ApprovalID l = dr_ApprovalID request" "lc_ident l = (dr_ProposalID request, dr_Revision request, dr_RevisionHash request)"
    and cur: "lc_ident l = (pr_ProposalID p, pr_CurrentRevision p, pr_CurrentRevisionHash p)"
    and a: "a \<in> set (task_proposal_approvals db)" "ap_ApprovalID a = dr_ApprovalID request" "ap_State a = ApprovalStatePending"
  shows "\<exists>db1 db2 db3. decide_lifecycle now request db = Inr db1 \<and> decide_approval now request db1 = Inr db2
    \<and> (if dr_Decision request = ApprovalStateApproved
        then close_proposal ProposalStateApproved (dr_ProposalID request) (dr_Revision request) (dr_RevisionHash request)
          ErrApprovalConflict db2 else Inr db2) = Inr db3"
proof -
  note I = proposal_invD [OF inv]
  have "rows_affected (\<lambda>l. lc_ProposalID l = dr_ProposalID request \<and> lc_Revision l = dr_Revision request
      \<and> lc_RevisionHash l = dr_RevisionHash request \<and> lc_ApprovalID l = dr_ApprovalID request
      \<and> lc_State l = RevisionLifecycleStatePending) (task_proposal_revision_lifecycles db) = 1"
    by (rule rows_affected_one [OF pairs_ok_distinct [OF I(1)] l(1)]) (use l in \<open>auto simp: lc_ident_def\<close>)
  moreover have "rows_affected (\<lambda>a. ap_ApprovalID a = dr_ApprovalID request \<and> ap_State a = ApprovalStatePending)
      (task_proposal_approvals db) = 1"
    by (rule rows_affected_one [of ap_ApprovalID _ a]) (use I(1) a in \<open>auto simp: pairs_ok_def\<close>)
  moreover have "rows_affected (\<lambda>r. pr_ProposalID r = dr_ProposalID request \<and> pr_State r = ProposalStateOpen
      \<and> pr_CurrentRevision r = dr_Revision request \<and> pr_CurrentRevisionHash r = dr_RevisionHash request)
      (task_proposals db) = 1"
    by (rule rows_affected_one [of pr_ProposalID _ p]) (use I(3) p l(4) cur in \<open>auto simp: unique_key_def\<close>)
  ultimately show ?thesis
    by (simp add: decide_lifecycle_def decide_approval_def close_proposal_def Let_def)
qed

lemma decide_succeeds:
  assumes inv: "proposal_inv db"
    and fresh: "find_idempotency ''decide_approval'' (dr_ApprovalID request) (dr_IdempotencyKey request) db = None"
    and h: "canonicalJSONHash (decisionRequestBody request) = Inr h"
    and valid: "validateDecideProposalApprovalRequest request = Inr ()"
    and a: "find_approval (dr_ApprovalID request) (task_proposal_approvals db) = Some a"
      "ap_ident a = (dr_ProposalID request, dr_Revision request, dr_RevisionHash request)" "ap_State a = ApprovalStatePending"
  shows "\<exists>m db'. DecideProposalApproval now request db = Inr (m, db')"
proof -
  note I = proposal_invD [OF inv]
  have a_in: "a \<in> set (task_proposal_approvals db)" "ap_ApprovalID a = dr_ApprovalID request"
    using a(1) approvals_tab.get_Some [OF approvals_unique [OF inv]] by simp_all
  obtain p l where p: "p \<in> set (task_proposals db)" "pr_State p = ProposalStateOpen"
    and l: "l \<in> set (task_proposal_revision_lifecycles db)" "lc_State l = RevisionLifecycleStatePending"
      "lc_ApprovalID l = ap_ApprovalID a" "lc_ident l = ap_ident a"
    and cur: "ap_ident a = (pr_ProposalID p, pr_CurrentRevision p, pr_CurrentRevisionHash p)"
    using pending_approval_current [OF inv a_in(1) a(3)] by metis
  have eqs: "pr_ProposalID p = dr_ProposalID request" "pr_CurrentRevision p = dr_Revision request"
    "pr_CurrentRevisionHash p = dr_RevisionHash request" using cur a(2) by simp_all
  have l_id: "lc_ident l = (dr_ProposalID request, dr_Revision request, dr_RevisionHash request)" using l(4) a(2) by simp
  have pair: "decided_pair db request = Some (p, l)"
    unfolding decided_pair_def
  proof (rule find_product [OF p(1) l(1)])
    fix p' l' assume in': "p' \<in> set (task_proposals db)" "l' \<in> set (task_proposal_revision_lifecycles db)"
      and q: "case (p', l') of (p, l) \<Rightarrow> lc_ProposalID l = pr_ProposalID p \<and> lc_Revision l = dr_Revision request
         \<and> lc_RevisionHash l = dr_RevisionHash request \<and> lc_ApprovalID l = dr_ApprovalID request
         \<and> pr_ProposalID p = dr_ProposalID request"
    show "(p', l') = (p, l)"
      using open_row [OF I(3) p(1) in'(1)] unique_rows [OF pairs_ok_distinct [OF I(1)] in'(2) l(1)] q eqs(1) l(3) a_in(2) by simp
  qed (use l(3) l_id a_in(2) eqs in \<open>simp add: lc_ident_def\<close>)
  obtain db1 db2 db3 where upd: "decide_lifecycle now request db = Inr db1" "decide_approval now request db1 = Inr db2"
    "(if dr_Decision request = ApprovalStateApproved
      then close_proposal ProposalStateApproved (dr_ProposalID request) (dr_Revision request) (dr_RevisionHash request)
        ErrApprovalConflict db2 else Inr db2) = Inr db3"
    using decide_updates_succeed [OF inv p l(1,2) _ l_id _ a_in a(3)] l(3,4) a_in(2) cur by metis
  note db3 = decide_prelog [OF inv pair p(2) eqs(2,3) l(2) upd]
  have "mu_pair \<lparr>mu_ProposalID = dr_ProposalID request, mu_Revision = dr_Revision request, mu_RevisionHash = dr_RevisionHash request,
      mu_ApprovalID = dr_ApprovalID request\<rparr> \<in> set (pair_ids (task_proposal_revision_lifecycles db))"
    using in_pair_ids [OF l(1)] l_id l(3) a_in(2) by (simp add: mu_pair_def mu_ident_def)
  then have "\<exists>db'. record_mutation ''decide_approval'' (dr_ApprovalID request) (dr_IdempotencyKey request) h now
      \<lparr>mu_ProposalID = dr_ProposalID request, mu_Revision = dr_Revision request, mu_RevisionHash = dr_RevisionHash request,
       mu_ApprovalID = dr_ApprovalID request\<rparr> db3 =
      Inr (\<lparr>mu_ProposalID = dr_ProposalID request, mu_Revision = dr_Revision request, mu_RevisionHash = dr_RevisionHash request,
       mu_ApprovalID = dr_ApprovalID request\<rparr>, db')"
    using decided_rows_pairs [OF I(1)] fresh unfolding db3
    by (intro record_mutation_ok) (simp_all add: find_idempotency_def)
  then show ?thesis
    using h valid a pair p(2) eqs l(2) upd fresh
    by (auto simp: DecideProposalApproval_def canonical_error_def lookupProposalIdempotency_def require_def)
qed

subsection \<open>Reading\<close>

lemma validate_all_Inr: "(\<And>x. x \<in> set xs \<Longrightarrow> f x = Inr ()) \<Longrightarrow> validate_all f xs = Inr ()"
  by (induction xs) auto

lemma GetProposal_exact:
  assumes inv: "proposal_inv db"
  shows "GetProposal i db = require ErrProposalNotFound (find_proposal i (task_proposals db))"
proof (cases "find_proposal i (task_proposals db)")
  case (Some p)
  then have "p \<in> set (task_proposals db)" using proposals_tab.get_Some [OF proposal_invD(3) [OF inv]] by simp
  then have "validateRevisionIdentity db (pr_ProposalID p) (pr_CurrentRevision p) (pr_CurrentRevisionHash p) = Inr ()"
    using proposal_invD(2) [OF inv] unfolding validate_revision_iff numbering_ok_def by blast
  with Some show ?thesis by (simp add: GetProposal_def require_def)
qed (simp add: GetProposal_def require_def)

lemma ListProposalsByTarget_exact:
  assumes inv: "proposal_inv db" and "ident_pattern 63 pj" "ident_pattern 63 ws"
  shows "ListProposalsByTarget pj ws db =
    Inr (proposal_order (filter (\<lambda>p. pr_ProjectID p = pj \<and> pr_WorkstreamID p = ws) (task_proposals db)))"
proof -
  have "validateRevisionIdentity db (pr_ProposalID p) (pr_CurrentRevision p) (pr_CurrentRevisionHash p) = Inr ()"
    if "p \<in> set (task_proposals db)" for p
    using that proposal_invD(2) [OF inv] unfolding validate_revision_iff numbering_ok_def by blast
  then have "validate_all (\<lambda>p. validateRevisionIdentity db (pr_ProposalID p) (pr_CurrentRevision p) (pr_CurrentRevisionHash p))
      (proposal_order (filter (\<lambda>p. pr_ProjectID p = pj \<and> pr_WorkstreamID p = ws) (task_proposals db))) = Inr ()"
    by (intro validate_all_Inr) (auto simp: proposal_order_def)
  then show ?thesis
    using assms(2,3) by (simp add: ListProposalsByTarget_def validateIdentifier_def Let_def)
qed

lemma GetRevisionLifecycle_exact:
  assumes inv: "proposal_inv db"
  shows "GetRevisionLifecycle i n db = require ErrRevisionNotFound
    (find (\<lambda>l. lc_ProposalID l = i \<and> lc_Revision l = n) (task_proposal_revision_lifecycles db))"
proof (cases "find (\<lambda>l. lc_ProposalID l = i \<and> lc_Revision l = n) (task_proposal_revision_lifecycles db)")
  case (Some l)
  then have "l \<in> set (task_proposal_revision_lifecycles db)" using find_SomeD by fast
  then have "validateProposalMutationIdentity db \<lparr>mu_ProposalID = lc_ProposalID l, mu_Revision = lc_Revision l,
      mu_RevisionHash = lc_RevisionHash l, mu_ApprovalID = lc_ApprovalID l\<rparr> = Inr ()"
    using in_pair_ids by (fastforce simp: validate_mutation_iff [OF proposal_invD(1) [OF inv]] mu_pair_def mu_ident_def lc_ident_def)
  with Some show ?thesis by (simp add: GetRevisionLifecycle_def require_def)
qed (simp add: GetRevisionLifecycle_def require_def)

lemma GetApproval_exact:
  assumes inv: "proposal_inv db"
  shows "GetApproval j db = require ErrApprovalNotFound (find_approval j (task_proposal_approvals db))"
proof (cases "find_approval j (task_proposal_approvals db)")
  case (Some a)
  then have a: "a \<in> set (task_proposal_approvals db)" using approvals_tab.get_Some [OF approvals_unique [OF inv]] by simp
  obtain l where l: "l \<in> set (task_proposal_revision_lifecycles db)" "ap_pair a = lc_pair l"
    using pairs_partner(2) [OF _ a, of "task_proposal_revision_lifecycles db"] proposal_invD(1) [OF inv] by (auto simp: pairs_ok_def)
  then have "(ap_ident a, ap_ApprovalID a) \<in> set (pair_ids (task_proposal_revision_lifecycles db))"
    using in_pair_ids [OF l(1)] by (simp add: ap_pair_def lc_pair_def)
  then have "validateProposalMutationIdentity db \<lparr>mu_ProposalID = ap_ProposalID a, mu_Revision = ap_Revision a,
      mu_RevisionHash = ap_RevisionHash a, mu_ApprovalID = ap_ApprovalID a\<rparr> = Inr ()"
    by (simp add: validate_mutation_iff [OF proposal_invD(1) [OF inv]] mu_pair_def mu_ident_def ap_ident_def)
  with Some show ?thesis by (simp add: GetApproval_def require_def)
qed (simp add: GetApproval_def require_def)

lemma ListProposalActivity_exact:
  assumes inv: "proposal_inv db"
  shows "ListProposalActivity i db =
    (if ident_pattern 63 i \<and> find_proposal i (task_proposals db) \<noteq> None
     then Inr (filter (\<lambda>r. ac_ProposalID r = i) (task_proposal_activity db)) else Inl ErrProposalNotFound)"
proof -
  note logs = proposal_invD(5) [OF inv]
  let ?rs = "filter (\<lambda>r. ac_ProposalID r = i) (task_proposal_activity db)"
  have "sorted (map ac_Sequence ?rs)" using logs gapless_sorted by (auto simp: logs_ok_def log_seqs_def)
  then have ord: "order_by ac_Sequence ?rs = ?rs" by (simp add: order_by_def sort_key_id_if_sorted)
  have "validateProposalMutationIdentity db \<lparr>mu_ProposalID = ac_ProposalID r, mu_Revision = ac_Revision r,
      mu_RevisionHash = ac_RevisionHash r, mu_ApprovalID = ac_ApprovalID r\<rparr> = Inr ()" if r: "r \<in> set ?rs" for r
  proof -
    have "ac_pair r \<in> set (pair_ids (task_proposal_revision_lifecycles db))" using r logs by (simp add: logs_ok_def)
    then show ?thesis
      by (simp add: validate_mutation_iff [OF proposal_invD(1) [OF inv]] ac_pair_def mu_pair_def mu_ident_def)
  qed
  then have "validate_all (\<lambda>r. validateProposalMutationIdentity db
      \<lparr>mu_ProposalID = ac_ProposalID r, mu_Revision = ac_Revision r, mu_RevisionHash = ac_RevisionHash r,
       mu_ApprovalID = ac_ApprovalID r\<rparr>) ?rs = Inr ()"
    by (rule validate_all_Inr)
  then show ?thesis
    by (auto simp: ListProposalActivity_def ord require_def ensure_def Let_def)
qed

end
