(* ===== verification/Proposal_Demo.thy ===== *)
theory Proposal_Demo
  imports Proposal_Progress Canonical_JSON_Facts
begin

section \<open>A concrete history of the proposal store\<close>

text \<open>
  One proposal, created and then withdrawn or decided.  The properties of the proposal store are
  applied to these databases.  Hashes stay symbolic: they are the SHA-256 digests of the canonical
  texts.
\<close>

definition demo_now :: stamp where
  "demo_now = \<lparr>st_year = 2026, st_month = 1, st_day = 2, st_hour = 3, st_minute = 4, st_second = 5, st_nanos = 6\<rparr>"

definition demo_input :: RevisionInput where
  "demo_input =
     \<lparr>in_Task = \<lparr>ta_Title = ''Audit'', ta_Instructions = ''Read the store.''\<rparr>, in_AcceptanceCriteria = [''No findings''],
      in_Policy = \<lparr>po_Adapter = \<lparr>ad_Access = ''read_only'', ad_Kind = ''omp_audit'', ad_Status = ''future''\<rparr>,
        po_Authority = ''deterministic'', po_Budget = \<lparr>bu_Dimensions = [''deadline'', ''attempt_cap''], bu_Status = ''future''\<rparr>,
        po_ModelRole = ''advisory_only''\<rparr>\<rparr>"

definition demo_create :: CreateProposalRequest where
  "demo_create = \<lparr>cr_IdempotencyKey = ''key_create'', cr_ProjectID = ''project'', cr_WorkstreamID = ''stream'',
     cr_RevisionInput = demo_input\<rparr>"

definition demo_pid :: string where
  "demo_pid = ''proposal_6161''"

definition demo_aid :: string where
  "demo_aid = ''approval_6262''"

definition demo_revision :: Revision where
  "demo_revision = root_revision demo_now demo_pid demo_create"

definition demo_snapshot :: string where
  "demo_snapshot = enc (canon (revision_value demo_revision))"

definition demo_hash :: string where
  "demo_hash = ''sha256:'' @ hex_encode (Sum256 demo_snapshot)"

definition demo_withdraw :: WithdrawProposalRequest where
  "demo_withdraw = \<lparr>wr_IdempotencyKey = ''key_withdraw'', wr_ProposalID = demo_pid\<rparr>"

definition demo_decision :: "ApprovalState \<Rightarrow> DecideProposalApprovalRequest" where
  "demo_decision d = \<lparr>dr_IdempotencyKey = ''key_decide'', dr_ApprovalID = demo_aid, dr_ProposalID = demo_pid,
     dr_Revision = 1, dr_RevisionHash = demo_hash, dr_Decision = d, dr_Reason = ''reviewed''\<rparr>"

definition demo_append :: AppendProposalRevisionRequest where
  "demo_append = \<lparr>ar_IdempotencyKey = ''key_append'', ar_ProposalID = demo_pid, ar_ExpectedCurrentRevision = 1,
     ar_ExpectedCurrentRevisionHash = demo_hash, ar_RevisionInput = demo_input\<rparr>"

definition body_hash :: "json \<Rightarrow> string" where
  "body_hash v = ''sha256:'' @ hex_encode (Sum256 (enc (canon v)))"

lemma body_hash: "json_ok v \<Longrightarrow> canonicalJSONHash v = Inr (body_hash v)"
  by (simp add: canonicalJSONHash_def canonicalJSON_eq body_hash_def)

definition demo_mutation :: ProposalMutation where
  "demo_mutation = \<lparr>mu_ProposalID = demo_pid, mu_Revision = 1, mu_RevisionHash = demo_hash, mu_ApprovalID = demo_aid\<rparr>"

definition demo_created_db :: ProposalDB where
  "demo_created_db =
     \<lparr>task_proposals = [created_proposal demo_now demo_pid demo_create demo_hash],
      task_proposal_revisions = [\<lparr>rv_ProposalID = demo_pid, rv_Revision = 1, rv_RevisionHash = demo_hash, rv_Snapshot = demo_snapshot\<rparr>],
      task_proposal_approvals = [pending_approval demo_now demo_aid demo_pid 1 demo_hash],
      task_proposal_revision_lifecycles = [pending_lifecycle demo_now demo_aid demo_pid 1 demo_hash],
      task_proposal_activity = [activity_row emptyProposals ''create_proposal'' demo_now demo_mutation],
      task_proposal_idempotency = [idem_row ''create_proposal'' ''proposal_collection'' ''key_create''
        (body_hash (createRequestBody demo_create)) demo_mutation]\<rparr>"

definition demo_withdrawn_db :: ProposalDB where
  "demo_withdrawn_db =
     \<lparr>task_proposals = [(created_proposal demo_now demo_pid demo_create demo_hash)\<lparr>pr_State := ProposalStateWithdrawn\<rparr>],
      task_proposal_revisions = task_proposal_revisions demo_created_db,
      task_proposal_approvals = [(pending_approval demo_now demo_aid demo_pid 1 demo_hash)\<lparr>ap_State := ApprovalStateWithdrawn\<rparr>],
      task_proposal_revision_lifecycles = [(pending_lifecycle demo_now demo_aid demo_pid 1 demo_hash)
        \<lparr>lc_State := RevisionLifecycleStateWithdrawn, lc_UpdatedAt := demo_now, lc_Version := 2\<rparr>],
      task_proposal_activity = task_proposal_activity demo_created_db @
        [activity_row demo_created_db ''withdraw_proposal'' demo_now demo_mutation],
      task_proposal_idempotency = task_proposal_idempotency demo_created_db @
        [idem_row ''withdraw_proposal'' demo_pid ''key_withdraw'' (body_hash (withdrawProposalRequestBody demo_withdraw)) demo_mutation]\<rparr>"

subsection \<open>The requests are valid\<close>

lemmas ascii_simps = ValidString_ascii byte_of_def

lemma demo_json_ok [simp]:
  "json_ok (createRequestBody demo_create)" "json_ok (revision_value demo_revision)"
  "json_ok (withdrawProposalRequestBody demo_withdraw)"
  by (simp_all add: createRequestBody_def demo_create_def revisionInputCanonicalValue_def demo_input_def jstrings_def
      policy_value_def task_value_def revision_value_def demo_revision_def root_revision_def demo_now_def stamp_text_def
      nano_fraction_def localGUIOperator_def demo_pid_def withdrawProposalRequestBody_def demo_withdraw_def ascii_simps)

lemmas ident_simps = ident_pattern_def is_lower_def ident_char_def is_digit_def byte_of_def

lemma demo_valid [simp]:
  "validateCreateProposalRequest demo_create = Inr ()" "validateWithdrawProposalRequest demo_withdraw = Inr ()"
  by (simp_all add: validateCreateProposalRequest_def validateWithdrawProposalRequest_def demo_create_def demo_withdraw_def
      demo_pid_def validateIdentifier_def validateIdempotencyKey_def validateRevisionInput_def demo_input_def validateText_def
      fixed_policy_def ident_simps ValidString_ascii)

lemma hex_demo: "hex_encode ''aa'' = ''6161''" "hex_encode ''bb'' = ''6262''"
  by code_simp+

lemma demo_ids [simp]:
  "newProposalIdentifier ''proposal'' (Some ''aa'') = Inr demo_pid" "newProposalIdentifier ''approval'' (Some ''bb'') = Inr demo_aid"
  by (simp_all add: newProposalIdentifier_def demo_pid_def demo_aid_def hex_demo)

lemma demo_snapshot_ok [simp]: "canonicalRevisionSnapshot demo_revision = Inr (demo_snapshot, demo_hash)"
  using demo_json_ok(2)
  by (simp add: canonicalRevisionSnapshot_def canonicalJSONHash_def canonicalJSON_eq demo_snapshot_def demo_hash_def)

lemma demo_hash_ok: "validateRevisionHash demo_hash name = Inr ()" "ValidString demo_hash"
proof -
  have lower: "list_all is_lower_hex (hex_encode (Sum256 demo_snapshot))" by (rule hex_encode_lower)
  then show "validateRevisionHash demo_hash name = Inr ()"
    by (simp add: demo_hash_def validateRevisionHash_def HasPrefix_def length_hex_encode)
  have "list_all (\<lambda>c. byte_of c < 128) demo_hash"
    using lower by (auto simp: demo_hash_def list_all_iff is_lower_hex_def is_digit_def byte_of_def)
  then show "ValidString demo_hash" by (rule ValidString_ascii)
qed

lemma demo_append_ok:
  "json_ok (appendRevisionRequestBody demo_append)" "validateAppendProposalRevisionRequest demo_append = Inr ()"
  by (simp_all add: appendRevisionRequestBody_def demo_append_def revisionInputCanonicalValue_def demo_input_def jstrings_def
      policy_value_def task_value_def demo_pid_def demo_hash_ok ascii_simps validateAppendProposalRevisionRequest_def
      validateIdentifier_def validateIdempotencyKey_def validateRevisionInput_def validateText_def fixed_policy_def ident_simps)

lemma demo_decision_ok:
  "json_ok (decisionRequestBody (demo_decision ApprovalStateApproved))"
  "validateDecideProposalApprovalRequest (demo_decision ApprovalStateApproved) = Inr ()"
  by (simp_all add: decisionRequestBody_def demo_decision_def demo_pid_def demo_aid_def demo_hash_ok ascii_simps
      validateDecideProposalApprovalRequest_def validateIdentifier_def validateIdempotencyKey_def validateText_def ident_simps)

subsection \<open>The history\<close>

lemma demo_fields [simp]:
  "cr_IdempotencyKey demo_create = ''key_create''" "wr_IdempotencyKey demo_withdraw = ''key_withdraw''"
  "wr_ProposalID demo_withdraw = demo_pid"
  by (simp_all add: demo_create_def demo_withdraw_def)

lemma demo_created:
  "CreateProposal demo_now (Some ''aa'') (Some ''bb'') demo_create emptyProposals = Inr (demo_mutation, demo_created_db)"
  by (simp add: CreateProposal_def canonical_error_def body_hash lookupProposalIdempotency_def find_idempotency_def
      emptyProposals_def insert_proposal_def find_proposal_def insert_revision_pair_def demo_revision_def [symmetric]
      record_mutation_def insertProposalIdempotency_def validateProposalMutationIdentity_def rv_ident_def lc_ident_def
      ap_ident_def mu_ident_def pending_approval_def pending_lifecycle_def appendProposalActivity_def demo_created_db_def
      created_proposal_def activity_row_def activity_seqs_def idem_row_def demo_mutation_def)

lemma demo_withdrawn:
  "WithdrawProposal demo_now demo_withdraw demo_created_db = Inr (demo_mutation, demo_withdrawn_db)"
  by (simp add: WithdrawProposal_def canonical_error_def body_hash lookupProposalIdempotency_def find_idempotency_def
      demo_created_db_def find_proposal_def record_mutation_def insertProposalIdempotency_def
      validateProposalMutationIdentity_def rv_ident_def lc_ident_def ap_ident_def mu_ident_def pending_approval_def
      pending_lifecycle_def appendProposalActivity_def created_proposal_def activity_row_def activity_seqs_def idem_row_def
      demo_mutation_def demo_withdrawn_db_def current_pair_def withdraw_pair_def close_proposal_def rows_affected_def Let_def
      require_def)

lemma demo_reachable:
  "proposals_reachable demo_created_db" "proposal_step demo_created_db demo_withdrawn_db" "proposals_reachable demo_withdrawn_db"
proof -
  show c: "proposals_reachable demo_created_db" by (rule r_into_rtranclp) (rule proposal_step.create [OF demo_created])
  show w: "proposal_step demo_created_db demo_withdrawn_db" by (rule proposal_step.withdraw [OF demo_withdrawn])
  show "proposals_reachable demo_withdrawn_db" by (rule rtranclp.rtrancl_into_rtrancl [OF c w])
qed

end
