(* ===== verification/Proposal_Properties.thy ===== *)
theory Proposal_Properties
  imports Proposal_Demo
begin

section \<open>Properties of the proposal store\<close>

text \<open>
  The theorems about \<^verbatim>\<open>src/internal/store/proposals.go\<close>, each over the databases the four mutations
  can produce from an empty one, with an application to the history of \<^verbatim>\<open>Proposal_Demo\<close>.
\<close>

subsection \<open>Hashes and snapshots\<close>

lemma obj_member:
  assumes "canon (JObj kvs) = canon (JObj kws)" "distinct (map fst kws)" "(k, v) \<in> set kvs" "(k, w) \<in> set kws"
  shows "canon v = canon w"
proof -
  let ?f = "\<lambda>kv. (fst kv, canon (snd kv))"
  have "sort_key (utf16_encode \<circ> fst) (map ?f kvs) = sort_key (utf16_encode \<circ> fst) (map ?f kws)" using assms(1) by simp
  from arg_cong [OF this, of set] have "set (map ?f kvs) = set (map ?f kws)" by (simp only: set_sort)
  moreover have "(k, canon v) \<in> set (map ?f kvs)" using assms(3) by force
  ultimately obtain w' where w': "(k, w') \<in> set kws" "canon w' = canon v" by auto
  then have "w' = w" using assms(2,4) by (meson eq_key_imp_eq_value)
  with w' show ?thesis by simp
qed

lemma jstrings_inject: "canon (jstrings xs) = canon (jstrings ys) \<longleftrightarrow> xs = ys"
  by (auto simp: jstrings_def comp_def inj_map_eq_map inj_def)

lemma JStr_inject: "canon (JStr a) = canon (JStr b) \<longleftrightarrow> a = b"
  by simp

lemma joption_inject:
  "canon (joption JInt a) = canon (joption JInt b) \<longleftrightarrow> a = b"
  "canon (joption JStr c) = canon (joption JStr d) \<longleftrightarrow> c = d"
  by (cases a; cases b; simp) (cases c; cases d; simp)

lemma task_value_inject:
  assumes "canon (task_value t) = canon (task_value u)"
  shows "t = u"
  using obj_member [OF assms [unfolded task_value_def], of "''title''"]
    obj_member [OF assms [unfolded task_value_def], of "''instructions''"]
  by (cases t, cases u) simp

lemma policy_value_inject:
  assumes "canon (policy_value p) = canon (policy_value q)"
  shows "p = q"
proof -
  note m = obj_member [OF assms [unfolded policy_value_def]]
  have ad: "canon (JObj [(''access'', JStr (ad_Access (po_Adapter p))), (''kind'', JStr (ad_Kind (po_Adapter p))),
        (''status'', JStr (ad_Status (po_Adapter p)))]) =
      canon (JObj [(''access'', JStr (ad_Access (po_Adapter q))), (''kind'', JStr (ad_Kind (po_Adapter q))),
        (''status'', JStr (ad_Status (po_Adapter q)))])"
    by (rule m [of "''adapter''"]) simp_all
  have bu: "canon (JObj [(''dimensions'', jstrings (bu_Dimensions (po_Budget p))), (''status'', JStr (bu_Status (po_Budget p)))]) =
      canon (JObj [(''dimensions'', jstrings (bu_Dimensions (po_Budget q))), (''status'', JStr (bu_Status (po_Budget q)))])"
    by (rule m [of "''budget''"]) simp_all
  have "po_Adapter p = po_Adapter q"
    using obj_member [OF ad, of "''access''"] obj_member [OF ad, of "''kind''"] obj_member [OF ad, of "''status''"]
    by (cases "po_Adapter p", cases "po_Adapter q") simp
  moreover have "po_Budget p = po_Budget q"
    using obj_member [OF bu, of "''dimensions''"] obj_member [OF bu, of "''status''"]
    by (cases "po_Budget p", cases "po_Budget q") (simp add: jstrings_inject)
  ultimately show ?thesis
    using m [of "''authority''"] m [of "''model_role''"] by (cases p, cases q) simp
qed

text \<open>C25: Every hash the store computes has the form \<open>validateRevisionHash\<close> demands: the prefix
  \<open>sha256:\<close> and 64 lowercase hexadecimal digits, so a hash handed out can be sent back.\<close>

theorem hashes_are_well_formed:
  assumes "canonicalJSONHash v = Inr h"
  shows "validateRevisionHash h name = Inr ()"
  using assms hex_encode_lower
  by (auto simp: canonicalJSONHash_def validateRevisionHash_def HasPrefix_def length_hex_encode andThen_Inr split: sum.splits)

theorem hashes_are_well_formed_witness:
  "validateRevisionHash (body_hash (JInt 5)) ''hash'' = Inr ()"
  by (rule hashes_are_well_formed [of "JInt 5"]) (simp add: body_hash)

text \<open>A snapshot determines the revision it was made from: two revisions with the same snapshot
  text have the same hash and agree in every field, their creation times in the text they print as.\<close>

theorem snapshot_determines_revision:
  assumes "canonicalRevisionSnapshot v = Inr (s, h)" "canonicalRevisionSnapshot w = Inr (s, h')"
  shows "h' = h \<and> stamp_text (re_CreatedAt w) = stamp_text (re_CreatedAt v) \<and> w\<lparr>re_CreatedAt := re_CreatedAt v\<rparr> = v"
proof -
  have texts: "canonicalJSON (revision_value v) = Inr s" "canonicalJSON (revision_value w) = Inr s"
    and h: "canonicalJSONHash (revision_value v) = Inr h" "canonicalJSONHash (revision_value w) = Inr h'"
    using assms by (auto simp: canonicalRevisionSnapshot_def andThen_Inr)
  then have "h' = h" by (simp add: canonicalJSONHash_def)
  have "canon (revision_value v) = canon (revision_value w)"
    using texts enc_inject by (auto simp: canonicalJSON_eq split: if_splits)
  note m = obj_member [OF this [unfolded revision_value_def]]
  have "re_Task v = re_Task w" by (rule task_value_inject, rule m [of "''task''"]) simp_all
  moreover have "re_Policy v = re_Policy w" by (rule policy_value_inject, rule m [of "''policy''"]) simp_all
  moreover have "re_AcceptanceCriteria v = re_AcceptanceCriteria w"
    unfolding jstrings_inject [symmetric] by (rule m [of "''acceptance_criteria''"]) simp_all
  moreover have "re_ParentRevision v = re_ParentRevision w"
    unfolding joption_inject(1) [symmetric] by (rule m [of "''parent_revision''"]) simp_all
  moreover have "re_ParentRevisionHash v = re_ParentRevisionHash w"
    unfolding joption_inject(2) [symmetric] by (rule m [of "''parent_revision_hash''"]) simp_all
  moreover have "stamp_text (re_CreatedAt v) = stamp_text (re_CreatedAt w)"
    unfolding JStr_inject [symmetric] by (rule m [of "''created_at''"]) simp_all
  moreover have "re_CreatedBy v = re_CreatedBy w" "re_IdempotencyKey v = re_IdempotencyKey w"
    "re_ProposalID v = re_ProposalID w" "re_SchemaVersion v = re_SchemaVersion w"
    unfolding JStr_inject [symmetric]
    by (rule m [of "''created_by''"] m [of "''idempotency_key''"] m [of "''proposal_id''"] m [of "''schema_version''"]; simp)+
  moreover have "canon (JInt (re_Revision v)) = canon (JInt (re_Revision w))"
    by (rule m [of "''revision''"]) simp_all
  ultimately show ?thesis using \<open>h' = h\<close> by (cases v, cases w) simp
qed

theorem snapshot_determines_revision_witness:
  "stamp_text (re_CreatedAt demo_revision) = stamp_text demo_now
   \<and> demo_revision\<lparr>re_CreatedAt := re_CreatedAt demo_revision\<rparr> = demo_revision"
  using snapshot_determines_revision [OF demo_snapshot_ok demo_snapshot_ok] by (simp add: demo_revision_def root_revision_def)

subsection \<open>The invariant and the review machine\<close>

text \<open>C6: Every database the mutations can produce satisfies the proposal invariant: revisions,
  lifecycles and approvals correspond one to one with equal identity and state, revisions of a
  proposal are numbered \<open>1, 2, ...\<close> up to its current one, the review states agree with the
  proposal state, log rows name existing pairs, and snapshots form a hash chain.\<close>

theorem proposals_invariant:
  assumes "proposals_reachable db"
  shows "proposal_inv db"
  by (rule proposals_reachable_inv [OF assms])

theorem proposals_invariant_witness: "proposal_inv demo_withdrawn_db"
  by (rule proposals_invariant [OF demo_reachable(3)])

lemma review_view_empty: "review_view emptyProposals = Map.empty"
  by (rule ext) (simp add: review_view_def emptyProposals_def find_proposal_def)

lemma reviews_reachable: "proposals_reachable db \<Longrightarrow> review_step\<^sup>*\<^sup>* Map.empty (review_view db)"
proof (induction rule: rtranclp_induct)
  case (step db db')
  then show ?case
    using proposal_step_refines proposals_reachable_inv by (metis rtranclp.rtrancl_into_rtrancl)
qed (simp add: review_view_empty)

text \<open>C7: The tables implement the review machine: the abstract reviews of a reachable database are
  reachable in it, and each mutation changes nothing (a replay) or is one step of one review: open,
  revise, approve, reject or retract.\<close>

theorem proposals_refine_reviews:
  assumes "proposals_reachable db"
  shows "review_step\<^sup>*\<^sup>* Map.empty (review_view db)
    \<and> (proposal_step db db' \<longrightarrow> db' = db \<or> review_step (review_view db) (review_view db'))"
  using reviews_reachable [OF assms] proposal_step_refines proposals_reachable_inv [OF assms] by blast

theorem proposals_refine_reviews_witness: "review_step (review_view demo_created_db) (review_view demo_withdrawn_db)"
proof -
  have "task_proposals demo_withdrawn_db \<noteq> task_proposals demo_created_db"
    by (simp add: demo_withdrawn_db_def demo_created_db_def created_proposal_def)
  then have "demo_withdrawn_db \<noteq> demo_created_db" by auto
  then show ?thesis using proposals_refine_reviews [OF demo_reachable(1)] demo_reachable(2) by blast
qed

subsection \<open>Idempotency\<close>

text \<open>C26: A successful request can be repeated at any later time, whatever other mutations happened
  in between, whatever the clock and the random source: it returns the recorded result again and
  changes nothing.\<close>

theorem request_replay:
  assumes "proposals_reachable db" "perform now rnd1 rnd2 r db = Inr (m, db1)" "proposal_step\<^sup>*\<^sup>* db1 db2"
  shows "perform now' rnd1' rnd2' r db2 = Inr (m, db2)"
proof -
  have inv1: "proposal_inv db1"
    using proposals_reachable_inv [OF assms(1)] perform_step [OF assms(2)] proposal_step_inv by blast
  obtain h i where h: "canonicalJSONHash (request_body r) = Inr h" and i: "recorded r db1 = Some i" "im_Result i = m" "im_BodyHash i = h"
    using perform_records [OF assms(2)] by blast
  have evo: "proposal_inv db2" "db_evolves db1 db2" using proposal_steps_evolve [OF assms(3) inv1] by simp_all
  show ?thesis using perform_recorded [OF evo(1) recorded_evolves [OF evo(2) i(1)] h] i(2,3) by simp
qed

theorem request_replay_witness:
  "CreateProposal demo_now None None demo_create demo_withdrawn_db = Inr (demo_mutation, demo_withdrawn_db)"
  using request_replay [of emptyProposals demo_now "Some ''aa''" "Some ''bb''" "CreateRequest demo_create" demo_mutation
      demo_created_db demo_withdrawn_db demo_now None None]
  by (simp add: demo_created r_into_rtranclp [of proposal_step, OF demo_reachable(2)])

text \<open>Once a key was used, the hash of the body alone decides every later request under the same
  operation, resource and key: the same hash replays the recorded result, a different one fails with
  \<open>ErrIdempotencyConflict\<close>, before validation and whatever happened in between.\<close>

theorem reused_key_decided_by_body_hash:
  assumes "proposals_reachable db" "perform now rnd1 rnd2 r db = Inr (m, db1)" "proposal_step\<^sup>*\<^sup>* db1 db2"
    and "slot r' = slot r" "canonicalJSONHash (request_body r') = Inr h'"
  shows "perform now' rnd1' rnd2' r' db2 =
    (if canonicalJSONHash (request_body r) = Inr h' then Inr (m, db2) else Inl ErrIdempotencyConflict)"
proof -
  have inv1: "proposal_inv db1"
    using proposals_reachable_inv [OF assms(1)] perform_step [OF assms(2)] proposal_step_inv by blast
  obtain h i where h: "canonicalJSONHash (request_body r) = Inr h" and i: "recorded r db1 = Some i" "im_Result i = m" "im_BodyHash i = h"
    using perform_records [OF assms(2)] by blast
  have evo: "proposal_inv db2" "db_evolves db1 db2" using proposal_steps_evolve [OF assms(3) inv1] by simp_all
  have "recorded r' db2 = Some i" using recorded_evolves [OF evo(2) i(1)] assms(4) by (simp add: recorded_def)
  then show ?thesis using perform_recorded [OF evo(1) _ assms(5)] i(2,3) h by simp
qed

theorem reused_key_decided_by_body_hash_witness:
  "CreateProposal demo_now None None (demo_create\<lparr>cr_ProjectID := ''other''\<rparr>) demo_withdrawn_db =
     (if body_hash (createRequestBody demo_create) = body_hash (createRequestBody (demo_create\<lparr>cr_ProjectID := ''other''\<rparr>))
      then Inr (demo_mutation, demo_withdrawn_db) else Inl ErrIdempotencyConflict)"
proof -
  have "json_ok (createRequestBody (demo_create\<lparr>cr_ProjectID := ''other''\<rparr>))"
    using demo_json_ok(1) by (simp add: createRequestBody_def ascii_simps)
  then show ?thesis
    using reused_key_decided_by_body_hash [of emptyProposals demo_now "Some ''aa''" "Some ''bb''" "CreateRequest demo_create"
        demo_mutation demo_created_db demo_withdrawn_db "CreateRequest (demo_create\<lparr>cr_ProjectID := ''other''\<rparr>)"
        "body_hash (createRequestBody (demo_create\<lparr>cr_ProjectID := ''other''\<rparr>))" demo_now None None]
    by (simp add: demo_created body_hash r_into_rtranclp [of proposal_step, OF demo_reachable(2)])
qed

subsection \<open>History\<close>

text \<open>C27: Nothing is rewritten: along every sequence of mutations the revision, activity and
  idempotency tables only grow at the end; a proposal keeps its target and its creation columns, and
  its revision counter never decreases; a closed proposal and an approval that is no longer pending
  never change again.\<close>

theorem proposal_history_append_only:
  assumes "proposals_reachable db" "proposal_step\<^sup>*\<^sup>* db db'"
  shows "prefix (task_proposal_revisions db) (task_proposal_revisions db')
    \<and> prefix (task_proposal_activity db) (task_proposal_activity db')
    \<and> prefix (task_proposal_idempotency db) (task_proposal_idempotency db')
    \<and> (\<forall>i p. find_proposal i (task_proposals db) = Some p
         \<longrightarrow> (\<exists>p'. find_proposal i (task_proposals db') = Some p' \<and> proposal_evolves p p'))
    \<and> (\<forall>j a. find_approval j (task_proposal_approvals db) = Some a
         \<longrightarrow> (\<exists>a'. find_approval j (task_proposal_approvals db') = Some a' \<and> approval_evolves a a'))"
  using proposal_steps_evolve [OF assms(2) proposals_reachable_inv [OF assms(1)]] by (simp add: db_evolves_def)

theorem proposal_history_append_only_witness:
  "prefix (task_proposal_activity demo_created_db) (task_proposal_activity demo_withdrawn_db)"
  using proposal_history_append_only [OF demo_reachable(1) r_into_rtranclp [of proposal_step, OF demo_reachable(2)]] by simp

text \<open>C28: The revisions of a proposal form a hash chain: each stored snapshot is the canonical text of
  a revision with the row's identity, its hash is the SHA-256 digest of the snapshot, revision 1 has
  no parent, and every later revision embeds the number and the hash of the row before it.\<close>

theorem revision_hash_chain:
  assumes "proposals_reachable db" "r \<in> set (task_proposal_revisions db)"
  shows "\<exists>v. canonicalRevisionSnapshot v = Inr (rv_Snapshot r, rv_RevisionHash r)
    \<and> rv_RevisionHash r = ''sha256:'' @ hex_encode (Sum256 (rv_Snapshot r))
    \<and> re_ProposalID v = rv_ProposalID r \<and> re_Revision v = rv_Revision r
    \<and> (if rv_Revision r = 1 then re_ParentRevision v = None \<and> re_ParentRevisionHash v = None
       else \<exists>q \<in> set (task_proposal_revisions db). rv_ProposalID q = rv_ProposalID r \<and> rv_Revision q = rv_Revision r - 1
         \<and> re_ParentRevision v = Some (rv_Revision q) \<and> re_ParentRevisionHash v = Some (rv_RevisionHash q))"
proof -
  have "snapshots_ok (task_proposal_revisions db)" by (rule proposal_invD(6) [OF proposals_reachable_inv [OF assms(1)]])
  then obtain v where v: "snapshot_of (task_proposal_revisions db) r v" using assms(2) by (auto simp: snapshots_ok_def)
  then have snap: "canonicalRevisionSnapshot v = Inr (rv_Snapshot r, rv_RevisionHash r)"
    and ids: "re_ProposalID v = rv_ProposalID r" "re_Revision v = rv_Revision r"
    and par: "parent_ok (task_proposal_revisions db) v" by (simp_all add: snapshot_of_def)
  have "rv_RevisionHash r = ''sha256:'' @ hex_encode (Sum256 (rv_Snapshot r))"
    using snap by (auto simp: canonicalRevisionSnapshot_def canonicalJSONHash_def andThen_Inr)
  moreover have "if rv_Revision r = 1 then re_ParentRevision v = None \<and> re_ParentRevisionHash v = None
      else \<exists>q \<in> set (task_proposal_revisions db). rv_ProposalID q = rv_ProposalID r \<and> rv_Revision q = rv_Revision r - 1
        \<and> re_ParentRevision v = Some (rv_Revision q) \<and> re_ParentRevisionHash v = Some (rv_RevisionHash q)"
    using par ids by (force simp: parent_ok_def rv_ident_def split: if_splits)
  ultimately show ?thesis using snap ids by blast
qed

theorem revision_hash_chain_witness:
  "\<exists>v. canonicalRevisionSnapshot v = Inr (demo_snapshot, demo_hash) \<and> re_ParentRevisionHash v = None"
  using revision_hash_chain [OF demo_reachable(1), of "hd (task_proposal_revisions demo_created_db)"]
  by (auto simp: demo_created_db_def)

subsection \<open>Conflicts and decisions\<close>

text \<open>A stale append never gets through: once a proposal is closed or its revision counter has
  passed the revision a request expects, that request under a fresh key fails with
  \<open>ErrRevisionConflict\<close> in every later database.\<close>

theorem stale_append_conflicts:
  assumes "proposals_reachable db" "find_proposal (ar_ProposalID r) (task_proposals db) = Some p"
    and "pr_State p \<noteq> ProposalStateOpen \<or> ar_ExpectedCurrentRevision r < pr_CurrentRevision p"
    and "proposal_step\<^sup>*\<^sup>* db db'"
    and "find_idempotency ''append_revision'' (ar_ProposalID r) (ar_IdempotencyKey r) db' = None"
    and "canonicalJSONHash (appendRevisionRequestBody r) = Inr h" "validateAppendProposalRevisionRequest r = Inr ()"
  shows "AppendProposalRevision now rnd r db' = Inl ErrRevisionConflict"
proof -
  have "db_evolves db db'" using proposal_steps_evolve [OF assms(4) proposals_reachable_inv [OF assms(1)]] by simp
  then obtain p' where p': "find_proposal (ar_ProposalID r) (task_proposals db') = Some p'" "proposal_evolves p p'"
    using db_evolvesD(4) [OF _ assms(2)] by blast
  then have "\<not> (pr_State p' = ProposalStateOpen \<and> pr_CurrentRevision p' = ar_ExpectedCurrentRevision r
      \<and> pr_CurrentRevisionHash p' = ar_ExpectedCurrentRevisionHash r)"
    using assms(3) by (auto simp: proposal_evolves_def)
  then show ?thesis
    using p'(1) assms(5-7)
    by (auto simp: AppendProposalRevision_def canonical_error_def lookupProposalIdempotency_def require_def ensure_def)
qed

theorem stale_append_conflicts_witness:
  "AppendProposalRevision demo_now (Some ''cc'') demo_append demo_withdrawn_db = Inl ErrRevisionConflict"
  by (rule stale_append_conflicts [OF demo_reachable(3), where p = "hd (task_proposals demo_withdrawn_db)"
        and h = "body_hash (appendRevisionRequestBody demo_append)"])
    (simp_all add: demo_append_ok body_hash, simp_all add: demo_append_def demo_withdrawn_db_def demo_created_db_def
      find_proposal_def created_proposal_def find_idempotency_def idem_row_def)

text \<open>C29: A valid decision under a fresh key succeeds exactly when the approval it names exists, is
  pending and carries the identity the request states: the further checks of the code on the proposal
  and the lifecycle never refuse it.\<close>

theorem decide_succeeds_iff:
  assumes "proposals_reachable db"
    and "find_idempotency ''decide_approval'' (dr_ApprovalID r) (dr_IdempotencyKey r) db = None"
    and "canonicalJSONHash (decisionRequestBody r) = Inr h" "validateDecideProposalApprovalRequest r = Inr ()"
  shows "(\<exists>m db'. DecideProposalApproval now r db = Inr (m, db')) \<longleftrightarrow>
    (\<exists>a. find_approval (dr_ApprovalID r) (task_proposal_approvals db) = Some a \<and> ap_State a = ApprovalStatePending
      \<and> ap_ident a = (dr_ProposalID r, dr_Revision r, dr_RevisionHash r))"
proof
  assume "\<exists>m db'. DecideProposalApproval now r db = Inr (m, db')"
  then obtain m db' where "DecideProposalApproval now r db = Inr (m, db')" by blast
  then show "\<exists>a. find_approval (dr_ApprovalID r) (task_proposal_approvals db) = Some a \<and> ap_State a = ApprovalStatePending
      \<and> ap_ident a = (dr_ProposalID r, dr_Revision r, dr_RevisionHash r)"
    by (cases rule: DecideProposalApproval_cases) (use assms(2) in \<open>auto simp: lookup_Some\<close>)
next
  assume "\<exists>a. find_approval (dr_ApprovalID r) (task_proposal_approvals db) = Some a \<and> ap_State a = ApprovalStatePending
      \<and> ap_ident a = (dr_ProposalID r, dr_Revision r, dr_RevisionHash r)"
  then show "\<exists>m db'. DecideProposalApproval now r db = Inr (m, db')"
    using decide_succeeds [OF proposals_reachable_inv [OF assms(1)] assms(2-4)] by blast
qed

theorem decide_succeeds_iff_witness:
  "\<exists>m db'. DecideProposalApproval demo_now (demo_decision ApprovalStateApproved) demo_created_db = Inr (m, db')"
  by (subst decide_succeeds_iff [OF demo_reachable(1), where h = "body_hash (decisionRequestBody (demo_decision ApprovalStateApproved))"])
    (simp_all add: demo_decision_ok body_hash, simp_all add: demo_decision_def demo_created_db_def find_idempotency_def
      idem_row_def find_approval_def pending_approval_def ap_ident_def)

subsection \<open>Reading\<close>

text \<open>Reading never reports a corrupt record: on every reachable database each getter returns the
  stored row or its not-found error, the activity of a proposal comes back complete and numbered
  \<open>1, 2, ...\<close> without a gap, and a listing returns every proposal of its target.\<close>

theorem reads_are_exact:
  assumes "proposals_reachable db"
  shows "GetProposal i db = require ErrProposalNotFound (find_proposal i (task_proposals db))
    \<and> GetApproval j db = require ErrApprovalNotFound (find_approval j (task_proposal_approvals db))
    \<and> GetRevisionLifecycle i n db = require ErrRevisionNotFound
        (find (\<lambda>l. lc_ProposalID l = i \<and> lc_Revision l = n) (task_proposal_revision_lifecycles db))
    \<and> ListProposalActivity i db =
        (if ident_pattern 63 i \<and> find_proposal i (task_proposals db) \<noteq> None
         then Inr (filter (\<lambda>r. ac_ProposalID r = i) (task_proposal_activity db)) else Inl ErrProposalNotFound)
    \<and> gapless 1 (map ac_Sequence (filter (\<lambda>r. ac_ProposalID r = i) (task_proposal_activity db)))
    \<and> (ident_pattern 63 pj \<longrightarrow> ident_pattern 63 ws \<longrightarrow> (\<exists>ps. ListProposalsByTarget pj ws db = Inr ps
        \<and> mset ps = mset (filter (\<lambda>p. pr_ProjectID p = pj \<and> pr_WorkstreamID p = ws) (task_proposals db))))"
proof -
  note inv = proposals_reachable_inv [OF assms]
  have "gapless 1 (map ac_Sequence (filter (\<lambda>r. ac_ProposalID r = i) (task_proposal_activity db)))"
    using proposal_invD(5) [OF inv] by (simp add: logs_ok_def log_seqs_def)
  then show ?thesis
    using GetProposal_exact [OF inv] GetApproval_exact [OF inv] GetRevisionLifecycle_exact [OF inv]
      ListProposalActivity_exact [OF inv] ListProposalsByTarget_exact [OF inv]
    by (auto simp: proposal_order_def order_by_def)
qed

theorem reads_are_exact_witness:
  "GetProposal demo_pid demo_withdrawn_db = Inr (hd (task_proposals demo_withdrawn_db))"
  using reads_are_exact [OF demo_reachable(3), of demo_pid demo_aid 1 "''project''" "''stream''"]
  by (simp add: demo_withdrawn_db_def find_proposal_def created_proposal_def)

end
