(* ===== verification/Grill_Rules.thy ===== *)
theory Grill_Rules
  imports Proposal_Store
begin

section \<open>The Grill rule table and its evaluator\<close>

text \<open>
  The pure half of \<^verbatim>\<open>src/internal/store/grill.go\<close>: the closed review declaration and its
  validation, the six frozen rules, and \<open>evaluateGrillPure\<close>, which turns a declaration and the
  questions already asked into the questions to show, to add and to defer.  A Go map used as a set
  is the list of its members; \<open>DeferredRuleClasses\<close> is \<open>None\<close> for the nil slice.  Error texts keep the
  message of the code without the quoting of \<open>%q\<close> arguments.
\<close>

datatype grill_error =
    ErrGrillInvalidInput string
  | ErrGrillRevisionMismatch
  | ErrGrillInputHashMismatch
  | ErrGrillRuleVersion
  | ErrGrillQuestionNotFound
  | ErrGrillOverrideNotPermitted
  | ErrGrillMsg string
  | ErrGrillConstraint

definition GrillInputSchemaVersion :: string where "GrillInputSchemaVersion = ''ananke.grill.input.v1''"
definition GrillRuleVersion :: string where "GrillRuleVersion = ''ananke.grill.rules.v1''"
definition GrillQuestionSchemaVersion :: string where "GrillQuestionSchemaVersion = ''ananke.grill.question.v1''"
definition GrillDefaultSchemaVersion :: string where "GrillDefaultSchemaVersion = ''ananke.grill.default.v1''"
definition GrillAnswerSchemaVersion :: string where "GrillAnswerSchemaVersion = ''ananke.grill.answer.v1''"
definition GrillOverrideSchemaVersion :: string where "GrillOverrideSchemaVersion = ''ananke.grill.override.v1''"
definition deterministicGrillWriter :: string where "deterministicGrillWriter = ''deterministic_grill''"

record GrillRevisionIdentity =
  gi_ProposalID :: string
  gi_Revision :: int
  gi_RevisionHash :: string

record GrillAutonomy =
  au_Deadline :: "string option"
  au_AttemptCap :: "int option"

record GrillDeclarations =
  de_ObservableOutcome :: string
  de_ScopeCompatibility :: string
  de_AcceptanceEvidence :: string
  de_DestructiveExternal :: string
  de_LocalAuthorization :: string
  de_AdapterMode :: string
  de_WorktreeIsolation :: string
  de_Autonomy :: GrillAutonomy

record GrillInput =
  gn_SchemaVersion :: string
  gn_ProposalID :: string
  gn_Revision :: int
  gn_RevisionHash :: string
  gn_Declarations :: GrillDeclarations

record GrillEvaluationRequest =
  gq_Input :: GrillInput
  gq_InputHash :: string
  gq_RuleVersion :: string

datatype GrillStatus = GrillStatusClear | GrillStatusBlocked | GrillStatusNeedsRewrite

record GrillEvaluation =
  ge_ProposalID :: string
  ge_Revision :: int
  ge_RevisionHash :: string
  ge_RuleVersion :: string
  ge_InputHash :: string
  ge_NewQuestionIDs :: "string list"
  ge_ShownQuestionIDs :: "string list"
  ge_DeferredRuleClasses :: "string list option"
  ge_Status :: GrillStatus
  ge_NewRecords :: int

record grillRule =
  gl_Priority :: int
  gl_Class :: string
  gl_Risk :: string
  gl_Blocking :: bool
  gl_Waivable :: bool
  gl_Default :: string
  gl_RemedialStep :: string

definition grill_rule :: "int \<Rightarrow> string \<Rightarrow> string \<Rightarrow> bool \<Rightarrow> string \<Rightarrow> string \<Rightarrow> grillRule" where
  "grill_rule priority cls risk waivable dflt remedial =
     \<lparr>gl_Priority = priority, gl_Class = cls, gl_Risk = risk, gl_Blocking = True, gl_Waivable = waivable,
      gl_Default = dflt, gl_RemedialStep = remedial\<rparr>"

definition grillRules :: "grillRule list" where
  "grillRules =
     [grill_rule 10 ''observable_outcome'' ''high'' False ''needs_rewrite'' ''declare_observable_outcome'',
      grill_rule 20 ''scope_compatibility'' ''medium'' True ''needs_rewrite'' ''declare_scope_compatibility'',
      grill_rule 30 ''acceptance_evidence'' ''high'' False ''needs_rewrite'' ''declare_acceptance_evidence'',
      grill_rule 40 ''destructive_external_authorization'' ''critical'' False ''deny'' ''record_local_authorization'',
      grill_rule 50 ''adapter_worktree_isolation'' ''high'' False ''needs_rewrite'' ''require_isolated_worktree'',
      grill_rule 60 ''autonomy_budget'' ''high'' False ''needs_rewrite'' ''set_deadline_attempt_cap'']"

subsection \<open>Validation\<close>

definition grillInputCanonicalValue :: "GrillInput \<Rightarrow> json" where
  "grillInputCanonicalValue i =
     (let d = gn_Declarations i in JObj
       [(''schema_version'', JStr (gn_SchemaVersion i)),
        (''proposal_id'', JStr (gn_ProposalID i)),
        (''revision'', JInt (gn_Revision i)),
        (''revision_hash'', JStr (gn_RevisionHash i)),
        (''declarations'', JObj
          [(''observable_outcome'', JStr (de_ObservableOutcome d)),
           (''scope_compatibility'', JStr (de_ScopeCompatibility d)),
           (''acceptance_evidence'', JStr (de_AcceptanceEvidence d)),
           (''destructive_external'', JStr (de_DestructiveExternal d)),
           (''local_authorization'', JStr (de_LocalAuthorization d)),
           (''adapter_mode'', JStr (de_AdapterMode d)),
           (''worktree_isolation'', JStr (de_WorktreeIsolation d)),
           (''autonomy'', JObj
             [(''deadline'', joption JStr (au_Deadline (de_Autonomy d))),
              (''attempt_cap'', joption JInt (au_AttemptCap (de_Autonomy d)))])])])"

text \<open>\<open>^sha256:[0-9a-f]{64}$\<close> and \<open>^\d{4}-\d{2}-\d{2}T\d{2}:\d{2}:\d{2}(?:\.\d{1,9})?Z$\<close>.\<close>

definition grillHashPattern :: "string \<Rightarrow> bool" where
  "grillHashPattern s \<longleftrightarrow> HasPrefix s ''sha256:'' \<and> length s = 71 \<and> list_all is_lower_hex (drop 7 s)"

text \<open>\<open>layout\<close> matches a template in which \<open>d\<close> stands for a digit.\<close>

definition layout :: "string \<Rightarrow> string \<Rightarrow> bool" where
  "layout t s \<longleftrightarrow> list_all2 (\<lambda>c x. if c = CHR ''d'' then is_digit x else x = c) t s"

definition grillTimestampPattern :: "string \<Rightarrow> bool" where
  "grillTimestampPattern s \<longleftrightarrow>
     layout ''dddd-dd-ddTdd:dd:dd'' (take 19 s)
   \<and> (let r = drop 19 s in r = ''Z'' \<or>
       (3 \<le> length r \<and> length r \<le> 11 \<and> hd r = CHR ''.'' \<and> last r = CHR ''Z'' \<and> list_all is_digit (butlast (tl r))))"

text \<open>What \<open>time.Parse(time.RFC3339Nano, s)\<close> still checks on a text of that shape: the ranges of
  month, day of the month, hour, minute and second.\<close>

definition daysIn :: "nat \<Rightarrow> nat \<Rightarrow> nat" where
  "daysIn year month =
     (if month = 2 then (if year mod 4 = 0 \<and> (year mod 100 \<noteq> 0 \<or> year mod 400 = 0) then 29 else 28)
      else if month \<in> {4, 6, 9, 11} then 30 else 31)"

definition number_at :: "nat \<Rightarrow> nat \<Rightarrow> string \<Rightarrow> nat" where
  "number_at i n s = foldl (\<lambda>v c. v * 10 + (byte_of c - 48)) 0 (take n (drop i s))"

definition timeParses :: "string \<Rightarrow> bool" where
  "timeParses s \<longleftrightarrow>
     (let year = number_at 0 4 s; month = number_at 5 2 s; day = number_at 8 2 s in
      1 \<le> month \<and> month \<le> 12 \<and> 1 \<le> day \<and> day \<le> daysIn year month
    \<and> number_at 11 2 s < 24 \<and> number_at 14 2 s < 60 \<and> number_at 17 2 s < 60)"

definition grillOneOf :: "string \<Rightarrow> string list \<Rightarrow> bool" where
  "grillOneOf v allowed = list_ex (\<lambda>c. v = c) allowed"

definition validateGrillInput :: "GrillInput \<Rightarrow> grill_error + unit" where
  "validateGrillInput i =
     (let d = gn_Declarations i; bad = ErrGrillInvalidInput in
      andThen (ensure (gn_SchemaVersion i = GrillInputSchemaVersion) (bad (''schema_version must be '' @ [CHR 0x22] @ GrillInputSchemaVersion @ [CHR 0x22]))) (\<lambda>_.
      andThen (ensure (ident_pattern 63 (gn_ProposalID i)) (bad ''proposal id must be a P1a identifier'')) (\<lambda>_.
      andThen (ensure (0 < gn_Revision i) (bad ''revision must be positive'')) (\<lambda>_.
      andThen (ensure (grillHashPattern (gn_RevisionHash i)) (bad ''revision_hash must be a SHA-256 hash'')) (\<lambda>_.
      andThen (ensure (grillOneOf (de_ObservableOutcome d) [''absent'', ''declared'']) (bad ''observable_outcome must be absent or declared'')) (\<lambda>_.
      andThen (ensure (grillOneOf (de_ScopeCompatibility d) [''absent'', ''declared'']) (bad ''scope_compatibility must be absent or declared'')) (\<lambda>_.
      andThen (ensure (grillOneOf (de_AcceptanceEvidence d) [''absent'', ''declared'']) (bad ''acceptance_evidence must be absent or declared'')) (\<lambda>_.
      andThen (ensure (grillOneOf (de_DestructiveExternal d) [''none'', ''declared'']) (bad ''destructive_external must be none or declared'')) (\<lambda>_.
      andThen (ensure (grillOneOf (de_LocalAuthorization d) [''not_required'', ''recorded'', ''unrecorded''])
        (bad ''local_authorization must be not_required, recorded, or unrecorded'')) (\<lambda>_.
      andThen (ensure (grillOneOf (de_AdapterMode d) [''none'', ''read_only'']) (bad ''adapter_mode must be none or read_only'')) (\<lambda>_.
      andThen (ensure (grillOneOf (de_WorktreeIsolation d) [''not_applicable'', ''isolated'', ''not_isolated''])
        (bad ''worktree_isolation must be not_applicable, isolated, or not_isolated'')) (\<lambda>_.
      andThen (ensure (\<not> (de_AdapterMode d = ''none'' \<and> de_WorktreeIsolation d \<noteq> ''not_applicable''))
        (bad ''worktree_isolation must be not_applicable without an adapter'')) (\<lambda>_.
      andThen (ensure (\<not> (de_DestructiveExternal d = ''none'' \<and> de_LocalAuthorization d \<noteq> ''not_required''))
        (bad ''local_authorization must be not_required without destructive or external work'')) (\<lambda>_.
      andThen (case au_Deadline (de_Autonomy d) of None \<Rightarrow> Inr ()
        | Some s \<Rightarrow> ensure (grillTimestampPattern s \<and> timeParses s) (bad ''deadline must be a semantic UTC RFC 3339 timestamp'')) (\<lambda>_.
      (case au_AttemptCap (de_Autonomy d) of None \<Rightarrow> Inr ()
        | Some n \<Rightarrow> ensure (1 \<le> n \<and> n \<le> 100) (bad ''attempt_cap must be 1 through 100'')))))))))))))))))"

definition HashGrillInput :: "GrillInput \<Rightarrow> grill_error + string" where
  "HashGrillInput i =
     andThen (validateGrillInput i) (\<lambda>_.
     (case canonicalJSONHash (grillInputCanonicalValue i) of Inl e \<Rightarrow> Inl (ErrGrillMsg e) | Inr h \<Rightarrow> Inr h))"

subsection \<open>Rules\<close>

definition grillQuestionID :: "string \<Rightarrow> string" where
  "grillQuestionID cls = ''grill_question_'' @ cls"

definition grillRuleByClass :: "string \<Rightarrow> grillRule option" where
  "grillRuleByClass cls = find (\<lambda>r. gl_Class r = cls) grillRules"

definition grillRuleClass :: "string \<Rightarrow> string option" where
  "grillRuleClass v = map_option gl_Class (find (\<lambda>r. v = gl_Class r \<or> v = grillQuestionID (gl_Class r)) grillRules)"

definition grillRuleTriggered :: "GrillInput \<Rightarrow> string \<Rightarrow> bool" where
  "grillRuleTriggered i cls =
     (let d = gn_Declarations i in
      if cls = ''observable_outcome'' then de_ObservableOutcome d \<noteq> ''declared''
      else if cls = ''scope_compatibility'' then de_ScopeCompatibility d \<noteq> ''declared''
      else if cls = ''acceptance_evidence'' then de_AcceptanceEvidence d \<noteq> ''declared''
      else if cls = ''destructive_external_authorization''
      then de_DestructiveExternal d = ''declared'' \<and> de_LocalAuthorization d \<noteq> ''recorded''
      else if cls = ''adapter_worktree_isolation'' then de_AdapterMode d \<noteq> ''none'' \<and> de_WorktreeIsolation d \<noteq> ''isolated''
      else if cls = ''autonomy_budget'' then au_Deadline (de_Autonomy d) = None \<or> au_AttemptCap (de_Autonomy d) = None
      else False)"

definition minGrill :: "int \<Rightarrow> int list \<Rightarrow> int" where
  "minGrill v vs = (let m = foldl (\<lambda>m x. if x < m then x else m) v vs in if m < 0 then 0 else m)"

text \<open>The loops that read the existing and the waived rules, stopping at the first bad one.\<close>

fun existing_classes :: "string list \<Rightarrow> grill_error + string list" where
  "existing_classes [] = Inr []"
| "existing_classes (v # vs) =
     (case grillRuleClass v of
        None \<Rightarrow> Inl (ErrGrillInvalidInput (''unknown existing Grill rule '' @ v))
      | Some cls \<Rightarrow> andThen (existing_classes vs) (\<lambda>cs. Inr (cls # cs)))"

fun waived_classes :: "string list \<Rightarrow> grill_error + string list" where
  "waived_classes [] = Inr []"
| "waived_classes (v # vs) =
     (case grillRuleByClass v of
        None \<Rightarrow> Inl ErrGrillOverrideNotPermitted
      | Some r \<Rightarrow> if gl_Waivable r then andThen (waived_classes vs) (\<lambda>cs. Inr (v # cs)) else Inl ErrGrillOverrideNotPermitted)"

definition evaluateGrillPure :: "GrillInput \<Rightarrow> string list \<Rightarrow> int \<Rightarrow> string list \<Rightarrow> grill_error + GrillEvaluation" where
  "evaluateGrillPure i existingQuestionIDs priorQuestionCount waivedRuleClasses =
     andThen (validateGrillInput i) (\<lambda>_.
     andThen (ensure (0 \<le> priorQuestionCount) (ErrGrillInvalidInput ''prior question count must be nonnegative'')) (\<lambda>_.
     andThen (existing_classes existingQuestionIDs) (\<lambda>existing.
     andThen (waived_classes waivedRuleClasses) (\<lambda>waived.
     let result = \<lparr>ge_ProposalID = gn_ProposalID i, ge_Revision = gn_Revision i, ge_RevisionHash = gn_RevisionHash i,
           ge_RuleVersion = GrillRuleVersion, ge_InputHash = [], ge_NewQuestionIDs = [], ge_ShownQuestionIDs = [],
           ge_DeferredRuleClasses = None, ge_Status = GrillStatusNeedsRewrite, ge_NewRecords = 0\<rparr> in
     if 10 \<le> priorQuestionCount then Inr result
     else
       let active = filter (\<lambda>r. grillRuleTriggered i (gl_Class r) \<and> gl_Class r \<notin> set waived) grillRules;
           alreadyShown = filter (\<lambda>r. gl_Class r \<in> set existing) active;
           available = filter (\<lambda>r. gl_Class r \<notin> set existing) active;
           newLimit = minGrill 5 [10 - priorQuestionCount, 5 - int (length alreadyShown), int (length available)];
           newRules = take (nat newLimit) available;
           shown = order_by gl_Priority (alreadyShown @ newRules);
           deferred = filter (\<lambda>c. c \<notin> set (map gl_Class shown)) (map gl_Class active)
       in Inr (result\<lparr>ge_ShownQuestionIDs := map (\<lambda>r. grillQuestionID (gl_Class r)) shown,
            ge_NewQuestionIDs := map (\<lambda>r. grillQuestionID (gl_Class r)) newRules,
            ge_DeferredRuleClasses := (if active = [] then None else Some deferred),
            ge_Status := (if active = [] then GrillStatusClear else GrillStatusBlocked)\<rparr>)))))"

end
