(* ===== verification/Grill_Store.thy ===== *)
theory Grill_Store
  imports Grill_Rules
begin

section \<open>The Grill journal\<close>

text \<open>
  The stateful half of \<^verbatim>\<open>src/internal/store/grill.go\<close>: the two insert-only tables of schema version
  10 (\<open>migrateV10\<close> in \<^verbatim>\<open>store.go\<close>) beside the proposal tables, the evaluation that appends questions,
  the three operator actions and the listing.  Nullable columns are options.  \<open>clock\<close> gives the
  successive values of \<open>nowStamp()\<close> within one call.  Scanning a \<open>NULL\<close> into a Go string or bool is an
  error of the driver (\<open>ErrGrillMsg\<close>).
\<close>

record GrillEvaluationRow =
  gv_ProposalID :: string
  gv_Revision :: int
  gv_RevisionHash :: string
  gv_RuleVersion :: string
  gv_InputHash :: string
  gv_InputJSON :: string
  gv_CreatedAt :: stamp

record GrillRow =
  gr_ProposalID :: string
  gr_Revision :: int
  gr_RevisionHash :: string
  gr_RuleVersion :: string
  gr_RecordSequence :: int
  gr_SchemaVersion :: string
  gr_QuestionID :: "string option"
  gr_QuestionSequence :: "int option"
  gr_RuleClass :: "string option"
  gr_Risk :: "string option"
  gr_Blocking :: "bool option"
  gr_Waivable :: "bool option"
  gr_Default :: "string option"
  gr_RemedialStep :: "string option"
  gr_Answer :: "string option"
  gr_Override :: "string option"
  gr_WrittenAt :: stamp
  gr_WrittenBy :: string

record GrillDB =
  gd_proposals :: ProposalDB
  grill_evaluations :: "GrillEvaluationRow list"
  grill_records :: "GrillRow list"

definition gi_ident :: "GrillRevisionIdentity \<Rightarrow> string \<times> int \<times> string" where
  "gi_ident i = (gi_ProposalID i, gi_Revision i, gi_RevisionHash i)"

definition gr_ident :: "GrillRow \<Rightarrow> string \<times> int \<times> string" where
  "gr_ident r = (gr_ProposalID r, gr_Revision r, gr_RevisionHash r)"

definition validateGrillRevisionIdentity :: "GrillDB \<Rightarrow> GrillRevisionIdentity \<Rightarrow> grill_error + unit" where
  "validateGrillRevisionIdentity db i =
     ensure (list_ex (\<lambda>r. rv_ident r = gi_ident i) (task_proposal_revisions (gd_proposals db))) ErrGrillRevisionMismatch"

text \<open>The constraints an insert into \<open>grill_records\<close> is checked against; SQL \<open>NULL\<close>s never collide.\<close>

definition grill_insertable :: "GrillRow \<Rightarrow> GrillRow list \<Rightarrow> bool" where
  "grill_insertable n t = list_all (\<lambda>r. gr_ident r = gr_ident n \<longrightarrow>
       gr_RecordSequence r \<noteq> gr_RecordSequence n
     \<and> (gr_QuestionSequence n = None \<or> gr_QuestionSequence r \<noteq> gr_QuestionSequence n)
     \<and> \<not> (gr_RuleVersion r = gr_RuleVersion n \<and> gr_SchemaVersion r = gr_SchemaVersion n
          \<and> gr_QuestionID n \<noteq> None \<and> gr_QuestionID r = gr_QuestionID n)) t"

definition insert_grill_record :: "GrillRow \<Rightarrow> GrillDB \<Rightarrow> grill_error + GrillDB" where
  "insert_grill_record n db =
     andThen (ensure (grill_insertable n (grill_records db)) ErrGrillConstraint) (\<lambda>_.
     Inr (db\<lparr>grill_records := grill_records db @ [n]\<rparr>))"

definition record_seqs :: "string \<times> int \<times> string \<Rightarrow> GrillDB \<Rightarrow> int list" where
  "record_seqs i db = log_seqs gr_ident gr_RecordSequence i (grill_records db)"

subsection \<open>History\<close>

definition question_rows :: "string \<times> int \<times> string \<Rightarrow> GrillRow list \<Rightarrow> GrillRow list" where
  "question_rows i t = filter (\<lambda>r. gr_ident r = i \<and> gr_SchemaVersion r = GrillQuestionSchemaVersion) t"

definition scan_text :: "string option \<Rightarrow> grill_error + string" where
  "scan_text v = (case v of None \<Rightarrow> Inl (ErrGrillMsg ''converting NULL to string is unsupported'') | Some t \<Rightarrow> Inr t)"

text \<open>\<open>ORDER BY question_sequence\<close>: \<open>NULL\<close> sorts first; the numbers are positive.\<close>

definition sequence_key :: "GrillRow \<Rightarrow> int" where
  "sequence_key r = (case gr_QuestionSequence r of None \<Rightarrow> 0 | Some n \<Rightarrow> n)"

definition override_join :: "string \<times> int \<times> string \<Rightarrow> GrillRow list \<Rightarrow> (GrillRow \<times> GrillRow) list" where
  "override_join i t =
     filter (\<lambda>(v, q). gr_ident q = gr_ident v \<and> gr_RuleVersion q = gr_RuleVersion v
         \<and> gr_QuestionID v \<noteq> None \<and> gr_QuestionID q = gr_QuestionID v
         \<and> gr_ident v = i \<and> gr_RuleVersion v = GrillRuleVersion \<and> gr_SchemaVersion v = GrillOverrideSchemaVersion
         \<and> gr_SchemaVersion q = GrillQuestionSchemaVersion)
       (List.product t t)"

definition loadGrillHistory :: "GrillRevisionIdentity \<Rightarrow> GrillDB \<Rightarrow> grill_error + int \<times> string list \<times> string list" where
  "loadGrillHistory identity db =
     (let i = gi_ident identity; qs = question_rows i (grill_records db) in
      andThen (collect (map (\<lambda>r. scan_text (gr_RuleClass r))
        (order_by sequence_key (filter (\<lambda>r. gr_RuleVersion r = GrillRuleVersion) qs)))) (\<lambda>existing.
      andThen (collect (map (\<lambda>(v, q). scan_text (gr_RuleClass q))
        (order_by (\<lambda>(v, q). gr_RecordSequence v) (override_join i (grill_records db))))) (\<lambda>waived.
      Inr (int (length qs), existing, waived))))"

subsection \<open>Evaluation\<close>

definition gv_key :: "GrillEvaluationRow \<Rightarrow> string \<times> int \<times> string \<times> string \<times> string" where
  "gv_key r = (gv_ProposalID r, gv_Revision r, gv_RevisionHash r, gv_RuleVersion r, gv_InputHash r)"

text \<open>\<open>INSERT OR IGNORE\<close>, with whether a row was added.\<close>

definition insertGrillEvaluation ::
    "stamp \<Rightarrow> GrillRevisionIdentity \<Rightarrow> string \<Rightarrow> string \<Rightarrow> string \<Rightarrow> GrillDB \<Rightarrow> bool \<times> GrillDB" where
  "insertGrillEvaluation now identity ruleVersion inputHash inputJSON db =
     (let n = \<lparr>gv_ProposalID = gi_ProposalID identity, gv_Revision = gi_Revision identity,
           gv_RevisionHash = gi_RevisionHash identity, gv_RuleVersion = ruleVersion, gv_InputHash = inputHash,
           gv_InputJSON = inputJSON, gv_CreatedAt = now\<rparr> in
      if list_ex (\<lambda>r. gv_key r = gv_key n) (grill_evaluations db) then (False, db)
      else (True, db\<lparr>grill_evaluations := grill_evaluations db @ [n]\<rparr>))"

definition question_row :: "stamp \<Rightarrow> GrillRevisionIdentity \<Rightarrow> string \<Rightarrow> int \<Rightarrow> int \<Rightarrow> grillRule \<Rightarrow> GrillRow" where
  "question_row now identity ruleVersion recordSequence questionSequence rule =
     \<lparr>gr_ProposalID = gi_ProposalID identity, gr_Revision = gi_Revision identity, gr_RevisionHash = gi_RevisionHash identity,
      gr_RuleVersion = ruleVersion, gr_RecordSequence = recordSequence, gr_SchemaVersion = GrillQuestionSchemaVersion,
      gr_QuestionID = Some (grillQuestionID (gl_Class rule)), gr_QuestionSequence = Some questionSequence,
      gr_RuleClass = Some (gl_Class rule), gr_Risk = Some (gl_Risk rule), gr_Blocking = Some (gl_Blocking rule),
      gr_Waivable = Some (gl_Waivable rule), gr_Default = Some (gl_Default rule), gr_RemedialStep = Some (gl_RemedialStep rule),
      gr_Answer = None, gr_Override = None, gr_WrittenAt = now, gr_WrittenBy = deterministicGrillWriter\<rparr>"

definition insertGrillQuestion ::
    "stamp \<Rightarrow> GrillRevisionIdentity \<Rightarrow> string \<Rightarrow> int \<Rightarrow> grillRule \<Rightarrow> GrillDB \<Rightarrow> grill_error + GrillDB" where
  "insertGrillQuestion now identity ruleVersion priorQuestionCount rule db =
     insert_grill_record (question_row now identity ruleVersion (next_seq (record_seqs (gi_ident identity) db))
       (priorQuestionCount + 1) rule) db"

text \<open>The loop over the new question ids, with the number of rows added.\<close>

definition zero_rule :: grillRule where
  "zero_rule = \<lparr>gl_Priority = 0, gl_Class = [], gl_Risk = [], gl_Blocking = False, gl_Waivable = False, gl_Default = [],
     gl_RemedialStep = []\<rparr>"

definition rule_of_question :: "string \<Rightarrow> grillRule" where
  "rule_of_question q =
     (case grillRuleByClass (case grillRuleClass q of None \<Rightarrow> [] | Some c \<Rightarrow> c) of None \<Rightarrow> zero_rule | Some r \<Rightarrow> r)"

fun insert_questions ::
    "(nat \<Rightarrow> stamp) \<Rightarrow> GrillRevisionIdentity \<Rightarrow> string \<Rightarrow> int \<Rightarrow> string list \<Rightarrow> GrillDB \<Rightarrow> grill_error + GrillDB" where
  "insert_questions clock identity ruleVersion prior [] db = Inr db"
| "insert_questions clock identity ruleVersion prior (q # qs) db =
     andThen (insertGrillQuestion (clock 0) identity ruleVersion prior (rule_of_question q) db)
       (insert_questions (\<lambda>n. clock (Suc n)) identity ruleVersion (prior + 1) qs)"

definition input_identity :: "GrillInput \<Rightarrow> GrillRevisionIdentity" where
  "input_identity i = \<lparr>gi_ProposalID = gn_ProposalID i, gi_Revision = gn_Revision i, gi_RevisionHash = gn_RevisionHash i\<rparr>"

definition EvaluateGrill :: "(nat \<Rightarrow> stamp) \<Rightarrow> GrillEvaluationRequest \<Rightarrow> GrillDB \<Rightarrow> grill_error + GrillEvaluation \<times> GrillDB" where
  "EvaluateGrill clock request db =
     (let i = gq_Input request; identity = input_identity i in
      andThen (validateGrillInput i) (\<lambda>_.
      andThen (ensure (gq_RuleVersion request = GrillRuleVersion) ErrGrillRuleVersion) (\<lambda>_.
      andThen (HashGrillInput i) (\<lambda>computedHash.
      andThen (validateGrillRevisionIdentity db identity) (\<lambda>_.
      andThen (ensure (gq_InputHash request = computedHash) ErrGrillInputHashMismatch) (\<lambda>_.
      andThen (loadGrillHistory identity db) (\<lambda>(priorQuestionCount, existingRules, waivedRules).
      andThen (evaluateGrillPure i existingRules priorQuestionCount waivedRules) (\<lambda>result.
      andThen (case canonicalJSON (grillInputCanonicalValue i) of Inl e \<Rightarrow> Inl (ErrGrillMsg e) | Inr t \<Rightarrow> Inr t) (\<lambda>canonicalInput.
      let (created, db1) = insertGrillEvaluation (clock 0) identity (gq_RuleVersion request) computedHash canonicalInput db in
      andThen (insert_questions (\<lambda>n. clock (Suc n)) identity (gq_RuleVersion request) priorQuestionCount
        (ge_NewQuestionIDs result) db1) (\<lambda>db2.
      Inr (result\<lparr>ge_InputHash := computedHash,
             ge_NewRecords := (if created then 1 else 0) + int (length (ge_NewQuestionIDs result))\<rparr>, db2)))))))))))"

subsection \<open>Operator actions\<close>

definition nullableGrillDefault :: "string \<Rightarrow> string \<Rightarrow> string option" where
  "nullableGrillDefault schemaVersion v = (if schemaVersion = GrillDefaultSchemaVersion then Some v else None)"

definition action_row :: "stamp \<Rightarrow> GrillRevisionIdentity \<Rightarrow> string \<Rightarrow> int \<Rightarrow> string \<Rightarrow> string \<Rightarrow> string \<Rightarrow> GrillRow" where
  "action_row now identity ruleVersion recordSequence schemaVersion questionID defaultValue =
     \<lparr>gr_ProposalID = gi_ProposalID identity, gr_Revision = gi_Revision identity, gr_RevisionHash = gi_RevisionHash identity,
      gr_RuleVersion = ruleVersion, gr_RecordSequence = recordSequence, gr_SchemaVersion = schemaVersion,
      gr_QuestionID = Some questionID, gr_QuestionSequence = None, gr_RuleClass = None, gr_Risk = None, gr_Blocking = None,
      gr_Waivable = None, gr_Default = nullableGrillDefault schemaVersion defaultValue, gr_RemedialStep = None,
      gr_Answer = (if schemaVersion = GrillAnswerSchemaVersion then Some ''acknowledged'' else None),
      gr_Override = (if schemaVersion = GrillOverrideSchemaVersion then Some ''waived'' else None),
      gr_WrittenAt = now,
      gr_WrittenBy = (if schemaVersion = GrillDefaultSchemaVersion then deterministicGrillWriter else localGUIOperator)\<rparr>"

definition find_question :: "string \<times> int \<times> string \<Rightarrow> string \<Rightarrow> GrillRow list \<Rightarrow> GrillRow option" where
  "find_question i questionID t = find (\<lambda>r. gr_QuestionID r = Some questionID) (question_rows i t)"

text \<open>The scanned columns of a question: rule version, class, waivable and default.\<close>

definition scan_question :: "GrillRow \<Rightarrow> grill_error + string \<times> bool \<times> string" where
  "scan_question q =
     andThen (scan_text (gr_RuleClass q)) (\<lambda>_.
     (case gr_Waivable q of
        None \<Rightarrow> Inl (ErrGrillMsg ''converting NULL to bool is unsupported'')
      | Some w \<Rightarrow> andThen (scan_text (gr_Default q)) (\<lambda>d. Inr (gr_RuleVersion q, w, d))))"

definition recordGrillOperatorAction ::
    "stamp \<Rightarrow> GrillRevisionIdentity \<Rightarrow> string \<Rightarrow> string \<Rightarrow> GrillDB \<Rightarrow> grill_error + bool \<times> GrillDB" where
  "recordGrillOperatorAction now identity questionID schemaVersion db =
     (let i = gi_ident identity in
      andThen (validateGrillRevisionIdentity db identity) (\<lambda>_.
      andThen (require ErrGrillQuestionNotFound (find_question i questionID (grill_records db))) (\<lambda>q.
      andThen (scan_question q) (\<lambda>(ruleVersion, waivable, defaultValue).
      andThen (ensure (\<not> (schemaVersion = GrillOverrideSchemaVersion \<and> \<not> waivable)) ErrGrillOverrideNotPermitted) (\<lambda>_.
      andThen (ensure (schemaVersion = GrillDefaultSchemaVersion \<or> schemaVersion = GrillAnswerSchemaVersion
          \<or> schemaVersion = GrillOverrideSchemaVersion) (ErrGrillMsg (''unsupported Grill record schema '' @ schemaVersion))) (\<lambda>_.
      if list_ex (\<lambda>r. gr_ident r = i \<and> gr_RuleVersion r = ruleVersion \<and> gr_SchemaVersion r = schemaVersion
          \<and> gr_QuestionID r = Some questionID) (grill_records db)
      then Inr (False, db)
      else andThen (insert_grill_record (action_row now identity ruleVersion (next_seq (record_seqs i db)) schemaVersion
          questionID defaultValue) db) (\<lambda>db. Inr (True, db))))))))"

definition RecordGrillDefault :: "stamp \<Rightarrow> GrillRevisionIdentity \<Rightarrow> string \<Rightarrow> GrillDB \<Rightarrow> grill_error + bool \<times> GrillDB" where
  "RecordGrillDefault now identity questionID db = recordGrillOperatorAction now identity questionID GrillDefaultSchemaVersion db"

definition RecordGrillAnswer :: "stamp \<Rightarrow> GrillRevisionIdentity \<Rightarrow> string \<Rightarrow> GrillDB \<Rightarrow> grill_error + bool \<times> GrillDB" where
  "RecordGrillAnswer now identity questionID db = recordGrillOperatorAction now identity questionID GrillAnswerSchemaVersion db"

definition RecordGrillOverride :: "stamp \<Rightarrow> GrillRevisionIdentity \<Rightarrow> string \<Rightarrow> GrillDB \<Rightarrow> grill_error + bool \<times> GrillDB" where
  "RecordGrillOverride now identity questionID db = recordGrillOperatorAction now identity questionID GrillOverrideSchemaVersion db"

subsection \<open>Listing\<close>

text \<open>The Go struct of a record: fields that are \<open>NULL\<close> read as zero values.\<close>

record GrillRecord =
  go_ProposalID :: string
  go_Revision :: int
  go_RevisionHash :: string
  go_RuleVersion :: string
  go_RecordSequence :: int
  go_SchemaVersion :: string
  go_QuestionID :: string
  go_QuestionSequence :: int
  go_RuleClass :: string
  go_Risk :: string
  go_Blocking :: bool
  go_Waivable :: bool
  go_Default :: string
  go_RemedialStep :: string
  go_Answer :: string
  go_Override :: string
  go_WrittenAt :: stamp
  go_WrittenBy :: string

definition null_string :: "string option \<Rightarrow> string" where
  "null_string v = (case v of None \<Rightarrow> [] | Some t \<Rightarrow> t)"

definition null_bool :: "bool option \<Rightarrow> bool" where
  "null_bool v = (v = Some True)"

definition scan_record :: "GrillRow \<Rightarrow> GrillRecord" where
  "scan_record r =
     \<lparr>go_ProposalID = gr_ProposalID r, go_Revision = gr_Revision r, go_RevisionHash = gr_RevisionHash r,
      go_RuleVersion = gr_RuleVersion r, go_RecordSequence = gr_RecordSequence r, go_SchemaVersion = gr_SchemaVersion r,
      go_QuestionID = null_string (gr_QuestionID r), go_QuestionSequence = (case gr_QuestionSequence r of None \<Rightarrow> 0 | Some n \<Rightarrow> n),
      go_RuleClass = null_string (gr_RuleClass r), go_Risk = null_string (gr_Risk r), go_Blocking = null_bool (gr_Blocking r),
      go_Waivable = null_bool (gr_Waivable r), go_Default = null_string (gr_Default r),
      go_RemedialStep = null_string (gr_RemedialStep r), go_Answer = null_string (gr_Answer r),
      go_Override = null_string (gr_Override r), go_WrittenAt = gr_WrittenAt r, go_WrittenBy = gr_WrittenBy r\<rparr>"

definition ListGrillRecords :: "GrillRevisionIdentity \<Rightarrow> GrillDB \<Rightarrow> GrillRecord list" where
  "ListGrillRecords identity db =
     map scan_record (order_by gr_RecordSequence (filter (\<lambda>r. gr_ident r = gi_ident identity) (grill_records db)))"

end
