(* ===== verification/Grill_Invariants.thy ===== *)
theory Grill_Invariants
  imports Grill_Store Proposal_Facts
begin

section \<open>The invariant of the Grill journal\<close>

text \<open>
  The step relation of the Grill operations interleaved with the proposal mutations, and what every
  reachable journal satisfies: record numbers and question numbers without gaps, each question row the
  image of a rule and each rule asked at most once, each action row about an asked question, overrides
  only of the waivable rule, and every identity that of a stored revision.
\<close>

interpretation grill_log: seq_log gr_ident gr_RecordSequence 1
  by unfold_locales simp

definition emptyGrill :: GrillDB where
  "emptyGrill = \<lparr>gd_proposals = emptyProposals, grill_evaluations = [], grill_records = []\<rparr>"

inductive grill_step :: "GrillDB \<Rightarrow> GrillDB \<Rightarrow> bool" where
  proposal: "proposal_step (gd_proposals db) p \<Longrightarrow> grill_step db (db\<lparr>gd_proposals := p\<rparr>)"
| evaluate: "EvaluateGrill clock request db = Inr (res, db') \<Longrightarrow> grill_step db db'"
| act: "recordGrillOperatorAction now identity questionID schemaVersion db = Inr (new, db') \<Longrightarrow> grill_step db db'"

abbreviation grill_reachable :: "GrillDB \<Rightarrow> bool" where
  "grill_reachable db \<equiv> grill_step\<^sup>*\<^sup>* emptyGrill db"

subsection \<open>Facts on the rule table\<close>

lemma grill_rules_table:
  "distinct (map gl_Class grillRules)" "length grillRules = 6" "sorted (map gl_Priority grillRules)"
  "distinct (map gl_Priority grillRules)"
  "list_all (\<lambda>r. grillRuleByClass (gl_Class r) = Some r) grillRules"
  "list_all (\<lambda>r. grillRuleClass (gl_Class r) = Some (gl_Class r)) grillRules"
  "list_all (\<lambda>r. grillRuleClass (grillQuestionID (gl_Class r)) = Some (gl_Class r)) grillRules"
  "list_all (\<lambda>r. gl_Waivable r = (gl_Class r = ''scope_compatibility'')) grillRules"
  by code_simp+

lemma rule_lookup:
  assumes "r \<in> set grillRules"
  shows "grillRuleByClass (gl_Class r) = Some r" "grillRuleClass (gl_Class r) = Some (gl_Class r)"
    "grillRuleClass (grillQuestionID (gl_Class r)) = Some (gl_Class r)" "gl_Waivable r = (gl_Class r = ''scope_compatibility'')"
  using grill_rules_table assms by (simp_all add: list_all_iff)

lemma rule_of_question: "r \<in> set grillRules \<Longrightarrow> rule_of_question (grillQuestionID (gl_Class r)) = r"
  by (simp add: rule_of_question_def rule_lookup)

lemma question_id_inject [simp]: "grillQuestionID a = grillQuestionID b \<longleftrightarrow> a = b"
  by (simp add: grillQuestionID_def)

lemma rule_class_inject: "r \<in> set grillRules \<Longrightarrow> s \<in> set grillRules \<Longrightarrow> gl_Class r = gl_Class s \<Longrightarrow> r = s"
  by (metis option.inject rule_lookup(1))

lemma schema_versions:
  "GrillQuestionSchemaVersion \<noteq> GrillDefaultSchemaVersion" "GrillQuestionSchemaVersion \<noteq> GrillAnswerSchemaVersion"
  "GrillQuestionSchemaVersion \<noteq> GrillOverrideSchemaVersion" "GrillDefaultSchemaVersion \<noteq> GrillAnswerSchemaVersion"
  "GrillDefaultSchemaVersion \<noteq> GrillOverrideSchemaVersion" "GrillAnswerSchemaVersion \<noteq> GrillOverrideSchemaVersion"
  by code_simp+

lemmas schema_neq [simp] = schema_versions schema_versions [symmetric]

subsection \<open>Definition\<close>

text \<open>A row is the question of a rule, or an action on a question asked for the same revision.\<close>

definition question_ok :: "GrillRow \<Rightarrow> bool" where
  "question_ok r \<longleftrightarrow> gr_RuleVersion r = GrillRuleVersion \<and>
     (\<exists>rule \<in> set grillRules. gr_QuestionID r = Some (grillQuestionID (gl_Class rule)) \<and> gr_RuleClass r = Some (gl_Class rule)
        \<and> gr_Waivable r = Some (gl_Waivable rule) \<and> gr_Default r = Some (gl_Default rule)) \<and> gr_QuestionSequence r \<noteq> None"

definition action_ok :: "GrillRow list \<Rightarrow> GrillRow \<Rightarrow> bool" where
  "action_ok t r \<longleftrightarrow> gr_QuestionSequence r = None \<and> gr_RuleVersion r = GrillRuleVersion
     \<and> gr_SchemaVersion r \<in> {GrillDefaultSchemaVersion, GrillAnswerSchemaVersion, GrillOverrideSchemaVersion}
     \<and> (\<exists>q \<in> set (question_rows (gr_ident r) t). gr_QuestionID r = gr_QuestionID q
          \<and> (gr_SchemaVersion r = GrillOverrideSchemaVersion \<longrightarrow> gr_Waivable q = Some True))"

definition row_ok :: "GrillRow list \<Rightarrow> GrillRow \<Rightarrow> bool" where
  "row_ok t r \<longleftrightarrow> (if gr_SchemaVersion r = GrillQuestionSchemaVersion then question_ok r else action_ok t r)"

definition grill_key :: "GrillRow \<Rightarrow> (string \<times> int \<times> string) \<times> string \<times> string option" where
  "grill_key r = (gr_ident r, gr_SchemaVersion r, gr_QuestionID r)"

definition records_ok :: "GrillRow list \<Rightarrow> bool" where
  "records_ok t \<longleftrightarrow>
     (\<forall>k. gapless 1 (log_seqs gr_ident gr_RecordSequence k t))
   \<and> (\<forall>k. gapless 1 (map sequence_key (question_rows k t)))
   \<and> list_all (row_ok t) t \<and> distinct (map grill_key t)"

definition grill_inv :: "GrillDB \<Rightarrow> bool" where
  "grill_inv db \<longleftrightarrow> proposal_inv (gd_proposals db) \<and> records_ok (grill_records db)
     \<and> gr_ident ` set (grill_records db) \<subseteq> rv_ident ` set (task_proposal_revisions (gd_proposals db))
     \<and> distinct (map gv_key (grill_evaluations db))"

lemma grill_inv_empty: "grill_inv emptyGrill"
  by (simp add: grill_inv_def emptyGrill_def proposal_inv_empty records_ok_def log_seqs_def question_rows_def)

lemma records_okD:
  assumes "records_ok t"
  shows "gapless 1 (log_seqs gr_ident gr_RecordSequence k t)" "gapless 1 (map sequence_key (question_rows k t))"
    "r \<in> set t \<Longrightarrow> row_ok t r" "distinct (map grill_key t)"
  using assms [unfolded records_ok_def, THEN conjunct1, THEN spec]
    assms [unfolded records_ok_def, THEN conjunct2, THEN conjunct1, THEN spec] assms
  by (simp_all add: records_ok_def list_all_iff)

lemma question_rows_ok:
  assumes "records_ok t" "q \<in> set (question_rows k t)"
  shows "question_ok q" "q \<in> set t" "gr_ident q = k" "gr_SchemaVersion q = GrillQuestionSchemaVersion"
  using assms by (auto simp: question_rows_def records_ok_def list_all_iff row_ok_def)

lemma row_ok_mono: "row_ok t r \<Longrightarrow> set t \<subseteq> set u \<Longrightarrow> row_ok u r"
  by (auto simp: row_ok_def action_ok_def question_rows_def split: if_splits)

text \<open>Each rule is asked at most once, so a revision has at most six questions.\<close>

lemma distinct_question_ids:
  assumes "records_ok t"
  shows "distinct (map gr_QuestionID (question_rows k t))"
proof -
  have "distinct (map grill_key (question_rows k t))"
    using records_okD(4) [OF assms] by (simp add: question_rows_def distinct_map_filter)
  moreover have "map grill_key (question_rows k t) = map (\<lambda>q. (k, GrillQuestionSchemaVersion, q)) (map gr_QuestionID (question_rows k t))"
    by (auto simp: question_rows_def grill_key_def)
  ultimately show ?thesis by (metis distinct_map)
qed

lemma question_ids_of_rules:
  assumes "records_ok t" "q \<in> set (question_rows k t)"
  shows "gr_QuestionID q \<in> set (map (\<lambda>r. Some (grillQuestionID (gl_Class r))) grillRules)"
  using question_rows_ok(1) [OF assms] by (auto simp: question_ok_def)

lemma question_count:
  assumes "records_ok t"
  shows "length (question_rows k t) \<le> 6"
proof -
  have "set (map gr_QuestionID (question_rows k t)) \<subseteq> set (map (\<lambda>r. Some (grillQuestionID (gl_Class r))) grillRules)"
    using question_ids_of_rules [OF assms, of _ k] by auto
  then have "card (set (map gr_QuestionID (question_rows k t))) \<le> card (set (map (\<lambda>r. Some (grillQuestionID (gl_Class r))) grillRules))"
    by (intro card_mono) simp_all
  also have "\<dots> \<le> length grillRules" using card_length by (metis length_map)
  finally show ?thesis
    using distinct_card [OF distinct_question_ids [OF assms, of k]] grill_rules_table(2) by simp
qed

subsection \<open>Inserting a row\<close>

lemma question_rows_snoc:
  "question_rows k (t @ [n]) = question_rows k t @
     (if gr_ident n = k \<and> gr_SchemaVersion n = GrillQuestionSchemaVersion then [n] else [])"
  by (simp add: question_rows_def)

lemma records_ok_snoc:
  assumes ok: "records_ok t" and seq: "gr_RecordSequence n = next_seq (log_seqs gr_ident gr_RecordSequence (gr_ident n) t)"
    and row: "row_ok (t @ [n]) n" and key: "grill_key n \<notin> grill_key ` set t"
    and num: "gr_SchemaVersion n = GrillQuestionSchemaVersion \<Longrightarrow> sequence_key n = 1 + int (length (question_rows (gr_ident n) t))"
  shows "records_ok (t @ [n])"
proof -
  have "gapless 1 (log_seqs gr_ident gr_RecordSequence k (t @ [n]))" for k
    by (rule grill_log.log_append) (use records_okD(1) [OF ok] seq in simp_all)
  moreover have "gapless 1 (map sequence_key (question_rows k (t @ [n])))" for k
    using records_okD(2) [OF ok, of k] num by (auto simp: question_rows_snoc gapless_snoc)
  moreover have "list_all (row_ok (t @ [n])) (t @ [n])"
    using records_okD(3) [OF ok] row row_ok_mono [of t _ "t @ [n]"] by (auto simp: list_all_iff)
  moreover have "distinct (map grill_key (t @ [n]))" using records_okD(4) [OF ok] key by simp
  ultimately show ?thesis unfolding records_ok_def by blast
qed

lemma row_versions:
  assumes "records_ok t" "r \<in> set t"
  shows "gr_RuleVersion r = GrillRuleVersion"
  using records_okD(3) [OF assms] by (auto simp: row_ok_def question_ok_def action_ok_def split: if_splits)

lemma insertable_iff:
  assumes ok: "records_ok t" and seq: "gr_RecordSequence n = next_seq (log_seqs gr_ident gr_RecordSequence (gr_ident n) t)"
    and num: "gr_QuestionSequence n \<noteq> None \<Longrightarrow> gr_QuestionSequence n = Some (1 + int (length (question_rows (gr_ident n) t)))"
    and ver: "gr_RuleVersion n = GrillRuleVersion" and qid: "gr_QuestionID n \<noteq> None"
  shows "grill_insertable n t \<longleftrightarrow> grill_key n \<notin> grill_key ` set t"
proof -
  have fresh_seq: "gr_RecordSequence r \<noteq> gr_RecordSequence n" if "r \<in> set t" "gr_ident r = gr_ident n" for r
  proof -
    have "gapless 1 (log_seqs gr_ident gr_RecordSequence (gr_ident n) t @ [gr_RecordSequence n])"
      using next_seq_gapless_one [OF records_okD(1) [OF ok]] seq by simp
    then have "gr_RecordSequence n \<notin> set (log_seqs gr_ident gr_RecordSequence (gr_ident n) t)"
      using gapless_distinct by fastforce
    moreover have "gr_RecordSequence r \<in> set (log_seqs gr_ident gr_RecordSequence (gr_ident n) t)"
      using that by (auto simp: log_seqs_def)
    ultimately show ?thesis by metis
  qed
  have fresh_num: "gr_QuestionSequence r \<noteq> gr_QuestionSequence n"
    if r: "r \<in> set t" "gr_ident r = gr_ident n" and n: "gr_QuestionSequence n \<noteq> None" for r
  proof (cases "gr_SchemaVersion r = GrillQuestionSchemaVersion")
    case True
    then have "r \<in> set (question_rows (gr_ident n) t)" using r by (simp add: question_rows_def)
    then have "sequence_key r \<in> set (map sequence_key (question_rows (gr_ident n) t))" by simp
    then have "sequence_key r \<le> int (length (question_rows (gr_ident n) t))"
      using records_okD(2) [OF ok, of "gr_ident n"] by (auto simp: in_set_conv_nth gapless_def simp del: set_map)
    then show ?thesis using num [OF n] by (auto simp: sequence_key_def)
  next
    case False
    then show ?thesis using records_okD(3) [OF ok r(1)] n by (auto simp: row_ok_def action_ok_def)
  qed
  show ?thesis
    using fresh_seq fresh_num ver qid row_versions [OF ok]
    by (auto simp: grill_insertable_def list_all_iff grill_key_def image_iff)
qed

end
