(* ===== verification/Grill_Steps.thy ===== *)
theory Grill_Steps
  imports Grill_Invariants
begin

section \<open>The Grill operations on the invariant\<close>

text \<open>
  What the history query returns, what the evaluator computes from it, and that the operations keep
  the invariant and never hit a constraint.
\<close>

subsection \<open>History\<close>

lemma collect_scan:
  "(\<And>x. x \<in> set xs \<Longrightarrow> f x \<noteq> None) \<Longrightarrow> collect (map (\<lambda>x. scan_text (f x)) xs) = Inr (map (\<lambda>x. the (f x)) xs)"
proof (induction xs)
  case (Cons a xs)
  moreover have "scan_text (f a) = Inr (the (f a))" using Cons.prems [of a] by (auto simp: scan_text_def)
  ultimately show ?case by simp
qed simp

definition asked :: "string \<times> int \<times> string \<Rightarrow> GrillRow list \<Rightarrow> string set" where
  "asked i t = {c. \<exists>q \<in> set (question_rows i t). gr_RuleClass q = Some c}"

text \<open>Whether the waivable rule was waived.\<close>

definition scope_waived :: "string \<times> int \<times> string \<Rightarrow> GrillRow list \<Rightarrow> bool" where
  "scope_waived i t \<longleftrightarrow> (\<exists>v \<in> set t. gr_ident v = i \<and> gr_SchemaVersion v = GrillOverrideSchemaVersion)"

lemma asked_rule:
  assumes "records_ok t" "q \<in> set (question_rows i t)"
  obtains r where "r \<in> set grillRules" "gr_RuleClass q = Some (gl_Class r)" "gr_QuestionID q = Some (grillQuestionID (gl_Class r))"
  using question_rows_ok(1) [OF assms] by (auto simp: question_ok_def)

lemma asked_rules: "records_ok t \<Longrightarrow> asked i t \<subseteq> gl_Class ` set grillRules"
  unfolding asked_def by (auto elim!: asked_rule)

lemma asked_iff:
  assumes "records_ok t"
  shows "c \<in> asked i t \<longleftrightarrow> Some (grillQuestionID c) \<in> gr_QuestionID ` set (question_rows i t)"
proof
  assume "c \<in> asked i t"
  then obtain q where q: "q \<in> set (question_rows i t)" "gr_RuleClass q = Some c" by (auto simp: asked_def)
  then have "gr_QuestionID q = Some (grillQuestionID c)" by (metis asked_rule [OF assms q(1)] option.inject)
  with q(1) show "Some (grillQuestionID c) \<in> gr_QuestionID ` set (question_rows i t)" by (metis imageI)
next
  assume "Some (grillQuestionID c) \<in> gr_QuestionID ` set (question_rows i t)"
  then obtain q where q: "q \<in> set (question_rows i t)" "gr_QuestionID q = Some (grillQuestionID c)" by auto
  then have "gr_RuleClass q = Some c" by (metis asked_rule [OF assms q(1)] option.inject question_id_inject)
  with q(1) show "c \<in> asked i t" by (auto simp: asked_def)
qed

lemma override_class:
  assumes ok: "records_ok t" and j: "(v, q) \<in> set (override_join i t)"
  shows "gr_RuleClass q = Some ''scope_compatibility''" "v \<in> set t" "gr_ident v = i" "gr_SchemaVersion v = GrillOverrideSchemaVersion"
proof -
  have v: "v \<in> set t" "gr_ident v = i" "gr_SchemaVersion v = GrillOverrideSchemaVersion" and id: "gr_QuestionID q = gr_QuestionID v"
    and q: "q \<in> set (question_rows i t)"
    using j by (auto simp: override_join_def question_rows_def)
  obtain p where p: "p \<in> set (question_rows i t)" "gr_QuestionID v = gr_QuestionID p" "gr_Waivable p = Some True"
    using records_okD(3) [OF ok v(1)] v(2,3) by (auto simp: row_ok_def action_ok_def)
  have "p = q" using distinct_question_ids [OF ok, of i] p(1,2) q id unfolding distinct_map by (metis inj_onD)
  then obtain r where "r \<in> set grillRules" "gr_RuleClass q = Some (gl_Class r)" "gl_Waivable r"
    using question_rows_ok(1) [OF ok q] p(3) by (auto simp: question_ok_def)
  then show "gr_RuleClass q = Some ''scope_compatibility''" using rule_lookup(4) by auto
  show "v \<in> set t" "gr_ident v = i" "gr_SchemaVersion v = GrillOverrideSchemaVersion" using v by simp_all
qed

lemma override_joined:
  assumes ok: "records_ok t" and v: "v \<in> set t" "gr_ident v = i" "gr_SchemaVersion v = GrillOverrideSchemaVersion"
  shows "\<exists>q. (v, q) \<in> set (override_join i t)"
proof -
  obtain p where p: "p \<in> set (question_rows i t)" "gr_QuestionID v = gr_QuestionID p"
    using records_okD(3) [OF ok v(1)] v(2,3) by (auto simp: row_ok_def action_ok_def)
  moreover have "gr_RuleVersion p = GrillRuleVersion" "gr_RuleVersion v = GrillRuleVersion" "gr_QuestionID p \<noteq> None"
    using question_rows_ok(1,2) [OF ok p(1)] row_versions [OF ok] v(1) by (auto simp: question_ok_def)
  ultimately have "(v, p) \<in> set (override_join i t)"
    using v by (auto simp: override_join_def question_rows_def)
  then show ?thesis by blast
qed

lemma set_map_const: "xs \<noteq> [] \<Longrightarrow> (\<And>x. x \<in> set xs \<Longrightarrow> f x = c) \<Longrightarrow> set (map f xs) = {c}"
  by (cases xs) auto

lemma loadGrillHistory_exact:
  assumes ok: "records_ok (grill_records db)"
  obtains existing waived where
    "loadGrillHistory identity db = Inr (int (length (question_rows (gi_ident identity) (grill_records db))), existing, waived)"
    "set existing = asked (gi_ident identity) (grill_records db)"
    "set waived = (if scope_waived (gi_ident identity) (grill_records db) then {''scope_compatibility''} else {})"
proof -
  let ?i = "gi_ident identity" and ?t = "grill_records db"
  let ?qs = "question_rows ?i ?t"
  let ?es = "order_by sequence_key (filter (\<lambda>r. gr_RuleVersion r = GrillRuleVersion) ?qs)"
  let ?ws = "order_by (\<lambda>(v, q). gr_RecordSequence v) (override_join ?i ?t)"
  have all: "filter (\<lambda>r. gr_RuleVersion r = GrillRuleVersion) ?qs = ?qs"
    using question_rows_ok(2) [OF ok, of _ ?i] row_versions [OF ok] by (simp add: filter_id_conv)
  have e: "gr_RuleClass r \<noteq> None" if "r \<in> set ?es" for r
    using that question_rows_ok(1) [OF ok, of _ ?i] by (auto simp: all question_ok_def)
  have w: "gr_RuleClass (snd x) = Some ''scope_compatibility''" if "x \<in> set ?ws" for x
    using that override_class(1) [OF ok, of "fst x" "snd x"] by simp
  have "collect (map (\<lambda>x. scan_text (gr_RuleClass (snd x))) ?ws) = Inr (map (\<lambda>x. the (gr_RuleClass (snd x))) ?ws)"
    using w by (intro collect_scan) auto
  then have load: "loadGrillHistory identity db =
      Inr (int (length ?qs), map (\<lambda>r. the (gr_RuleClass r)) ?es, map (\<lambda>x. the (gr_RuleClass (snd x))) ?ws)"
    using collect_scan [of ?es gr_RuleClass] e by (simp add: loadGrillHistory_def Let_def case_prod_unfold)
  have "set (map (\<lambda>r. the (gr_RuleClass r)) ?es) = asked ?i ?t"
    using e by (force simp: asked_def all)
  moreover have "set (map (\<lambda>x. the (gr_RuleClass (snd x))) ?ws) = (if scope_waived ?i ?t then {''scope_compatibility''} else {})"
  proof (cases "scope_waived ?i ?t")
    case True
    then obtain v q where "(v, q) \<in> set (override_join ?i ?t)" unfolding scope_waived_def by (blast dest: override_joined [OF ok])
    then have "?ws \<noteq> []" by (metis empty_iff empty_set set_order_by)
    then have "set (map (\<lambda>x. the (gr_RuleClass (snd x))) ?ws) = {''scope_compatibility''}"
      by (rule set_map_const) (simp only: w option.sel)
    then show ?thesis using True by simp
  next
    case False
    then have "override_join ?i ?t = []"
      using override_class(2-4) [OF ok] by (metis scope_waived_def last_in_set surj_pair)
    then show ?thesis using False by (simp add: order_by_def)
  qed
  ultimately show ?thesis using that load by blast
qed

subsection \<open>The evaluator\<close>

definition activeRules :: "GrillInput \<Rightarrow> string set \<Rightarrow> grillRule list" where
  "activeRules i waived = filter (\<lambda>r. grillRuleTriggered i (gl_Class r) \<and> gl_Class r \<notin> waived) grillRules"

definition newRules :: "string set \<Rightarrow> int \<Rightarrow> grillRule list \<Rightarrow> grillRule list" where
  "newRules existing prior active =
     take (nat (minGrill 5 [10 - prior, 5 - int (length (filter (\<lambda>r. gl_Class r \<in> existing) active)),
         int (length (filter (\<lambda>r. gl_Class r \<notin> existing) active))]))
       (filter (\<lambda>r. gl_Class r \<notin> existing) active)"

definition shownRules :: "string set \<Rightarrow> int \<Rightarrow> grillRule list \<Rightarrow> grillRule list" where
  "shownRules existing prior active =
     order_by gl_Priority (filter (\<lambda>r. gl_Class r \<in> existing) active @ newRules existing prior active)"

definition outcome :: "GrillInput \<Rightarrow> string set \<Rightarrow> int \<Rightarrow> grillRule list \<Rightarrow> GrillEvaluation" where
  "outcome i existing prior active =
     \<lparr>ge_ProposalID = gn_ProposalID i, ge_Revision = gn_Revision i, ge_RevisionHash = gn_RevisionHash i,
      ge_RuleVersion = GrillRuleVersion, ge_InputHash = [],
      ge_NewQuestionIDs = map (\<lambda>r. grillQuestionID (gl_Class r)) (newRules existing prior active),
      ge_ShownQuestionIDs = map (\<lambda>r. grillQuestionID (gl_Class r)) (shownRules existing prior active),
      ge_DeferredRuleClasses = (if active = [] then None
        else Some (filter (\<lambda>c. c \<notin> gl_Class ` set (shownRules existing prior active)) (map gl_Class active))),
      ge_Status = (if active = [] then GrillStatusClear else GrillStatusBlocked), ge_NewRecords = 0\<rparr>"

lemma existing_classes_ok: "set cs \<subseteq> gl_Class ` set grillRules \<Longrightarrow> existing_classes cs = Inr cs"
  by (induction cs) (auto simp: rule_lookup)

lemma scope_rule: "case grillRuleByClass ''scope_compatibility'' of None \<Rightarrow> False | Some r \<Rightarrow> gl_Waivable r"
  by code_simp

lemma waived_classes_ok: "set cs \<subseteq> {''scope_compatibility''} \<Longrightarrow> waived_classes cs = Inr cs"
  using scope_rule by (induction cs) (auto split: option.splits)

lemma evaluateGrillPure_ok:
  assumes "validateGrillInput i = Inr ()" "0 \<le> prior" "prior < 10"
    and "set existing \<subseteq> gl_Class ` set grillRules" "set waived \<subseteq> {''scope_compatibility''}"
  shows "evaluateGrillPure i existing prior waived = Inr (outcome i (set existing) prior (activeRules i (set waived)))"
  using assms
  by (simp add: evaluateGrillPure_def existing_classes_ok waived_classes_ok outcome_def activeRules_def newRules_def
      shownRules_def Let_def)

lemma minGrill_three: "minGrill 5 [a, b, c] = max 0 (min 5 (min a (min b c)))"
  by (simp add: minGrill_def)

lemma activeRules_sub: "set (activeRules i waived) \<subseteq> set grillRules" "distinct (map gl_Class (activeRules i waived))"
  using grill_rules_table(1) by (auto simp: activeRules_def distinct_map_filter)

lemma newRules_props:
  assumes "distinct (map gl_Class active)"
  shows "set (newRules existing prior active) \<subseteq> {r \<in> set active. gl_Class r \<notin> existing}"
    "distinct (map gl_Class (newRules existing prior active))" "length (newRules existing prior active) \<le> 5"
    "length (newRules existing prior active) \<le> nat (10 - prior)"
    "set (shownRules existing prior active) = {r \<in> set active. gl_Class r \<in> existing} \<union> set (newRules existing prior active)"
  using assms
  by (auto simp: newRules_def shownRules_def minGrill_three distinct_map_filter dest: in_set_takeD
      intro: distinct_take simp flip: take_map)

subsection \<open>Appending questions\<close>

lemma question_row_cols [simp]:
  "gr_ident (question_row now identity v s n rule) = gi_ident identity"
  "gr_SchemaVersion (question_row now identity v s n rule) = GrillQuestionSchemaVersion"
  "gr_QuestionID (question_row now identity v s n rule) = Some (grillQuestionID (gl_Class rule))"
  "gr_QuestionSequence (question_row now identity v s n rule) = Some n"
  "gr_RecordSequence (question_row now identity v s n rule) = s" "gr_RuleVersion (question_row now identity v s n rule) = v"
  "sequence_key (question_row now identity v s n rule) = n"
  "rule \<in> set grillRules \<Longrightarrow> v = GrillRuleVersion \<Longrightarrow> row_ok t (question_row now identity v s n rule)"
  by (auto simp: question_row_def gr_ident_def gi_ident_def sequence_key_def row_ok_def question_ok_def)

lemma insertGrillQuestion_ok:
  assumes ok: "records_ok (grill_records db)" and rule: "rule \<in> set grillRules"
    and prior: "prior = int (length (question_rows (gi_ident identity) (grill_records db)))"
    and fresh: "gl_Class rule \<notin> asked (gi_ident identity) (grill_records db)"
  obtains n where "insertGrillQuestion now identity GrillRuleVersion prior rule db = Inr (db\<lparr>grill_records := grill_records db @ [n]\<rparr>)"
    "records_ok (grill_records db @ [n])" "gr_ident n = gi_ident identity" "gr_SchemaVersion n = GrillQuestionSchemaVersion"
    "gr_RuleClass n = Some (gl_Class rule)"
proof -
  define n where "n = question_row now identity GrillRuleVersion (next_seq (record_seqs (gi_ident identity) db)) (prior + 1) rule"
  have key: "grill_key n \<notin> grill_key ` set (grill_records db)"
    using fresh asked_iff [OF ok] by (fastforce simp: n_def grill_key_def question_rows_def image_iff)
  have seq: "gr_RecordSequence n = next_seq (log_seqs gr_ident gr_RecordSequence (gr_ident n) (grill_records db))"
    by (simp add: n_def record_seqs_def)
  have "grill_insertable n (grill_records db)"
    by (subst insertable_iff [OF ok seq]) (use key prior in \<open>simp_all add: n_def\<close>)
  then have "insertGrillQuestion now identity GrillRuleVersion prior rule db = Inr (db\<lparr>grill_records := grill_records db @ [n]\<rparr>)"
    by (simp add: insertGrillQuestion_def insert_grill_record_def n_def [symmetric])
  moreover have "records_ok (grill_records db @ [n])"
    by (rule records_ok_snoc [OF ok seq _ key]) (use rule prior in \<open>simp_all add: n_def\<close>)
  moreover have "gr_RuleClass n = Some (gl_Class rule)" by (simp add: n_def question_row_def)
  ultimately show ?thesis using that [of n] by (simp add: n_def)
qed

lemma asked_snoc:
  assumes "gr_ident n = i" "gr_SchemaVersion n = GrillQuestionSchemaVersion" "gr_RuleClass n = Some c"
  shows "asked i (t @ [n]) = insert c (asked i t)"
  using assms by (auto simp: asked_def question_rows_snoc)

lemma insert_questions_ok:
  assumes "records_ok (grill_records db)" "set rules \<subseteq> set grillRules" "distinct (map gl_Class rules)"
    and "prior = int (length (question_rows (gi_ident identity) (grill_records db)))"
    and "gl_Class ` set rules \<inter> asked (gi_ident identity) (grill_records db) = {}"
  shows "\<exists>ns. insert_questions clock identity GrillRuleVersion prior (map (\<lambda>r. grillQuestionID (gl_Class r)) rules) db =
      Inr (db\<lparr>grill_records := grill_records db @ ns\<rparr>)
    \<and> records_ok (grill_records db @ ns) \<and> length ns = length rules
    \<and> (\<forall>n \<in> set ns. gr_ident n = gi_ident identity \<and> gr_SchemaVersion n = GrillQuestionSchemaVersion)
    \<and> map gr_RuleClass ns = map (\<lambda>r. Some (gl_Class r)) rules"
  using assms
proof (induction rules arbitrary: db prior clock)
  case Nil
  then show ?case by (intro exI [of _ "[]"]) simp
next
  case (Cons r rules)
  obtain n where ins: "insertGrillQuestion (clock 0) identity GrillRuleVersion prior r db = Inr (db\<lparr>grill_records := grill_records db @ [n]\<rparr>)"
    and n: "records_ok (grill_records db @ [n])" "gr_ident n = gi_ident identity" "gr_SchemaVersion n = GrillQuestionSchemaVersion"
      "gr_RuleClass n = Some (gl_Class r)"
    using insertGrillQuestion_ok [of db r prior identity "clock 0"] Cons.prems by auto
  let ?db = "db\<lparr>grill_records := grill_records db @ [n]\<rparr>"
  have "\<exists>ns. insert_questions (\<lambda>k. clock (Suc k)) identity GrillRuleVersion (prior + 1) (map (\<lambda>r. grillQuestionID (gl_Class r)) rules) ?db =
      Inr (?db\<lparr>grill_records := grill_records ?db @ ns\<rparr>)
    \<and> records_ok (grill_records ?db @ ns) \<and> length ns = length rules
    \<and> (\<forall>n \<in> set ns. gr_ident n = gi_ident identity \<and> gr_SchemaVersion n = GrillQuestionSchemaVersion)
    \<and> map gr_RuleClass ns = map (\<lambda>r. Some (gl_Class r)) rules"
    by (rule Cons.IH) (use Cons.prems n in \<open>auto simp: question_rows_snoc asked_snoc [OF n(2,3,4)]\<close>)
  then obtain ns where ns: "insert_questions (\<lambda>k. clock (Suc k)) identity GrillRuleVersion (prior + 1) (map (\<lambda>r. grillQuestionID (gl_Class r)) rules) ?db =
      Inr (db\<lparr>grill_records := grill_records db @ n # ns\<rparr>)" "records_ok (grill_records db @ n # ns)" "length ns = length rules"
    "\<forall>n \<in> set ns. gr_ident n = gi_ident identity \<and> gr_SchemaVersion n = GrillQuestionSchemaVersion"
    "map gr_RuleClass ns = map (\<lambda>r. Some (gl_Class r)) rules" by auto
  have "rule_of_question (grillQuestionID (gl_Class r)) = r" using Cons.prems(2) by (simp add: rule_of_question)
  then show ?case using ins ns n(2-4) by (intro exI [of _ "n # ns"]) simp
qed

end
