(* ===== verification/Grill_Operations.thy ===== *)
theory Grill_Operations
  imports Grill_Steps
begin

section \<open>Evaluations and operator actions\<close>

text \<open>
  The exact result of \<open>EvaluateGrill\<close> and of \<open>recordGrillOperatorAction\<close> on a journal that satisfies the
  invariant, and that every step keeps it.
\<close>

subsection \<open>Evaluation\<close>

definition waived_rules :: "string \<times> int \<times> string \<Rightarrow> GrillRow list \<Rightarrow> string set" where
  "waived_rules k t = (if scope_waived k t then {''scope_compatibility''} else {})"

definition verdict :: "GrillInput \<Rightarrow> GrillRow list \<Rightarrow> GrillEvaluation" where
  "verdict i t = (let k = gi_ident (input_identity i) in
     outcome i (asked k t) (int (length (question_rows k t))) (activeRules i (waived_rules k t)))"

definition acceptable :: "GrillEvaluationRequest \<Rightarrow> GrillDB \<Rightarrow> bool" where
  "acceptable request db \<longleftrightarrow> validateGrillInput (gq_Input request) = Inr () \<and> gq_RuleVersion request = GrillRuleVersion
     \<and> HashGrillInput (gq_Input request) = Inr (gq_InputHash request)
     \<and> validateGrillRevisionIdentity db (input_identity (gq_Input request)) = Inr ()"

lemma acceptable_iff:
  "acceptable request db \<longleftrightarrow> gq_RuleVersion request = GrillRuleVersion
     \<and> HashGrillInput (gq_Input request) = Inr (gq_InputHash request)
     \<and> gi_ident (input_identity (gq_Input request)) \<in> rv_ident ` set (task_proposal_revisions (gd_proposals db))"
  by (auto simp: acceptable_def HashGrillInput_def andThen_Inr validateGrillRevisionIdentity_def list_ex_iff intro: rev_image_eqI [OF _ sym])

lemma EvaluateGrill_guards:
  assumes "EvaluateGrill clock request db = Inr r"
  shows "acceptable request db"
  using assms by (auto simp: EvaluateGrill_def acceptable_def Let_def andThen_Inr)

lemma HashGrillInput_text:
  assumes "HashGrillInput i = Inr h"
  obtains c where "canonicalJSON (grillInputCanonicalValue i) = Inr c" "h = ''sha256:'' @ hex_encode (Sum256 c)"
  using assms by (auto simp: HashGrillInput_def andThen_Inr canonicalJSONHash_def split: sum.splits)

definition request_key :: "GrillEvaluationRequest \<Rightarrow> string \<times> int \<times> string \<times> string \<times> string" where
  "request_key request = (let i = gq_Input request in
     (gn_ProposalID i, gn_Revision i, gn_RevisionHash i, gq_RuleVersion request, gq_InputHash request))"

text \<open>The rows an evaluation adds.\<close>

definition new_evaluations :: "GrillEvaluationRequest \<Rightarrow> GrillDB \<Rightarrow> GrillEvaluationRow list \<Rightarrow> bool" where
  "new_evaluations request db es \<longleftrightarrow>
     (if request_key request \<in> gv_key ` set (grill_evaluations db) then es = [] else \<exists>e. es = [e] \<and> gv_key e = request_key request)"

definition new_questions :: "GrillInput \<Rightarrow> GrillRow list \<Rightarrow> GrillRow list \<Rightarrow> bool" where
  "new_questions i t ns \<longleftrightarrow> records_ok (t @ ns)
     \<and> (\<forall>n \<in> set ns. gr_ident n = gi_ident (input_identity i) \<and> gr_SchemaVersion n = GrillQuestionSchemaVersion)
     \<and> map (\<lambda>n. grillQuestionID (the (gr_RuleClass n))) ns = ge_NewQuestionIDs (verdict i t)"

lemma insertGrillEvaluation_ok:
  assumes "insertGrillEvaluation now (input_identity (gq_Input request)) (gq_RuleVersion request) (gq_InputHash request) c db = (created, db')"
  obtains es where "db' = db\<lparr>grill_evaluations := grill_evaluations db @ es\<rparr>" "new_evaluations request db es"
    "(if created then 1 else 0) = int (length es)"
proof (cases created)
  case True
  let ?i = "gq_Input request"
  let ?n = "\<lparr>gv_ProposalID = gn_ProposalID ?i, gv_Revision = gn_Revision ?i, gv_RevisionHash = gn_RevisionHash ?i,
    gv_RuleVersion = gq_RuleVersion request, gv_InputHash = gq_InputHash request, gv_InputJSON = c, gv_CreatedAt = now\<rparr>"
  have "db' = db\<lparr>grill_evaluations := grill_evaluations db @ [?n]\<rparr>" "new_evaluations request db [?n]"
    using assms True
    by (auto simp: insertGrillEvaluation_def input_identity_def Let_def new_evaluations_def request_key_def gv_key_def
        list_ex_iff split: if_splits)
  then show ?thesis using that [of "[?n]"] True by simp
next
  case False
  have "db' = db" "new_evaluations request db []"
    using assms False
    by (auto simp: insertGrillEvaluation_def input_identity_def Let_def new_evaluations_def request_key_def gv_key_def
        list_ex_iff intro: rev_image_eqI split: if_splits)
  then show ?thesis using that [of "[]"] False by simp
qed

lemma EvaluateGrill_exact:
  assumes ok: "records_ok (grill_records db)" and acc: "acceptable request db"
  obtains es ns where "EvaluateGrill clock request db =
      Inr ((verdict (gq_Input request) (grill_records db))\<lparr>ge_InputHash := gq_InputHash request, ge_NewRecords := int (length es + length ns)\<rparr>,
        db\<lparr>grill_evaluations := grill_evaluations db @ es, grill_records := grill_records db @ ns\<rparr>)"
    "new_evaluations request db es" "new_questions (gq_Input request) (grill_records db) ns"
proof -
  let ?i = "gq_Input request" and ?t = "grill_records db"
  let ?id = "input_identity ?i" let ?k = "gi_ident ?id"
  let ?active = "activeRules ?i (waived_rules ?k ?t)" and ?prior = "int (length (question_rows ?k ?t))"
  let ?new = "newRules (asked ?k ?t) ?prior ?active"
  obtain existing waived where load: "loadGrillHistory ?id db = Inr (?prior, existing, waived)"
    and hist: "set existing = asked ?k ?t" "set waived = waived_rules ?k ?t"
    using loadGrillHistory_exact [OF ok, of ?id] by (auto simp: waived_rules_def)
  have "evaluateGrillPure ?i existing ?prior waived = Inr (outcome ?i (set existing) ?prior (activeRules ?i (set waived)))"
    by (rule evaluateGrillPure_ok)
      (use acc question_count [OF ok, of ?k] asked_rules [OF ok] hist in \<open>auto simp: acceptable_def waived_rules_def\<close>)
  then have pure: "evaluateGrillPure ?i existing ?prior waived = Inr (verdict ?i ?t)" by (simp add: verdict_def hist Let_def)
  obtain c where c: "canonicalJSON (grillInputCanonicalValue ?i) = Inr c"
    using acc by (auto simp: acceptable_def elim: HashGrillInput_text)
  obtain created db1 where "insertGrillEvaluation (clock 0) ?id (gq_RuleVersion request) (gq_InputHash request) c db = (created, db1)"
    by fastforce
  then obtain es where ev: "insertGrillEvaluation (clock 0) ?id (gq_RuleVersion request) (gq_InputHash request) c db =
      (created, db\<lparr>grill_evaluations := grill_evaluations db @ es\<rparr>)"
    and es: "new_evaluations request db es" "(if created then 1 else 0) = int (length es)"
    by (metis insertGrillEvaluation_ok)
  have "\<exists>ns. insert_questions (\<lambda>n. clock (Suc n)) ?id GrillRuleVersion ?prior (map (\<lambda>r. grillQuestionID (gl_Class r)) ?new)
        (db\<lparr>grill_evaluations := grill_evaluations db @ es\<rparr>) =
      Inr ((db\<lparr>grill_evaluations := grill_evaluations db @ es\<rparr>)\<lparr>grill_records := grill_records (db\<lparr>grill_evaluations := grill_evaluations db @ es\<rparr>) @ ns\<rparr>)
    \<and> records_ok (grill_records (db\<lparr>grill_evaluations := grill_evaluations db @ es\<rparr>) @ ns) \<and> length ns = length ?new
    \<and> (\<forall>n \<in> set ns. gr_ident n = ?k \<and> gr_SchemaVersion n = GrillQuestionSchemaVersion)
    \<and> map gr_RuleClass ns = map (\<lambda>r. Some (gl_Class r)) ?new"
    by (rule insert_questions_ok) (use ok newRules_props [OF activeRules_sub(2)] activeRules_sub(1) in \<open>fastforce+\<close>)
  then obtain ns where ins: "insert_questions (\<lambda>n. clock (Suc n)) ?id GrillRuleVersion ?prior (ge_NewQuestionIDs (verdict ?i ?t))
        (db\<lparr>grill_evaluations := grill_evaluations db @ es\<rparr>) =
      Inr (db\<lparr>grill_evaluations := grill_evaluations db @ es, grill_records := ?t @ ns\<rparr>)"
    and ns: "records_ok (?t @ ns)" "length ns = length ?new"
      "\<forall>n \<in> set ns. gr_ident n = ?k \<and> gr_SchemaVersion n = GrillQuestionSchemaVersion"
      "map gr_RuleClass ns = map (\<lambda>r. Some (gl_Class r)) ?new"
    by (auto simp: verdict_def outcome_def Let_def)
  have "map (\<lambda>n. grillQuestionID (the (gr_RuleClass n))) ns = map (\<lambda>c. grillQuestionID (the c)) (map gr_RuleClass ns)" by simp
  also have "\<dots> = ge_NewQuestionIDs (verdict ?i ?t)" unfolding ns(4) by (simp add: verdict_def outcome_def Let_def)
  finally have q: "new_questions ?i ?t ns" using ns by (simp add: new_questions_def)
  have "length (ge_NewQuestionIDs (verdict ?i ?t)) = length ns" using ns(2) by (simp add: verdict_def outcome_def Let_def)
  then have "EvaluateGrill clock request db = Inr ((verdict ?i ?t)\<lparr>ge_InputHash := gq_InputHash request, ge_NewRecords := int (length es + length ns)\<rparr>,
      db\<lparr>grill_evaluations := grill_evaluations db @ es, grill_records := ?t @ ns\<rparr>)"
    using acc load pure c ev es(2) ins by (simp add: EvaluateGrill_def acceptable_def)
  then show ?thesis using es(1) q by (rule that)
qed

lemma EvaluateGrill_result:
  assumes ok: "records_ok (grill_records db)" and ev: "EvaluateGrill clock request db = Inr (res, db')"
  obtains es ns where
    "res = (verdict (gq_Input request) (grill_records db))\<lparr>ge_InputHash := gq_InputHash request, ge_NewRecords := int (length es + length ns)\<rparr>"
    "db' = db\<lparr>grill_evaluations := grill_evaluations db @ es, grill_records := grill_records db @ ns\<rparr>"
    "new_evaluations request db es" "new_questions (gq_Input request) (grill_records db) ns"
proof -
  obtain es ns where "EvaluateGrill clock request db =
      Inr ((verdict (gq_Input request) (grill_records db))\<lparr>ge_InputHash := gq_InputHash request, ge_NewRecords := int (length es + length ns)\<rparr>,
        db\<lparr>grill_evaluations := grill_evaluations db @ es, grill_records := grill_records db @ ns\<rparr>)"
    and new: "new_evaluations request db es" "new_questions (gq_Input request) (grill_records db) ns"
    by (rule EvaluateGrill_exact [OF ok EvaluateGrill_guards [OF ev]])
  with ev show ?thesis using that [OF _ _ new] by simp
qed

subsection \<open>Operator actions\<close>

lemma identity_exists:
  "validateGrillRevisionIdentity db identity = Inr () \<longleftrightarrow>
     gi_ident identity \<in> rv_ident ` set (task_proposal_revisions (gd_proposals db))"
  by (auto simp: validateGrillRevisionIdentity_def list_ex_iff intro: rev_image_eqI [OF _ sym])

definition action_schemas :: "string set" where
  "action_schemas = {GrillDefaultSchemaVersion, GrillAnswerSchemaVersion, GrillOverrideSchemaVersion}"

lemma find_question_ok:
  assumes ok: "records_ok t" and f: "find_question k questionID t = Some q"
  shows "q \<in> set (question_rows k t)" "gr_QuestionID q = Some questionID" "gr_RuleVersion q = GrillRuleVersion"
    "\<exists>r \<in> set grillRules. questionID = grillQuestionID (gl_Class r) \<and> scan_question q = Inr (GrillRuleVersion, gl_Waivable r, gl_Default r)
      \<and> gr_Waivable q = Some (gl_Waivable r)"
proof -
  show q: "q \<in> set (question_rows k t)" "gr_QuestionID q = Some questionID"
    using f by (auto simp: find_question_def find_Some_iff)
  show "gr_RuleVersion q = GrillRuleVersion" using question_rows_ok(1) [OF ok q(1)] by (simp add: question_ok_def)
  then show "\<exists>r \<in> set grillRules. questionID = grillQuestionID (gl_Class r)
      \<and> scan_question q = Inr (GrillRuleVersion, gl_Waivable r, gl_Default r) \<and> gr_Waivable q = Some (gl_Waivable r)"
    using question_rows_ok(1) [OF ok q(1)] q(2) by (fastforce simp: question_ok_def scan_question_def scan_text_def)
qed

lemma find_question_asked:
  assumes ok: "records_ok t"
  shows "find_question k (grillQuestionID c) t \<noteq> None \<longleftrightarrow> c \<in> asked k t"
  unfolding asked_iff [OF ok] find_question_def find_None_iff image_iff by metis

lemma action_row_cols [simp]:
  "gr_ident (action_row now identity v s schema qid d) = gi_ident identity"
  "gr_SchemaVersion (action_row now identity v s schema qid d) = schema"
  "gr_QuestionID (action_row now identity v s schema qid d) = Some qid"
  "gr_QuestionSequence (action_row now identity v s schema qid d) = None"
  "gr_RecordSequence (action_row now identity v s schema qid d) = s" "gr_RuleVersion (action_row now identity v s schema qid d) = v"
  by (simp_all add: action_row_def gr_ident_def gi_ident_def)

lemma action_recorded:
  assumes "records_ok t"
  shows "list_ex (\<lambda>r. gr_ident r = k \<and> gr_RuleVersion r = GrillRuleVersion \<and> gr_SchemaVersion r = schema \<and> gr_QuestionID r = Some qid) t
    \<longleftrightarrow> (k, schema, Some qid) \<in> grill_key ` set t"
  using row_versions [OF assms] by (auto simp: list_ex_iff grill_key_def image_iff)

text \<open>An action on a journal that satisfies the invariant: accepted iff the revision exists, the question was
  asked and the schema permits it; a repeated one adds nothing.\<close>

definition actionable :: "GrillRevisionIdentity \<Rightarrow> string \<Rightarrow> string \<Rightarrow> GrillDB \<Rightarrow> bool" where
  "actionable identity c schema db \<longleftrightarrow> validateGrillRevisionIdentity db identity = Inr ()
     \<and> c \<in> asked (gi_ident identity) (grill_records db) \<and> schema \<in> action_schemas
     \<and> (schema = GrillOverrideSchemaVersion \<longrightarrow> c = ''scope_compatibility'')"

definition action_key :: "GrillRevisionIdentity \<Rightarrow> string \<Rightarrow> string \<Rightarrow> (string \<times> int \<times> string) \<times> string \<times> string option" where
  "action_key identity c schema = (gi_ident identity, schema, Some (grillQuestionID c))"

lemma action_guards:
  assumes ok: "records_ok (grill_records db)"
    and act: "recordGrillOperatorAction now identity questionID schema db = Inr r"
  obtains c where "questionID = grillQuestionID c" "actionable identity c schema db"
proof -
  obtain q where v: "validateGrillRevisionIdentity db identity = Inr ()"
    and f: "find_question (gi_ident identity) questionID (grill_records db) = Some q"
    using act by (auto simp: recordGrillOperatorAction_def Let_def andThen_Inr)
  obtain r where r: "r \<in> set grillRules" "questionID = grillQuestionID (gl_Class r)" "scan_question q = Inr (GrillRuleVersion, gl_Waivable r, gl_Default r)"
    using find_question_ok(4) [OF ok f] by blast
  have "schema \<in> action_schemas" "schema = GrillOverrideSchemaVersion \<longrightarrow> gl_Waivable r"
    using act v f r(3) by (auto simp: recordGrillOperatorAction_def Let_def andThen_Inr require_def action_schemas_def)
  then show ?thesis
    using that [of "gl_Class r"] v f r rule_lookup(4) [OF r(1)] find_question_asked [OF ok, of "gi_ident identity" "gl_Class r"]
    by (simp add: actionable_def)
qed

lemma action_exact:
  assumes ok: "records_ok (grill_records db)" and a: "actionable identity c schema db"
  obtains ns where "recordGrillOperatorAction now identity (grillQuestionID c) schema db =
      Inr (action_key identity c schema \<notin> grill_key ` set (grill_records db), db\<lparr>grill_records := grill_records db @ ns\<rparr>)"
    "records_ok (grill_records db @ ns)" "map grill_key ns = (if action_key identity c schema \<in> grill_key ` set (grill_records db) then []
       else [action_key identity c schema])"
proof -
  let ?k = "gi_ident identity" and ?t = "grill_records db"
  obtain q where f: "find_question ?k (grillQuestionID c) ?t = Some q"
    using a find_question_asked [OF ok, of ?k c] by (auto simp: actionable_def)
  obtain r where r: "r \<in> set grillRules" "c = gl_Class r" "scan_question q = Inr (GrillRuleVersion, gl_Waivable r, gl_Default r)"
      "gr_Waivable q = Some (gl_Waivable r)"
    using find_question_ok(4) [OF ok f] by auto
  define n where "n = action_row now identity GrillRuleVersion (next_seq (record_seqs ?k db)) schema (grillQuestionID c) (gl_Default r)"
  have key: "grill_key n = action_key identity c schema" by (simp add: n_def grill_key_def action_key_def)
  have schema: "schema \<in> action_schemas" "schema = GrillOverrideSchemaVersion \<Longrightarrow> gl_Waivable r"
    using a r rule_lookup(4) [OF r(1)] by (auto simp: actionable_def)
  have run: "recordGrillOperatorAction now identity (grillQuestionID c) schema db =
      (if action_key identity c schema \<in> grill_key ` set ?t then Inr (False, db)
       else andThen (insert_grill_record n db) (\<lambda>db. Inr (True, db)))"
    using a f r(3) schema action_recorded [OF ok]
    by (auto simp: recordGrillOperatorAction_def Let_def n_def action_key_def actionable_def action_schemas_def require_def)
  show ?thesis
  proof (cases "action_key identity c schema \<in> grill_key ` set ?t")
    case True
    then show ?thesis using that [of "[]"] run ok by simp
  next
    case False
    have seq: "gr_RecordSequence n = next_seq (log_seqs gr_ident gr_RecordSequence (gr_ident n) ?t)" by (simp add: n_def record_seqs_def)
    have "grill_insertable n ?t"
      by (subst insertable_iff [OF ok seq]) (use False key in \<open>simp_all add: n_def\<close>)
    moreover have "row_ok (?t @ [n]) n"
      using find_question_ok(1,2) [OF ok f] r(4) schema
      by (auto simp: row_ok_def action_ok_def n_def action_schemas_def question_rows_def)
    then have "records_ok (?t @ [n])"
      by (rule records_ok_snoc [OF ok seq]) (use False key schema in \<open>auto simp: n_def action_schemas_def\<close>)
    ultimately show ?thesis using that [of "[n]"] run False key by (simp add: insert_grill_record_def)
  qed
qed

lemma asked_question_iff:
  assumes ok: "records_ok t"
  shows "(\<exists>q \<in> set (question_rows k t). gr_QuestionID q = Some questionID) \<longleftrightarrow> (\<exists>c \<in> asked k t. questionID = grillQuestionID c)"
proof
  assume "\<exists>q \<in> set (question_rows k t). gr_QuestionID q = Some questionID"
  then obtain q where q: "q \<in> set (question_rows k t)" "gr_QuestionID q = Some questionID" by blast
  obtain r where "r \<in> set grillRules" "gr_RuleClass q = Some (gl_Class r)" "gr_QuestionID q = Some (grillQuestionID (gl_Class r))"
    by (rule asked_rule [OF ok q(1)])
  then show "\<exists>c \<in> asked k t. questionID = grillQuestionID c" using q by (auto simp: asked_def)
next
  assume "\<exists>c \<in> asked k t. questionID = grillQuestionID c"
  then show "\<exists>q \<in> set (question_rows k t). gr_QuestionID q = Some questionID"
    by (metis asked_iff [OF ok] image_iff)
qed

lemma action_repeat:
  assumes ok: "records_ok (grill_records db)"
    and run: "recordGrillOperatorAction now identity questionID schema db = Inr (new, db')"
  shows "recordGrillOperatorAction now' identity questionID schema db' = Inr (False, db')
     \<and> (\<exists>ns. db' = db\<lparr>grill_records := grill_records db @ ns\<rparr> \<and> length ns = (if new then 1 else 0)
          \<and> (\<forall>n \<in> set ns. gr_ident n = gi_ident identity \<and> gr_SchemaVersion n = schema \<and> gr_QuestionID n = Some questionID))"
proof -
  obtain c where q: "questionID = grillQuestionID c" and a: "actionable identity c schema db" by (rule action_guards [OF ok run])
  let ?key = "action_key identity c schema" and ?keys = "grill_key ` set (grill_records db)"
  obtain ns where new: "new = (?key \<notin> ?keys)" and db': "db' = db\<lparr>grill_records := grill_records db @ ns\<rparr>"
    and ok': "records_ok (grill_records db @ ns)" and keys: "map grill_key ns = (if ?key \<in> ?keys then [] else [?key])"
    by (rule action_exact [OF ok a, of now]) (use run q in auto)
  have len: "length ns = (if new then 1 else 0)" using arg_cong [OF keys, of length] new by (auto split: if_splits)
  have rows: "grill_key n = ?key" if "n \<in> set ns" for n
    using that arg_cong [OF keys, of set] by (auto split: if_splits)
  have "?key \<in> grill_key ` set (grill_records db @ ns)" using arg_cong [OF keys, of set] by (auto split: if_splits)
  moreover have "actionable identity c schema db'" using a by (auto simp: actionable_def db' asked_def question_rows_def identity_exists)
  moreover have "records_ok (grill_records db')" using ok' by (simp add: db')
  ultimately have "recordGrillOperatorAction now' identity questionID schema db' = Inr (False, db')"
    by (elim action_exact [of db' identity c schema now']) (simp_all add: db' q split: if_splits)
  moreover have "\<forall>n \<in> set ns. gr_ident n = gi_ident identity \<and> gr_SchemaVersion n = schema \<and> gr_QuestionID n = Some questionID"
    using rows by (auto simp: grill_key_def action_key_def q)
  ultimately show ?thesis using len db' by blast
qed

subsection \<open>Steps\<close>

text \<open>Both tables only grow and the proposal tables are not touched by the review operations.\<close>

definition grill_extends :: "GrillDB \<Rightarrow> GrillDB \<Rightarrow> bool" where
  "grill_extends db db' \<longleftrightarrow> prefix (grill_records db) (grill_records db') \<and> prefix (grill_evaluations db) (grill_evaluations db')"

lemma identity_ensure:
  "validateGrillRevisionIdentity db identity =
     ensure (gi_ident identity \<in> rv_ident ` set (task_proposal_revisions (gd_proposals db))) ErrGrillRevisionMismatch"
  using identity_exists [of db identity] by (auto simp: validateGrillRevisionIdentity_def)

lemma grill_inv_append:
  assumes inv: "grill_inv db" and db': "db' = db\<lparr>grill_evaluations := grill_evaluations db @ es, grill_records := grill_records db @ ns\<rparr>"
    and "records_ok (grill_records db @ ns)" "distinct (map gv_key (grill_evaluations db @ es))"
    and "gr_ident ` set ns \<subseteq> rv_ident ` set (task_proposal_revisions (gd_proposals db))"
  shows "grill_inv db'" "grill_extends db db'" "gd_proposals db' = gd_proposals db"
  using assms by (auto simp: grill_inv_def grill_extends_def)

lemma EvaluateGrill_keeps:
  assumes inv: "grill_inv db" and ev: "EvaluateGrill clock request db = Inr (res, db')"
  shows "grill_inv db'" "grill_extends db db'" "gd_proposals db' = gd_proposals db"
proof -
  have acc: "acceptable request db" by (rule EvaluateGrill_guards [OF ev])
  have ok: "records_ok (grill_records db)" using inv by (simp add: grill_inv_def)
  obtain es ns where db': "db' = db\<lparr>grill_evaluations := grill_evaluations db @ es, grill_records := grill_records db @ ns\<rparr>"
    and es: "new_evaluations request db es" and ns: "new_questions (gq_Input request) (grill_records db) ns"
    by (rule EvaluateGrill_result [OF ok ev])
  have "records_ok (grill_records db @ ns)" "distinct (map gv_key (grill_evaluations db @ es))"
      "gr_ident ` set ns \<subseteq> rv_ident ` set (task_proposal_revisions (gd_proposals db))"
    using inv es ns acc by (auto simp: new_questions_def new_evaluations_def grill_inv_def acceptable_iff split: if_splits)
  then show "grill_inv db'" "grill_extends db db'" "gd_proposals db' = gd_proposals db"
    by (rule grill_inv_append [OF inv db'])+
qed

lemma action_keeps:
  assumes inv: "grill_inv db" and act: "recordGrillOperatorAction now identity questionID schema db = Inr (new, db')"
  shows "grill_inv db'" "grill_extends db db'" "gd_proposals db' = gd_proposals db"
proof -
  have ok: "records_ok (grill_records db)" using inv by (simp add: grill_inv_def)
  obtain c where c: "questionID = grillQuestionID c" "actionable identity c schema db" by (rule action_guards [OF ok act])
  obtain ns where "db' = db\<lparr>grill_records := grill_records db @ ns\<rparr>" and ns: "records_ok (grill_records db @ ns)"
      "map grill_key ns = (if action_key identity c schema \<in> grill_key ` set (grill_records db) then [] else [action_key identity c schema])"
    using action_exact [OF ok c(2), of now] act c(1) by (metis Inr_inject prod.inject)
  then have db': "db' = db\<lparr>grill_evaluations := grill_evaluations db @ [], grill_records := grill_records db @ ns\<rparr>" by simp
  have "map gr_ident ns = map fst (map grill_key ns)" by (simp add: grill_key_def)
  then have "set (map gr_ident ns) \<subseteq> {gi_ident identity}" unfolding ns(2) by (simp add: action_key_def)
  then have "gr_ident ` set ns \<subseteq> rv_ident ` set (task_proposal_revisions (gd_proposals db))"
    using c(2) by (auto simp: actionable_def identity_exists)
  moreover have "distinct (map gv_key (grill_evaluations db @ []))" using inv by (simp add: grill_inv_def)
  ultimately show "grill_inv db'" "grill_extends db db'" "gd_proposals db' = gd_proposals db"
    using grill_inv_append [OF inv db' ns(1)] by blast+
qed

lemma grill_step_inv:
  assumes "grill_step db db'" "grill_inv db"
  shows "grill_inv db' \<and> grill_extends db db' \<and> db_evolves (gd_proposals db) (gd_proposals db')"
  using assms
proof (cases rule: grill_step.cases)
  case (proposal p)
  have inv: "proposal_inv (gd_proposals db)" using assms(2) by (simp add: grill_inv_def)
  have "db_evolves (gd_proposals db) p" "proposal_inv p"
    using proposal_step_evolves [OF proposal(2) inv] proposal_step_inv [OF proposal(2) inv] by auto
  then show ?thesis using assms(2) proposal(1) db_evolvesD(1) set_mono_prefix
    by (fastforce simp: grill_inv_def grill_extends_def)
next
  case (evaluate clock request res)
  then show ?thesis using EvaluateGrill_keeps [OF assms(2)] by auto
next
  case (act now identity questionID schemaVersion new)
  then show ?thesis using action_keeps [OF assms(2)] by auto
qed

lemma grill_steps_inv:
  "grill_step\<^sup>*\<^sup>* db db' \<Longrightarrow> grill_inv db \<Longrightarrow> grill_inv db' \<and> grill_extends db db' \<and> db_evolves (gd_proposals db) (gd_proposals db')"
proof (induction rule: rtranclp_induct)
  case (step y z)
  then show ?case using grill_step_inv [of y z]
    by (auto simp: grill_extends_def intro: prefix_order.trans db_evolves_trans)
qed (simp add: grill_extends_def)

lemma grill_reachable_inv: "grill_reachable db \<Longrightarrow> grill_inv db"
  using grill_steps_inv [OF _ grill_inv_empty] by blast

end
