(* ===== verification/Grill_Facts.thy ===== *)
theory Grill_Facts
  imports Grill_Operations Canonical_JSON_Facts
begin

section \<open>Facts on evaluations\<close>

text \<open>
  Every valid declaration has a canonical text, the questions shown are the asked ones followed by the
  first unasked ones, and a second evaluation of the same declaration finds nothing to add.
\<close>

subsection \<open>Valid declarations can be hashed\<close>

lemma layout_ascii:
  assumes "layout t s" "list_all (\<lambda>c. byte_of c < 128) t"
  shows "list_all (\<lambda>c. byte_of c < 128) s"
  using assms unfolding layout_def by (induction rule: list_all2_induct) (auto simp: is_digit_def split: if_splits)

lemma bracketed: "2 \<le> length r \<Longrightarrow> r = hd r # butlast (tl r) @ [last r]"
  by (cases r) auto

lemma timestamp_valid_utf8:
  assumes "grillTimestampPattern s"
  shows "ValidString s"
proof -
  have "list_all (\<lambda>c. byte_of c < 128) (take 19 s)"
    by (rule layout_ascii [of "''dddd-dd-ddTdd:dd:dd''"])
      (use assms in \<open>simp only: grillTimestampPattern_def\<close>, simp add: byte_of_def)
  moreover have "list_all (\<lambda>c. byte_of c < 128) (drop 19 s)"
  proof (cases "drop 19 s = ''Z''")
    case False
    define r where "r = drop 19 s"
    have r: "2 \<le> length r" "hd r = CHR ''.''" "last r = CHR ''Z''" "list_all is_digit (butlast (tl r))"
      using assms False unfolding grillTimestampPattern_def r_def Let_def by (metis False Suc_leD numeral_3_eq_3 numeral_2_eq_2)+
    have "list_all (\<lambda>c. byte_of c < 128) (hd r # butlast (tl r) @ [last r])"
      using r(2-4) by (auto simp: list_all_iff is_digit_def byte_of_def)
    then show ?thesis using bracketed [OF r(1)] r_def by metis
  qed (simp add: byte_of_def)
  ultimately have "list_all (\<lambda>c. byte_of c < 128) (take 19 s @ drop 19 s)" unfolding list_all_append by (rule conjI)
  then show ?thesis unfolding append_take_drop_id by (rule ValidString_ascii)
qed

lemma ident_valid_utf8: "ident_pattern n s \<Longrightarrow> ValidString s"
  by (rule ValidString_ascii) (fastforce simp: ident_pattern_def list_all_iff ident_char_def is_digit_def is_lower_def byte_of_def
      split: list.splits)

lemma hash_valid_utf8:
  assumes "grillHashPattern s"
  shows "ValidString s"
proof -
  have "take 7 s = ''sha256:''" "list_all is_lower_hex (drop 7 s)"
    using assms by (simp_all add: grillHashPattern_def HasPrefix_def eval_nat_numeral)
  then have "list_all (\<lambda>c. byte_of c < 128) (take 7 s @ drop 7 s)"
    unfolding list_all_append by (auto simp: list_all_iff is_lower_hex_def is_digit_def byte_of_def)
  then show ?thesis using ValidString_ascii by simp
qed

definition grill_words :: "string list" where
  "grill_words = [''absent'', ''declared'', ''none'', ''not_required'', ''recorded'', ''unrecorded'', ''read_only'', ''not_applicable'',
     ''isolated'', ''not_isolated'']"

lemma grill_words_valid_utf8: "v \<in> set grill_words \<Longrightarrow> ValidString v"
  by (auto simp: grill_words_def ValidString_ascii byte_of_def)

lemma grillOneOf_iff: "grillOneOf v cs \<longleftrightarrow> v \<in> set cs"
  by (auto simp: grillOneOf_def list_ex_iff)

lemma valid_input_words:
  assumes "validateGrillInput i = Inr ()"
  shows "set (map (\<lambda>f. f (gn_Declarations i)) [de_ObservableOutcome, de_ScopeCompatibility, de_AcceptanceEvidence,
      de_DestructiveExternal, de_LocalAuthorization, de_AdapterMode, de_WorktreeIsolation]) \<subseteq> set grill_words"
  using assms unfolding validateGrillInput_def Let_def andThen_Inr ensure_Inr grillOneOf_iff
  by (elim exE conjE) (simp add: grill_words_def; blast)

lemma json_ok_joption:
  "json_ok (joption JStr t) \<longleftrightarrow> (\<forall>s. t = Some s \<longrightarrow> ValidString s)" "json_ok (joption JInt n)"
  by (cases t; simp) (cases n; simp)

lemma valid_input_json:
  assumes "validateGrillInput i = Inr ()"
  shows "json_ok (grillInputCanonicalValue i)"
proof -
  have "ValidString (gn_ProposalID i)" "ValidString (gn_RevisionHash i)" "ValidString (gn_SchemaVersion i)"
    using assms ident_valid_utf8 hash_valid_utf8
    by (auto simp: validateGrillInput_def Let_def andThen_Inr GrillInputSchemaVersion_def ValidString_ascii byte_of_def)
  moreover have "ValidString s" if "au_Deadline (de_Autonomy (gn_Declarations i)) = Some s" for s
    using assms that timestamp_valid_utf8 by (auto simp: validateGrillInput_def Let_def andThen_Inr)
  moreover have "\<forall>v \<in> set (map (\<lambda>f. f (gn_Declarations i)) [de_ObservableOutcome, de_ScopeCompatibility, de_AcceptanceEvidence,
      de_DestructiveExternal, de_LocalAuthorization, de_AdapterMode, de_WorktreeIsolation]). ValidString v"
    using valid_input_words [OF assms] grill_words_valid_utf8 by blast
  ultimately show ?thesis
    by (simp add: grillInputCanonicalValue_def Let_def ValidString_ascii byte_of_def json_ok_joption)
qed

lemma HashGrillInput_total: "validateGrillInput i = Inr () \<Longrightarrow> \<exists>h. HashGrillInput i = Inr h"
  using valid_input_json [of i] by (simp add: HashGrillInput_def canonicalJSONHash_def canonicalJSON_eq)

subsection \<open>The questions shown\<close>

text \<open>What the invariant says of the arguments of the evaluator: the asked rules are rules, counted once.\<close>

lemma asked_card:
  assumes ok: "records_ok t"
  shows "card (asked k t) = length (question_rows k t)"
proof -
  have "map gr_QuestionID (question_rows k t) = map (\<lambda>q. Some (grillQuestionID (the (gr_RuleClass q)))) (question_rows k t)"
    by (rule map_cong [OF refl]) (metis asked_rule [OF ok] option.sel)
  then have "distinct (map (\<lambda>q. the (gr_RuleClass q)) (question_rows k t))"
    using distinct_question_ids [OF ok, of k] by (auto simp: distinct_map inj_on_def)
  moreover have "\<forall>q \<in> set (question_rows k t). gr_RuleClass q \<noteq> None" by (metis asked_rule [OF ok] option.distinct(1))
  then have "asked k t = set (map (\<lambda>q. the (gr_RuleClass q)) (question_rows k t))" by (force simp: asked_def)
  ultimately show ?thesis using distinct_card by fastforce
qed

lemma shownRules_filter:
  assumes "sorted (map gl_Priority active)" "distinct (map gl_Priority active)"
  shows "shownRules existing prior active = filter (\<lambda>r. gl_Class r \<in> existing \<or> r \<in> set (newRules existing prior active)) active"
    (is "?l = ?r")
proof -
  have sub: "set (newRules existing prior active) \<subseteq> {r \<in> set active. gl_Class r \<notin> existing}"
    by (auto simp: newRules_def dest: in_set_takeD)
  have d: "distinct active" using assms(2) by (simp add: distinct_map)
  then have "distinct (filter (\<lambda>r. gl_Class r \<in> existing) active @ newRules existing prior active)"
    using sub by (auto simp: newRules_def intro: distinct_take)
  then have "distinct ?l" by (simp add: shownRules_def order_by_def)
  moreover have "set ?l = set ?r" using sub by (auto simp: shownRules_def)
  moreover have "inj_on gl_Priority (set active)" using assms(2) by (simp add: distinct_map)
  ultimately have "map gl_Priority ?l = map gl_Priority ?r"
    using assms d
    by (intro sorted_distinct_set_unique) (auto simp: shownRules_def sorted_order_by distinct_map sorted_filter inj_on_subset simp del: sort_key_def)
  with \<open>set ?l = set ?r\<close> \<open>inj_on gl_Priority (set active)\<close> show ?thesis
    by (intro map_inj_on [of gl_Priority]) (auto intro: inj_on_subset)
qed

lemma filter_take_drop: "distinct (map f xs) \<Longrightarrow> filter (\<lambda>x. f x \<notin> f ` set (take n xs)) xs = drop n xs"
proof (induction xs arbitrary: n)
  case (Cons a xs)
  show ?case
  proof (cases n)
    case (Suc m)
    have "filter (\<lambda>x. f x \<notin> f ` set (take n (a # xs))) (a # xs) = filter (\<lambda>x. f x \<notin> f ` set (take m xs)) xs"
      using Cons.prems by (auto simp: Suc image_iff intro!: filter_cong)
    then show ?thesis using Cons Suc by simp
  qed simp
qed simp

text \<open>The rules asked by one evaluation leave nothing to ask in the next one of the same declaration.\<close>

lemma newRules_exhausted:
  assumes d: "distinct (map gl_Class active)"
    and few: "prior + int (length (filter (\<lambda>r. gl_Class r \<notin> existing) active)) \<le> 10"
    and new: "new = newRules existing prior active"
  shows "newRules (existing \<union> gl_Class ` set new) (prior + int (length new)) active = []"
proof -
  let ?avail = "filter (\<lambda>r. gl_Class r \<notin> existing) active"
  let ?already = "filter (\<lambda>r. gl_Class r \<in> existing) active"
  let ?E = "existing \<union> gl_Class ` set new"
  define n where "n = nat (minGrill 5 [10 - prior, 5 - int (length ?already), int (length ?avail)])"
  have take: "new = take n ?avail" by (simp add: new newRules_def n_def)
  have n: "n = min (5 - length ?already) (length ?avail)" using few by (simp add: n_def minGrill_three)
  have "filter (\<lambda>r. gl_Class r \<notin> ?E) active = filter (\<lambda>r. gl_Class r \<notin> gl_Class ` set (take n ?avail)) ?avail"
    by (auto simp: take intro!: filter_cong)
  also have "\<dots> = drop n ?avail" by (rule filter_take_drop) (simp add: d distinct_map_filter)
  finally have rest: "filter (\<lambda>r. gl_Class r \<notin> ?E) active = drop n ?avail" .
  have "length (filter (\<lambda>r. gl_Class r \<in> ?E) active) = length active - length (drop n ?avail)"
    using sum_length_filter_compl [of "\<lambda>r. gl_Class r \<in> ?E" active] rest by simp
  also have "\<dots> = length ?already + n"
    using sum_length_filter_compl [of "\<lambda>r. gl_Class r \<in> existing" active] n by simp
  finally have "length (filter (\<lambda>r. gl_Class r \<in> ?E) active) = length ?already + n" .
  then have "newRules ?E (prior + int (length new)) active =
      take (nat (minGrill 5 [10 - (prior + int (length new)), 5 - int (length ?already + n), int (length (drop n ?avail))])) (drop n ?avail)"
    by (simp only: newRules_def rest)
  then show ?thesis using n by (simp add: minGrill_three)
qed

lemma shownRules_stable:
  assumes d: "distinct (map gl_Class active)" "sorted (map gl_Priority active)" "distinct (map gl_Priority active)"
    and few: "prior + int (length (filter (\<lambda>r. gl_Class r \<notin> existing) active)) \<le> 10"
    and new: "new = newRules existing prior active"
  shows "shownRules (existing \<union> gl_Class ` set new) (prior + int (length new)) active = shownRules existing prior active"
proof -
  have "set new \<subseteq> set active" using newRules_props(1) [OF d(1)] new by auto
  then have "gl_Class r \<in> gl_Class ` set new \<longleftrightarrow> r \<in> set new" if "r \<in> set active" for r
    using d(1) that by (auto simp: distinct_map inj_on_def)
  then show ?thesis
    unfolding shownRules_filter [OF d(2,3)] newRules_exhausted [OF d(1) few new] by (auto simp: new intro!: filter_cong)
qed

lemma activeRules_order: "sorted (map gl_Priority (activeRules i waived))" "distinct (map gl_Priority (activeRules i waived))"
  using grill_rules_table(3,4) by (simp_all add: activeRules_def sorted_filter distinct_map_filter)

lemma few_questions:
  assumes ok: "records_ok t"
  shows "int (length (question_rows k t)) + int (length (filter (\<lambda>r. gl_Class r \<notin> asked k t) (activeRules i waived))) \<le> 6"
proof -
  let ?rest = "filter (\<lambda>r. gl_Class r \<notin> asked k t) (activeRules i waived)"
  have "card (asked k t \<union> gl_Class ` set ?rest) \<le> card (gl_Class ` set grillRules)"
    using asked_rules [OF ok, of k] activeRules_sub(1) [of i waived] by (intro card_mono) auto
  also have "\<dots> \<le> 6" using card_image_le [of "set grillRules" gl_Class] card_length [of grillRules] grill_rules_table(2) by simp
  finally have "card (asked k t) + card (gl_Class ` set ?rest) \<le> 6"
    using finite_subset [OF asked_rules [OF ok, of k]] by (subst (asm) card_Un_disjoint) auto
  moreover have "card (gl_Class ` set ?rest) = length ?rest"
    using activeRules_sub(2) distinct_card [of "map gl_Class ?rest"] by (simp add: distinct_map_filter)
  ultimately show ?thesis using asked_card [OF ok] by simp
qed

subsection \<open>Evaluating again\<close>

lemma asked_append: "asked k (t @ ns) = asked k t \<union> asked k ns"
  by (auto simp: asked_def question_rows_def)

lemma new_questions_asked:
  assumes ns: "new_questions i t ns"
  defines "k \<equiv> gi_ident (input_identity i)"
  defines "new \<equiv> newRules (asked k t) (int (length (question_rows k t))) (activeRules i (waived_rules k t))"
  shows "asked k (t @ ns) = asked k t \<union> gl_Class ` set new" "length (question_rows k (t @ ns)) = length (question_rows k t) + length new"
    "waived_rules k (t @ ns) = waived_rules k t"
proof -
  have rows: "question_rows k ns = ns" and ok: "records_ok (t @ ns)"
    using ns by (simp_all add: new_questions_def question_rows_def k_def filter_id_conv)
  have "map grillQuestionID (map (\<lambda>n. the (gr_RuleClass n)) ns) = map grillQuestionID (map gl_Class new)"
    using ns by (simp add: new_questions_def verdict_def outcome_def Let_def new_def k_def o_def)
  moreover have "inj grillQuestionID" by (simp add: inj_def)
  ultimately have cls: "map (\<lambda>n. the (gr_RuleClass n)) ns = map gl_Class new" by (simp only: inj_map_eq_map)
  have "gr_RuleClass n \<noteq> None" if n: "n \<in> set ns" for n
  proof -
    have "n \<in> set (question_rows k (t @ ns))" using n rows by (metis UnI2 filter_append question_rows_def set_append)
    then show ?thesis by (rule asked_rule [OF ok]) simp
  qed
  then have "asked k ns = set (map (\<lambda>n. the (gr_RuleClass n)) ns)" by (force simp: asked_def rows)
  then show "asked k (t @ ns) = asked k t \<union> gl_Class ` set new" by (simp add: asked_append cls)
  show "length (question_rows k (t @ ns)) = length (question_rows k t) + length new"
    using rows arg_cong [OF cls, of length] by (simp add: question_rows_def)
  show "waived_rules k (t @ ns) = waived_rules k t"
    using ns by (auto simp: waived_rules_def scope_waived_def new_questions_def)
qed

lemma verdict_again:
  assumes ok: "records_ok t" and ns: "new_questions i t ns"
  shows "verdict i (t @ ns) = (verdict i t)\<lparr>ge_NewQuestionIDs := []\<rparr>"
proof -
  let ?k = "gi_ident (input_identity i)"
  let ?active = "activeRules i (waived_rules ?k t)"
  let ?p = "int (length (question_rows ?k t))"
  let ?new = "newRules (asked ?k t) ?p ?active"
  note after = new_questions_asked [OF ns]
  have few: "?p + int (length (filter (\<lambda>r. gl_Class r \<notin> asked ?k t) ?active)) \<le> 10"
    using few_questions [OF ok, of ?k i "waived_rules ?k t"] by simp
  have "newRules (asked ?k t \<union> gl_Class ` set ?new) (?p + int (length ?new)) ?active = []"
    by (rule newRules_exhausted [OF activeRules_sub(2) few refl])
  moreover have "shownRules (asked ?k t \<union> gl_Class ` set ?new) (?p + int (length ?new)) ?active = shownRules (asked ?k t) ?p ?active"
    by (rule shownRules_stable [OF activeRules_sub(2) activeRules_order few refl])
  ultimately show ?thesis by (simp add: verdict_def after Let_def outcome_def)
qed

lemma new_questions_none: "new_questions i t ns \<Longrightarrow> ge_NewQuestionIDs (verdict i t) = [] \<Longrightarrow> ns = []"
  by (simp add: new_questions_def)

subsection \<open>Clear verdicts\<close>

lemma verdict_status:
  "ge_Status (verdict i t) = (if activeRules i (waived_rules (gi_ident (input_identity i)) t) = [] then GrillStatusClear else GrillStatusBlocked)"
  by (simp add: verdict_def outcome_def Let_def)

lemma active_none:
  "activeRules i (waived_rules k t) = [] \<longleftrightarrow>
     de_ObservableOutcome (gn_Declarations i) = ''declared'' \<and> de_AcceptanceEvidence (gn_Declarations i) = ''declared''
   \<and> (de_ScopeCompatibility (gn_Declarations i) = ''declared'' \<or> scope_waived k t)
   \<and> (de_DestructiveExternal (gn_Declarations i) \<noteq> ''declared'' \<or> de_LocalAuthorization (gn_Declarations i) = ''recorded'')
   \<and> (de_AdapterMode (gn_Declarations i) = ''none'' \<or> de_WorktreeIsolation (gn_Declarations i) = ''isolated'')
   \<and> au_Deadline (de_Autonomy (gn_Declarations i)) \<noteq> None \<and> au_AttemptCap (de_Autonomy (gn_Declarations i)) \<noteq> None"
  unfolding activeRules_def grillRules_def grill_rule_def waived_rules_def filter_empty_conv list.set
  by (cases "scope_waived k t") (simp_all add: grillRuleTriggered_def Let_def conj_ac)

subsection \<open>The evaluator on any history\<close>

lemma waived_classes_id: "waived_classes vs = Inr ws \<Longrightarrow> ws = vs"
  by (induction vs arbitrary: ws) (auto simp: andThen_Inr split: option.splits if_splits)

lemma evaluateGrillPure_outcome:
  assumes "evaluateGrillPure i existing prior waived = Inr res" "\<not> 10 \<le> prior"
  obtains es where "0 \<le> prior" "res = outcome i (set es) prior (activeRules i (set waived))"
proof -
  obtain es ws where ok: "validateGrillInput i = Inr ()" "0 \<le> prior" "existing_classes existing = Inr es" "waived_classes waived = Inr ws"
    using assms(1) unfolding evaluateGrillPure_def andThen_Inr ensure_Inr by auto
  have "ws = waived" by (rule waived_classes_id [OF ok(4)])
  then have "res = outcome i (set es) prior (activeRules i (set waived))"
    using assms(1) [symmetric] assms(2) ok by (simp add: evaluateGrillPure_def outcome_def activeRules_def newRules_def shownRules_def Let_def)
  with ok(2) show ?thesis by (rule that)
qed

lemma shown_length:
  assumes "distinct (map gl_Class active)"
  shows "length (shownRules existing prior active) \<le> 5 \<or> newRules existing prior active = []"
  by (simp add: shownRules_def order_by_def newRules_def minGrill_three) linarith

lemma shown_subseq:
  "subseq (map (\<lambda>r. grillQuestionID (gl_Class r)) (shownRules existing prior (activeRules i waived)))
     (map (\<lambda>r. grillQuestionID (gl_Class r)) grillRules)"
  unfolding shownRules_filter [OF activeRules_order] unfolding activeRules_def filter_filter
  by (intro subseq_map subseq_filter_left)

lemma class_member: "r \<in> set grillRules \<Longrightarrow> set rs \<subseteq> set grillRules \<Longrightarrow> gl_Class r \<in> gl_Class ` set rs \<longleftrightarrow> r \<in> set rs"
  using rule_class_inject by blast

end
