(* ===== verification/Grill_Demo.thy ===== *)
theory Grill_Demo
  imports Grill_Facts Proposal_Demo
begin

section \<open>A concrete review\<close>

text \<open>
  The proposal of the demonstration store under review: a declaration that triggers all six rules, one
  that lacks only the autonomy budget, and one that triggers only the waivable rule.
\<close>

definition bare_declarations :: GrillDeclarations where
  "bare_declarations = \<lparr>de_ObservableOutcome = ''absent'', de_ScopeCompatibility = ''absent'', de_AcceptanceEvidence = ''absent'',
     de_DestructiveExternal = ''declared'', de_LocalAuthorization = ''unrecorded'', de_AdapterMode = ''read_only'',
     de_WorktreeIsolation = ''not_isolated'', de_Autonomy = \<lparr>au_Deadline = None, au_AttemptCap = None\<rparr>\<rparr>"

definition budget_declarations :: GrillDeclarations where
  "budget_declarations = \<lparr>de_ObservableOutcome = ''declared'', de_ScopeCompatibility = ''declared'', de_AcceptanceEvidence = ''declared'',
     de_DestructiveExternal = ''none'', de_LocalAuthorization = ''not_required'', de_AdapterMode = ''none'',
     de_WorktreeIsolation = ''not_applicable'', de_Autonomy = \<lparr>au_Deadline = None, au_AttemptCap = Some 3\<rparr>\<rparr>"

definition scope_declarations :: GrillDeclarations where
  "scope_declarations = budget_declarations\<lparr>de_ScopeCompatibility := ''absent'',
     de_Autonomy := \<lparr>au_Deadline = Some ''2026-01-02T03:04:05Z'', au_AttemptCap = Some 3\<rparr>\<rparr>"

definition grill_demo :: "GrillDeclarations \<Rightarrow> GrillInput" where
  "grill_demo d = \<lparr>gn_SchemaVersion = GrillInputSchemaVersion, gn_ProposalID = demo_pid, gn_Revision = 1,
     gn_RevisionHash = demo_hash, gn_Declarations = d\<rparr>"

definition grill_demo_request :: "GrillDeclarations \<Rightarrow> GrillEvaluationRequest" where
  "grill_demo_request d = \<lparr>gq_Input = grill_demo d, gq_InputHash = body_hash (grillInputCanonicalValue (grill_demo d)),
     gq_RuleVersion = GrillRuleVersion\<rparr>"

definition grill_demo_identity :: GrillRevisionIdentity where
  "grill_demo_identity = \<lparr>gi_ProposalID = demo_pid, gi_Revision = 1, gi_RevisionHash = demo_hash\<rparr>"

definition grill_demo_db :: GrillDB where
  "grill_demo_db = \<lparr>gd_proposals = demo_created_db, grill_evaluations = [], grill_records = []\<rparr>"

lemma grill_demo_reachable: "grill_reachable grill_demo_db"
proof -
  have "proposal_step emptyProposals demo_created_db" by (rule proposal_step.create [OF demo_created])
  then have "grill_step emptyGrill (emptyGrill\<lparr>gd_proposals := demo_created_db\<rparr>)"
    by (intro grill_step.proposal) (simp add: emptyGrill_def)
  then show ?thesis by (simp add: grill_demo_db_def emptyGrill_def r_into_rtranclp)
qed

lemma grill_demo_hash: "grillHashPattern demo_hash"
  by (simp add: demo_hash_def grillHashPattern_def HasPrefix_def length_hex_encode hex_encode_lower)

lemma deadline_ok: "grillTimestampPattern ''2026-01-02T03:04:05Z''" "timeParses ''2026-01-02T03:04:05Z''"
  by code_simp+

lemma grill_demo_valid:
  assumes "d \<in> {bare_declarations, budget_declarations, scope_declarations}"
  shows "validateGrillInput (grill_demo d) = Inr ()"
  using assms grill_demo_hash deadline_ok
  by (auto simp: validateGrillInput_def grill_demo_def bare_declarations_def budget_declarations_def scope_declarations_def
      grillOneOf_def demo_pid_def ident_simps Let_def)

lemma grill_demo_ident: "gi_ident (input_identity (grill_demo d)) = (demo_pid, 1, demo_hash)" "gi_ident grill_demo_identity = (demo_pid, 1, demo_hash)"
  by (simp_all add: grill_demo_def input_identity_def gi_ident_def grill_demo_identity_def)

lemma grill_demo_acceptable:
  assumes "d \<in> {bare_declarations, budget_declarations, scope_declarations}" "gd_proposals db = demo_created_db"
  shows "acceptable (grill_demo_request d) db"
  using grill_demo_valid [OF assms(1)] valid_input_json [OF grill_demo_valid [OF assms(1)]] assms(2)
  by (simp add: acceptable_iff grill_demo_request_def HashGrillInput_def body_hash grill_demo_ident demo_created_db_def rv_ident_def)

subsection \<open>The rules triggered\<close>

lemma demo_active:
  "activeRules (grill_demo bare_declarations) {} = grillRules"
  "activeRules (grill_demo budget_declarations) {} = drop 5 grillRules"
  "activeRules (grill_demo scope_declarations) {} = [grillRules ! 1]"
  by (simp_all add: activeRules_def grillRules_def grill_rule_def grillRuleTriggered_def grill_demo_def bare_declarations_def
      budget_declarations_def scope_declarations_def)

lemma demo_new:
  "newRules {} 0 grillRules = take 5 grillRules"
  "newRules (gl_Class ` set (take 5 grillRules)) 5 (drop 5 grillRules) = drop 5 grillRules"
  "newRules (gl_Class ` set grillRules) 6 grillRules = []"
  "length (shownRules (gl_Class ` set grillRules) 6 grillRules) = 6"
  "newRules {} 0 [grillRules ! 1] = [grillRules ! 1]"
  by code_simp+

subsection \<open>Evaluating one declaration after another\<close>

text \<open>A journal of the demonstration proposal that is reachable, with the classes asked so far and their number.\<close>

definition reviewing :: "string set \<Rightarrow> nat \<Rightarrow> GrillDB \<Rightarrow> bool" where
  "reviewing A n db \<longleftrightarrow> grill_reachable db \<and> gd_proposals db = demo_created_db
     \<and> asked (demo_pid, 1, demo_hash) (grill_records db) = A \<and> length (question_rows (demo_pid, 1, demo_hash) (grill_records db)) = n
     \<and> \<not> scope_waived (demo_pid, 1, demo_hash) (grill_records db)"

lemma reviewing_start: "reviewing {} 0 grill_demo_db"
  using grill_demo_reachable
  by (simp add: reviewing_def) (simp add: grill_demo_db_def asked_def question_rows_def scope_waived_def)

lemma reviewing_step:
  assumes rev: "reviewing A n db" and d: "d \<in> {bare_declarations, budget_declarations, scope_declarations}"
    and new: "new = newRules A (int n) (activeRules (grill_demo d) {})"
  obtains res db' where "EvaluateGrill clock (grill_demo_request d) db = Inr (res, db')"
    "reviewing (A \<union> gl_Class ` set new) (n + length new) db'"
    "ge_ShownQuestionIDs res = map (\<lambda>r. grillQuestionID (gl_Class r)) (shownRules A (int n) (activeRules (grill_demo d) {}))"
proof -
  let ?k = "(demo_pid, 1, demo_hash)" and ?t = "grill_records db" and ?i = "grill_demo d"
  have inv: "grill_inv db" and reach: "grill_reachable db" and waived: "waived_rules ?k ?t = {}"
    using rev grill_reachable_inv by (auto simp: reviewing_def waived_rules_def)
  then have ok: "records_ok ?t" by (simp add: grill_inv_def)
  have acc: "acceptable (grill_demo_request d) db" using rev d by (intro grill_demo_acceptable) (auto simp: reviewing_def)
  obtain es ns where run: "EvaluateGrill clock (grill_demo_request d) db =
      Inr ((verdict ?i ?t)\<lparr>ge_InputHash := gq_InputHash (grill_demo_request d), ge_NewRecords := int (length es + length ns)\<rparr>,
        db\<lparr>grill_evaluations := grill_evaluations db @ es, grill_records := ?t @ ns\<rparr>)"
    and ns: "new_questions ?i ?t ns"
    using EvaluateGrill_exact [OF ok acc, of clock] by (simp add: grill_demo_request_def) metis
  let ?db = "db\<lparr>grill_evaluations := grill_evaluations db @ es, grill_records := ?t @ ns\<rparr>"
  note after = new_questions_asked [OF ns, unfolded grill_demo_ident waived]
  have "grill_reachable ?db" using reach grill_step.evaluate [OF run] by (rule rtranclp.rtrancl_into_rtrancl)
  moreover have "\<not> scope_waived ?k (?t @ ns)" using after(3) by (auto simp: waived_rules_def split: if_splits)
  ultimately have "reviewing (A \<union> gl_Class ` set new) (n + length new) ?db"
    using rev after(1,2) new by (simp add: reviewing_def)
  moreover have "ge_ShownQuestionIDs (verdict ?i ?t) = map (\<lambda>r. grillQuestionID (gl_Class r)) (shownRules A (int n) (activeRules ?i {}))"
    using rev waived by (simp add: verdict_def outcome_def grill_demo_ident reviewing_def)
  ultimately show ?thesis using that [OF run] by simp
qed

lemma reviewing_next:
  assumes "reviewing A n db" "d \<in> {bare_declarations, budget_declarations, scope_declarations}"
    and "newRules A (int n) (activeRules (grill_demo d) {}) = new" "A \<union> gl_Class ` set new = A'" "n + length new = n'"
  shows "\<exists>res db'. EvaluateGrill clock (grill_demo_request d) db = Inr (res, db') \<and> reviewing A' n' db'
    \<and> ge_ShownQuestionIDs res = map (\<lambda>r. grillQuestionID (gl_Class r)) (shownRules A (int n) (activeRules (grill_demo d) {}))"
  using reviewing_step [OF assms(1,2) assms(3) [symmetric]] assms(4,5) by metis

lemma reviewing_six: "\<exists>db. reviewing (gl_Class ` set grillRules) 6 db"
proof -
  have "\<exists>res db'. EvaluateGrill (\<lambda>_. demo_now) (grill_demo_request bare_declarations) grill_demo_db = Inr (res, db')
      \<and> reviewing (gl_Class ` set (take 5 grillRules)) 5 db' \<and> ge_ShownQuestionIDs res =
        map (\<lambda>r. grillQuestionID (gl_Class r)) (shownRules {} (int 0) (activeRules (grill_demo bare_declarations) {}))"
    by (rule reviewing_next [OF reviewing_start, where new = "take 5 grillRules"]) (simp_all add: demo_active demo_new(1) grill_rules_table(2))
  then obtain db1 where one: "reviewing (gl_Class ` set (take 5 grillRules)) 5 db1" by blast
  have rules: "gl_Class ` set (take 5 grillRules) \<union> gl_Class ` set (drop 5 grillRules) = gl_Class ` set grillRules"
    by (metis append_take_drop_id image_Un set_append)
  have "\<exists>res db'. EvaluateGrill (\<lambda>_. demo_now) (grill_demo_request budget_declarations) db1 = Inr (res, db')
      \<and> reviewing (gl_Class ` set grillRules) 6 db' \<and> ge_ShownQuestionIDs res =
        map (\<lambda>r. grillQuestionID (gl_Class r)) (shownRules (gl_Class ` set (take 5 grillRules)) (int 5) (activeRules (grill_demo budget_declarations) {}))"
    by (rule reviewing_next [OF one _ _ rules]) (simp_all add: demo_active demo_new(2) grill_rules_table(2))
  then show ?thesis by blast
qed

end
