(* ===== verification/Grill_Properties.thy ===== *)
theory Grill_Properties
  imports Grill_Demo
begin

section \<open>Properties of the Grill review\<close>

text \<open>
  The properties of \<^verbatim>\<open>src/internal/store/grill.go\<close>: the journal invariant, the bounds of the evaluator,
  the errors of an evaluation, repeatability, what a clear verdict means, the operator actions and the
  listing.
\<close>

lemma demo_step:
  obtains res db where "EvaluateGrill clock (grill_demo_request scope_declarations) grill_demo_db = Inr (res, db)"
    "reviewing {''scope_compatibility''} 1 db"
proof -
  have "gl_Class (grillRules ! 1) = ''scope_compatibility''" by code_simp
  then have "\<exists>res db'. EvaluateGrill clock (grill_demo_request scope_declarations) grill_demo_db = Inr (res, db')
      \<and> reviewing {''scope_compatibility''} 1 db' \<and> ge_ShownQuestionIDs res =
        map (\<lambda>r. grillQuestionID (gl_Class r)) (shownRules {} (int 0) (activeRules (grill_demo scope_declarations) {}))"
    by (intro reviewing_next [OF reviewing_start, where new = "[grillRules ! 1]"]) (simp_all add: demo_active demo_new(5) [unfolded One_nat_def])
  then show ?thesis using that by blast
qed

subsection \<open>The journal\<close>

text \<open>C8: In every reachable journal records and questions are numbered from 1 without gaps, every question is the
  image of a rule asked at most once, every action answers an asked question and every row belongs to a stored
  revision; a revision has at most six questions; whatever happens later, both tables keep their rows as a
  prefix and the proposals evolve only as the proposal operations allow.\<close>

theorem grill_journal_invariant:
  assumes "grill_reachable db" and "grill_step\<^sup>*\<^sup>* db db'"
  shows "grill_inv db' \<and> length (question_rows k (grill_records db')) \<le> 6
     \<and> prefix (grill_records db) (grill_records db') \<and> prefix (grill_evaluations db) (grill_evaluations db')
     \<and> db_evolves (gd_proposals db) (gd_proposals db')"
proof -
  have inv: "grill_inv db' \<and> grill_extends db db' \<and> db_evolves (gd_proposals db) (gd_proposals db')"
    by (rule grill_steps_inv [OF assms(2) grill_reachable_inv [OF assms(1)]])
  then have "records_ok (grill_records db')" by (simp add: grill_inv_def)
  then show ?thesis using inv question_count by (simp add: grill_extends_def)
qed

theorem grill_journal_invariant_witness:
  "\<exists>db. grill_step\<^sup>*\<^sup>* grill_demo_db db \<and> grill_inv db \<and> length (question_rows (demo_pid, 1, demo_hash) (grill_records db)) = 1
     \<and> length (question_rows (demo_pid, 1, demo_hash) (grill_records db)) \<le> 6"
proof -
  obtain res db where run: "EvaluateGrill (\<lambda>_. demo_now) (grill_demo_request scope_declarations) grill_demo_db = Inr (res, db)"
    and one: "reviewing {''scope_compatibility''} 1 db" by (rule demo_step)
  have step: "grill_step\<^sup>*\<^sup>* grill_demo_db db" by (rule r_into_rtranclp) (rule grill_step.evaluate [OF run])
  show ?thesis
    using grill_journal_invariant [OF grill_demo_reachable step, of "(demo_pid, 1, demo_hash)"] step one
    by (intro exI [of _ db]) (simp add: reviewing_def)
qed

subsection \<open>Evaluation\<close>

text \<open>C32: An evaluation of a reachable journal fails only for the documented reasons, in the order of the code: an
  invalid declaration, another rule version, a revision that is not stored, a wrong input hash.  It never
  fails on a constraint of the tables, and every valid declaration has a hash.\<close>

theorem EvaluateGrill_errors:
  assumes "grill_reachable db"
  shows "EvaluateGrill clock request db = Inl e \<longleftrightarrow>
     (if validateGrillInput (gq_Input request) \<noteq> Inr () then validateGrillInput (gq_Input request) = Inl e
      else if gq_RuleVersion request \<noteq> GrillRuleVersion then e = ErrGrillRuleVersion
      else if gi_ident (input_identity (gq_Input request)) \<notin> rv_ident ` set (task_proposal_revisions (gd_proposals db))
      then e = ErrGrillRevisionMismatch
      else HashGrillInput (gq_Input request) \<noteq> Inr (gq_InputHash request) \<and> e = ErrGrillInputHashMismatch)"
proof (cases "acceptable request db")
  case True
  have "records_ok (grill_records db)" using grill_reachable_inv [OF assms] by (simp add: grill_inv_def)
  then obtain r where "EvaluateGrill clock request db = Inr r" by (rule EvaluateGrill_exact [OF _ True])
  then show ?thesis using True by (simp add: acceptable_def identity_exists)
next
  case bad: False
  show ?thesis
  proof (cases "validateGrillInput (gq_Input request)")
    case (Inl e')
    then show ?thesis by (auto simp: EvaluateGrill_def Let_def)
  next
    case (Inr u)
    then obtain h where h: "HashGrillInput (gq_Input request) = Inr h" using HashGrillInput_total by fastforce
    then have "EvaluateGrill clock request db = Inl e \<longleftrightarrow>
        andThen (ensure (gq_RuleVersion request = GrillRuleVersion) ErrGrillRuleVersion) (\<lambda>_.
        andThen (validateGrillRevisionIdentity db (input_identity (gq_Input request))) (\<lambda>_.
        ensure (gq_InputHash request = h) ErrGrillInputHashMismatch)) = Inl e"
      using bad Inr by (auto simp: EvaluateGrill_def Let_def acceptable_def andThen_Inl)
    then show ?thesis using bad Inr h by (auto simp: identity_ensure acceptable_iff andThen_Inl)
  qed
qed

theorem EvaluateGrill_errors_witness:
  "EvaluateGrill (\<lambda>_. demo_now) ((grill_demo_request scope_declarations)\<lparr>gq_RuleVersion := ''v0''\<rparr>) grill_demo_db = Inl ErrGrillRuleVersion"
  using EvaluateGrill_errors [OF grill_demo_reachable, of "\<lambda>_. demo_now" "(grill_demo_request scope_declarations)\<lparr>gq_RuleVersion := ''v0''\<rparr>"
      ErrGrillRuleVersion] grill_demo_valid [of scope_declarations]
  by (simp add: grill_demo_request_def GrillRuleVersion_def)



text \<open>Five is not a bound on the questions shown: a reachable review has all six rules asked and a declaration that
  triggers all of them, and the evaluation then shows six questions.\<close>

theorem six_questions_shown:
  "\<exists>db clock request res db'. grill_reachable db \<and> EvaluateGrill clock request db = Inr (res, db')
     \<and> length (ge_ShownQuestionIDs res) = 6"
proof -
  obtain db where six: "reviewing (gl_Class ` set grillRules) 6 db" using reviewing_six by blast
  have "\<exists>res db'. EvaluateGrill (\<lambda>_. demo_now) (grill_demo_request bare_declarations) db = Inr (res, db')
      \<and> reviewing (gl_Class ` set grillRules) 6 db' \<and> ge_ShownQuestionIDs res =
        map (\<lambda>r. grillQuestionID (gl_Class r)) (shownRules (gl_Class ` set grillRules) (int 6) (activeRules (grill_demo bare_declarations) {}))"
    by (rule reviewing_next [OF six, where new = "[]"]) (simp_all add: demo_active demo_new(3))
  then obtain res db' where run: "EvaluateGrill (\<lambda>_. demo_now) (grill_demo_request bare_declarations) db = Inr (res, db')"
    and "ge_ShownQuestionIDs res = map (\<lambda>r. grillQuestionID (gl_Class r)) (shownRules (gl_Class ` set grillRules) 6 grillRules)"
    by (auto simp: demo_active)
  then have "length (ge_ShownQuestionIDs res) = 6" using demo_new(4) by simp
  moreover have "grill_reachable db" using six by (simp add: reviewing_def)
  ultimately show ?thesis using run by blast
qed

text \<open>An evaluation can be repeated: evaluating the same request on the journal it left gives the same verdict with
  the same questions shown and deferred, asks nothing new and writes nothing.  The proposal tables are not
  touched by either.\<close>

theorem evaluation_repeatable:
  assumes "grill_reachable db" and "EvaluateGrill clock request db = Inr (res, db')"
  shows "EvaluateGrill clock' request db' = Inr (res\<lparr>ge_NewQuestionIDs := [], ge_NewRecords := 0\<rparr>, db')
     \<and> gd_proposals db' = gd_proposals db"
proof -
  have inv: "grill_inv db" by (rule grill_reachable_inv [OF assms(1)])
  then have ok: "records_ok (grill_records db)" by (simp add: grill_inv_def)
  have acc: "acceptable request db" by (rule EvaluateGrill_guards [OF assms(2)])
  obtain es ns where res: "res = (verdict (gq_Input request) (grill_records db))\<lparr>ge_InputHash := gq_InputHash request, ge_NewRecords := int (length es + length ns)\<rparr>"
    and db': "db' = db\<lparr>grill_evaluations := grill_evaluations db @ es, grill_records := grill_records db @ ns\<rparr>"
    and es: "new_evaluations request db es" and ns: "new_questions (gq_Input request) (grill_records db) ns"
    by (rule EvaluateGrill_result [OF ok assms(2)])
  have ok': "records_ok (grill_records db')" using ns by (simp add: db' new_questions_def)
  have acc': "acceptable request db'" using acc by (simp add: acceptable_iff db')
  obtain es' ns' where run: "EvaluateGrill clock' request db' =
      Inr ((verdict (gq_Input request) (grill_records db'))\<lparr>ge_InputHash := gq_InputHash request, ge_NewRecords := int (length es' + length ns')\<rparr>,
        db'\<lparr>grill_evaluations := grill_evaluations db' @ es', grill_records := grill_records db' @ ns'\<rparr>)"
    and es': "new_evaluations request db' es'" and ns': "new_questions (gq_Input request) (grill_records db') ns'"
    by (rule EvaluateGrill_exact [OF ok' acc'])
  have again: "verdict (gq_Input request) (grill_records db') = (verdict (gq_Input request) (grill_records db))\<lparr>ge_NewQuestionIDs := []\<rparr>"
    using verdict_again [OF ok ns] by (simp add: db')
  then have "ns' = []" using new_questions_none [OF ns'] by simp
  moreover have "es' = []" using es es' by (auto simp: new_evaluations_def db' split: if_splits)
  ultimately have "EvaluateGrill clock' request db' = Inr (res\<lparr>ge_NewQuestionIDs := [], ge_NewRecords := 0\<rparr>, db')"
    using run by (simp add: again res)
  then show ?thesis by (simp add: db')
qed

theorem evaluation_repeatable_witness:
  "\<exists>res db. EvaluateGrill (\<lambda>_. demo_now) (grill_demo_request scope_declarations) grill_demo_db = Inr (res, db)
     \<and> EvaluateGrill (\<lambda>_. demo_now) (grill_demo_request scope_declarations) db = Inr (res\<lparr>ge_NewQuestionIDs := [], ge_NewRecords := 0\<rparr>, db)"
proof -
  obtain res db where run: "EvaluateGrill (\<lambda>_. demo_now) (grill_demo_request scope_declarations) grill_demo_db = Inr (res, db)"
    by (rule demo_step)
  then show ?thesis using evaluation_repeatable [OF grill_demo_reachable run] by blast
qed

text \<open>C31: A verdict of a reachable journal is never a rewrite, and it is clear exactly when the outcome and the acceptance
  evidence are declared, destructive or external work is authorized, an adapter works in an isolated worktree,
  the autonomy budget has a deadline and an attempt cap, and the scope is declared or was waived by a recorded
  override.  No other rule can be waived.\<close>

theorem clear_means_declared:
  assumes "grill_reachable db" and "EvaluateGrill clock request db = Inr (res, db')"
  defines "d \<equiv> gn_Declarations (gq_Input request)"
  shows "ge_Status res \<noteq> GrillStatusNeedsRewrite \<and>
     (ge_Status res = GrillStatusClear \<longleftrightarrow>
        de_ObservableOutcome d = ''declared'' \<and> de_AcceptanceEvidence d = ''declared''
      \<and> (de_ScopeCompatibility d = ''declared'' \<or>
          (\<exists>v \<in> set (grill_records db). gr_ident v = gi_ident (input_identity (gq_Input request)) \<and> gr_SchemaVersion v = GrillOverrideSchemaVersion))
      \<and> (de_DestructiveExternal d \<noteq> ''declared'' \<or> de_LocalAuthorization d = ''recorded'')
      \<and> (de_AdapterMode d = ''none'' \<or> de_WorktreeIsolation d = ''isolated'')
      \<and> au_Deadline (de_Autonomy d) \<noteq> None \<and> au_AttemptCap (de_Autonomy d) \<noteq> None)"
proof -
  have "records_ok (grill_records db)" using grill_reachable_inv [OF assms(1)] by (simp add: grill_inv_def)
  then have status: "ge_Status res = ge_Status (verdict (gq_Input request) (grill_records db))"
    by (rule EvaluateGrill_result [OF _ assms(2)]) simp
  show ?thesis unfolding status verdict_status d_def scope_waived_def [symmetric] active_none [symmetric] by simp
qed

theorem clear_means_declared_witness:
  "\<exists>res db. EvaluateGrill (\<lambda>_. demo_now) (grill_demo_request scope_declarations) grill_demo_db = Inr (res, db)
     \<and> ge_Status res \<noteq> GrillStatusNeedsRewrite \<and> ge_Status res \<noteq> GrillStatusClear"
proof -
  obtain res db where run: "EvaluateGrill (\<lambda>_. demo_now) (grill_demo_request scope_declarations) grill_demo_db = Inr (res, db)"
    by (rule demo_step)
  then show ?thesis using clear_means_declared [OF grill_demo_reachable run]
    by (intro exI [of _ res] exI [of _ db])
      (simp add: grill_demo_request_def grill_demo_def scope_declarations_def budget_declarations_def grill_demo_db_def)
qed

subsection \<open>Operator actions\<close>

text \<open>C33: An operator action on a reachable journal is accepted exactly when the revision is stored and the question was
  asked of it, and an override only for the scope rule; it then adds at most one record and nothing else, and
  repeating it is accepted, reports no new record and changes nothing.\<close>

theorem operator_actions:
  assumes "grill_reachable db"
    and "(schema, act) \<in> {(GrillDefaultSchemaVersion, RecordGrillDefault), (GrillAnswerSchemaVersion, RecordGrillAnswer),
      (GrillOverrideSchemaVersion, RecordGrillOverride)}"
  shows "((\<exists>r. act now identity questionID db = Inr r) \<longleftrightarrow>
      gi_ident identity \<in> rv_ident ` set (task_proposal_revisions (gd_proposals db))
    \<and> (\<exists>q \<in> set (question_rows (gi_ident identity) (grill_records db)). gr_QuestionID q = Some questionID)
    \<and> (schema = GrillOverrideSchemaVersion \<longrightarrow> questionID = grillQuestionID ''scope_compatibility''))
    \<and> (\<forall>new db'. act now identity questionID db = Inr (new, db') \<longrightarrow>
         act now' identity questionID db' = Inr (False, db')
       \<and> (\<exists>ns. db' = db\<lparr>grill_records := grill_records db @ ns\<rparr> \<and> length ns = (if new then 1 else 0)
            \<and> (\<forall>n \<in> set ns. gr_ident n = gi_ident identity \<and> gr_SchemaVersion n = schema \<and> gr_QuestionID n = Some questionID)))"
proof -
  have act: "act now identity questionID = recordGrillOperatorAction now identity questionID schema" for now
    using assms(2) by (auto simp: RecordGrillDefault_def RecordGrillAnswer_def RecordGrillOverride_def)
  have schema: "schema \<in> action_schemas" using assms(2) by (auto simp: action_schemas_def)
  have ok: "records_ok (grill_records db)" using grill_reachable_inv [OF assms(1)] by (simp add: grill_inv_def)
  have "(\<exists>r. recordGrillOperatorAction now identity questionID schema db = Inr r) \<longleftrightarrow>
      (\<exists>c. questionID = grillQuestionID c \<and> actionable identity c schema db)"
    using action_guards [OF ok, of now identity questionID schema] action_exact [OF ok, of identity _ schema now] by metis
  also have "\<dots> \<longleftrightarrow> gi_ident identity \<in> rv_ident ` set (task_proposal_revisions (gd_proposals db))
    \<and> (\<exists>q \<in> set (question_rows (gi_ident identity) (grill_records db)). gr_QuestionID q = Some questionID)
    \<and> (schema = GrillOverrideSchemaVersion \<longrightarrow> questionID = grillQuestionID ''scope_compatibility'')"
    using asked_question_iff [OF ok, of "gi_ident identity" questionID] schema
    by (auto simp: actionable_def identity_exists)
  finally have iff: "(\<exists>r. recordGrillOperatorAction now identity questionID schema db = Inr r) \<longleftrightarrow> \<dots>" .
  have "recordGrillOperatorAction now' identity questionID schema db' = Inr (False, db')
       \<and> (\<exists>ns. db' = db\<lparr>grill_records := grill_records db @ ns\<rparr> \<and> length ns = (if new then 1 else 0)
            \<and> (\<forall>n \<in> set ns. gr_ident n = gi_ident identity \<and> gr_SchemaVersion n = schema \<and> gr_QuestionID n = Some questionID))"
    if run: "recordGrillOperatorAction now identity questionID schema db = Inr (new, db')" for new db'
    by (rule action_repeat [OF ok run])
  then show ?thesis unfolding act using iff by blast
qed

theorem operator_actions_witness:
  "\<exists>db. grill_reachable db \<and> (\<exists>r. RecordGrillOverride demo_now grill_demo_identity (grillQuestionID ''scope_compatibility'') db = Inr r)
     \<and> \<not> (\<exists>r. RecordGrillOverride demo_now grill_demo_identity (grillQuestionID ''autonomy_budget'') db = Inr r)"
proof -
  obtain res db where one: "reviewing {''scope_compatibility''} 1 db" by (rule demo_step)
  then have reach: "grill_reachable db" and asked: "asked (demo_pid, 1, demo_hash) (grill_records db) = {''scope_compatibility''}"
    and stored: "(demo_pid, 1, demo_hash) \<in> rv_ident ` set (task_proposal_revisions (gd_proposals db))"
    by (auto simp: reviewing_def demo_created_db_def rv_ident_def)
  have ok: "records_ok (grill_records db)" using grill_reachable_inv [OF reach] by (simp add: grill_inv_def)
  have "\<exists>q \<in> set (question_rows (demo_pid, 1, demo_hash) (grill_records db)). gr_QuestionID q = Some (grillQuestionID ''scope_compatibility'')"
    unfolding asked_question_iff [OF ok] by (simp add: asked)
  then show ?thesis
    using operator_actions [OF reach, of GrillOverrideSchemaVersion RecordGrillOverride demo_now grill_demo_identity] reach stored
    by (intro exI [of _ db]) (simp add: grill_demo_ident)
qed

subsection \<open>Listing\<close>

text \<open>The listing of a revision is its stored rows in the order they were written, numbered from 1 without gaps; later
  steps only append to it.\<close>

theorem listing_exact:
  assumes "grill_reachable db" and "grill_step\<^sup>*\<^sup>* db db'"
  shows "ListGrillRecords identity db' = map scan_record (filter (\<lambda>r. gr_ident r = gi_ident identity) (grill_records db'))
     \<and> map go_RecordSequence (ListGrillRecords identity db') = map int [1..<Suc (length (ListGrillRecords identity db'))]
     \<and> prefix (ListGrillRecords identity db) (ListGrillRecords identity db')"
proof -
  have list: "ListGrillRecords identity s = map scan_record (filter (\<lambda>r. gr_ident r = gi_ident identity) (grill_records s))
      \<and> gapless 1 (map go_RecordSequence (ListGrillRecords identity s))" if "grill_inv s" for s
  proof -
    have g: "gapless 1 (map gr_RecordSequence (filter (\<lambda>r. gr_ident r = gi_ident identity) (grill_records s)))"
      using that records_okD(1) [of "grill_records s" "gi_ident identity"] by (simp add: grill_inv_def log_seqs_def)
    have "go_RecordSequence \<circ> scan_record = gr_RecordSequence" by (simp add: fun_eq_iff scan_record_def)
    then show ?thesis using g order_by_sorted [OF gapless_sorted [OF g]] by (simp add: ListGrillRecords_def)
  qed
  have inv: "grill_inv db" by (rule grill_reachable_inv [OF assms(1)])
  have inv': "grill_inv db'" and "prefix (grill_records db) (grill_records db')"
    using grill_steps_inv [OF assms(2) inv] by (simp_all add: grill_extends_def)
  then have "prefix (ListGrillRecords identity db) (ListGrillRecords identity db')"
    unfolding list [OF inv, THEN conjunct1] list [OF inv', THEN conjunct1] by (auto simp: prefix_def)
  moreover have "map go_RecordSequence (ListGrillRecords identity db') = map int [1..<Suc (length (ListGrillRecords identity db'))]"
    using list [OF inv', THEN conjunct2] by (auto simp: gapless_def intro!: nth_equalityI simp del: upt_Suc)
  ultimately show ?thesis using list [OF inv'] by blast
qed

theorem listing_exact_witness:
  "\<exists>db. grill_reachable db \<and> map go_RecordSequence (ListGrillRecords grill_demo_identity db) = map int [1..<Suc (length (ListGrillRecords grill_demo_identity db))]
     \<and> ListGrillRecords grill_demo_identity db \<noteq> []"
proof -
  obtain res db where one: "reviewing {''scope_compatibility''} 1 db" by (rule demo_step)
  then have reach: "grill_reachable db" and "length (question_rows (demo_pid, 1, demo_hash) (grill_records db)) = 1" by (auto simp: reviewing_def)
  then have "filter (\<lambda>r. gr_ident r = (demo_pid, 1, demo_hash)) (grill_records db) \<noteq> []"
    by (fastforce simp: question_rows_def length_Suc_conv filter_eq_Cons_iff filter_empty_conv)
  moreover note list = listing_exact [OF reach rtranclp.rtrancl_refl, of grill_demo_identity]
  ultimately have "ListGrillRecords grill_demo_identity db \<noteq> []" by (simp add: grill_demo_ident del: upt_Suc)
  with list reach show ?thesis by blast
qed

end
