(* ===== verification/Launch_Types.thy ===== *)
theory Launch_Types
  imports Grill_Rules Canonical_Parse
begin

section \<open>Launch specs and requests\<close>

text \<open>
  The data of \<^verbatim>\<open>src/internal/store/launch_admission.go\<close>: the closed launch declaration with its canonical
  value, validation and hash, the records of the admission tables, and the decoding of stored texts.
  Errors are the sentinels callers match with \<open>errors.Is\<close>, without their texts; \<open>ErrLaunchMsg\<close> is any other
  error and \<open>ErrLaunchConstraint\<close> a violated table constraint.
\<close>

datatype launch_error =
    ErrLaunchSpecInvalid
  | ErrLaunchSpecHashMismatch
  | ErrLaunchSpecNotFound
  | ErrLaunchSpecConflict
  | ErrLaunchApprovalIneligible
  | ErrLaunchClaimNotFound
  | ErrLaunchClaimAlreadyActive
  | ErrLaunchStaleFence
  | ErrLaunchMaterializationMismatch
  | ErrLaunchMaterializationNotReady
  | ErrLaunchMaterializationConflict
  | ErrLaunchRunIntentNotFound
  | ErrLaunchRunIntentConflict
  | ErrLaunchTerminalIntentConflict
  | ErrLaunchEvidenceIntentConflict
  | ErrLaunchRecordCorrupt
  | ErrLaunchMsg string
  | ErrLaunchConstraint

definition launchSpecSchemaVersion :: string where "launchSpecSchemaVersion = ''ananke.launch-spec.v1''"

record LaunchRevisionIdentity =
  lr_ProposalID :: string
  lr_Revision :: int
  lr_RevisionHash :: string

record LaunchModelSpec =
  lm_Provider :: string
  lm_Model :: string

record LaunchReadOnlyScope =
  ls_Access :: string
  ls_Retrieval :: string
  ls_ScopeFingerprint :: string
  ls_Writes :: string

record LaunchSealedContract =
  sc_MaterializationHash :: string
  sc_Nonce :: string

record LaunchHostSpec =
  hs_Capabilities :: "string list"
  hs_ExecutableRouteFingerprint :: string
  hs_HostSpecFingerprint :: string
  hs_RequiredFilesFingerprint :: string
  hs_TranscriptSourceFingerprint :: string
  hs_WorktreeLayoutFingerprint :: string

record LaunchTranscriptSpec =
  lt_Dialect :: string
  lt_DialectFingerprint :: string
  lt_Parse :: string

record LaunchVerificationSpec =
  lv_Kind :: string
  lv_VerificationCommandFingerprint :: string

record LaunchSpec =
  lp_SchemaVersion :: string
  lp_Revision :: LaunchRevisionIdentity
  lp_Model :: LaunchModelSpec
  lp_Deadline :: string
  lp_AttemptCap :: int
  lp_ReadOnlyScope :: LaunchReadOnlyScope
  lp_SealedContract :: LaunchSealedContract
  lp_HostSpec :: LaunchHostSpec
  lp_Transcript :: LaunchTranscriptSpec
  lp_Verification :: LaunchVerificationSpec

record LaunchApprovalEligibility =
  le_ApprovalID :: string
  le_ProposalID :: string
  le_Revision :: int
  le_RevisionHash :: string
  le_ApprovedAt :: stamp
  le_ApprovedBy :: string
  le_State :: ApprovalState

record LaunchAdmissionRequest =
  la_Spec :: LaunchSpec
  la_LaunchSpecHash :: string
  la_ApprovalID :: string

record StoredLaunchSpec =
  ss_Spec :: LaunchSpec
  ss_LaunchSpecHash :: string
  ss_Approval :: LaunchApprovalEligibility
  ss_CreatedAt :: stamp

record LaunchFence =
  lf_ClaimID :: string
  lf_ClaimTokenHash :: string
  lf_FenceGeneration :: int

text \<open>\<open>TaskClaimState\<close>, \<open>LaunchMaterializationState\<close> and \<open>LaunchStateFactKind\<close> have one value each.\<close>

datatype TaskClaimState = TaskClaimStateActive
datatype LaunchMaterializationState = LaunchMaterializationStateReady
datatype LaunchStateFactKind = LaunchStateFactCreated

record TaskClaim =
  tk_LaunchFence :: LaunchFence
  tk_Fence :: LaunchFence
  tk_LaunchSpecHash :: string
  tk_OwnerID :: string
  tk_Attempt :: int
  tk_State :: TaskClaimState
  tk_CreatedAt :: stamp

record LaunchClaimRequest =
  cq_LaunchSpecHash :: string
  cq_ClaimID :: string
  cq_ClaimTokenHash :: string
  cq_OwnerID :: string
  cq_Attempt :: int

record LaunchClaimReclaimRequest =
  rq_ExpectedFence :: LaunchFence
  rq_Claim :: LaunchClaimRequest

record LaunchMaterialization =
  mz_LaunchFence :: LaunchFence
  mz_LaunchSpecHash :: string
  mz_MaterializationID :: string
  mz_MaterializationHash :: string
  mz_Nonce :: string
  mz_State :: LaunchMaterializationState
  mz_CreatedAt :: stamp

record LaunchMaterializationRequest =
  mq_Fence :: LaunchFence
  mq_MaterializationID :: string
  mq_MaterializationHash :: string
  mq_Nonce :: string

record LaunchStateFact =
  sf_Kind :: LaunchStateFactKind
  sf_Sequence :: int
  sf_TokenHash :: string
  sf_WrittenAt :: stamp

record LaunchRunIntent =
  ri_LaunchFence :: LaunchFence
  ri_LaunchSpecHash :: string
  ri_MaterializationID :: string
  ri_RunID :: string
  ri_Attempt :: int
  ri_StateFact :: LaunchStateFact
  ri_CreatedAt :: stamp

record LaunchRunIntentRequest =
  iq_Fence :: LaunchFence
  iq_MaterializationID :: string
  iq_RunID :: string
  iq_Attempt :: int

record LaunchTerminalIntent =
  ti_LaunchFence :: LaunchFence
  ti_RunID :: string
  ti_IntentID :: string
  ti_CreatedAt :: stamp

record LaunchTerminalIntentRequest =
  tq_Fence :: LaunchFence
  tq_RunID :: string
  tq_IntentID :: string

record LaunchEvidenceIntent =
  ei_LaunchFence :: LaunchFence
  ei_RunID :: string
  ei_IntentID :: string
  ei_State :: string
  ei_CreatedAt :: stamp

record LaunchEvidenceIntentRequest =
  eq_Fence :: LaunchFence
  eq_RunID :: string
  eq_IntentID :: string

datatype LaunchOutboxState =
    LaunchOutboxPendingMaterialization
  | LaunchOutboxPendingRunAdmission
  | LaunchOutboxPendingProcessAdmission

record LaunchOutbox =
  lo_LaunchFence :: LaunchFence
  lo_LaunchSpecHash :: string
  lo_OutboxID :: string
  lo_Sequence :: int
  lo_State :: LaunchOutboxState
  lo_CreatedAt :: stamp

datatype LaunchRecoveryAction =
    LaunchRecoveryRetryMaterialization
  | LaunchRecoveryRetryRunAdmission
  | LaunchRecoveryRetryProcessAdmission

record LaunchRecoveryBoundary =
  lb_LaunchSpecHash :: string
  lb_Claim :: TaskClaim
  lb_Outbox :: LaunchOutbox
  lb_Materialization :: "LaunchMaterialization option"
  lb_RunIntent :: "LaunchRunIntent option"
  lb_TerminalIntent :: "LaunchTerminalIntent option"
  lb_EvidenceIntent :: "LaunchEvidenceIntent option"
  lb_Action :: LaunchRecoveryAction

text \<open>\<open>Boundary\<close> and \<open>Cause\<close> exclude each other: the result is one or the other.\<close>

record LaunchRecoveryResult =
  lx_LaunchSpecHash :: string
  lx_Boundary :: "LaunchRecoveryBoundary option"
  lx_Cause :: "launch_error option"

subsection \<open>Canonical value, validation and hash\<close>

definition launchHostSpecCanonicalValue :: "LaunchHostSpec \<Rightarrow> bool \<Rightarrow> json" where
  "launchHostSpecCanonicalValue h includeFingerprint = JObj (
     [(''capabilities'', jstrings (hs_Capabilities h)),
      (''executable_route_fingerprint'', JStr (hs_ExecutableRouteFingerprint h)),
      (''required_files_fingerprint'', JStr (hs_RequiredFilesFingerprint h)),
      (''transcript_source_fingerprint'', JStr (hs_TranscriptSourceFingerprint h)),
      (''worktree_layout_fingerprint'', JStr (hs_WorktreeLayoutFingerprint h))]
     @ (if includeFingerprint then [(''host_spec_fingerprint'', JStr (hs_HostSpecFingerprint h))] else []))"

definition launchSpecCanonicalValue :: "LaunchSpec \<Rightarrow> json" where
  "launchSpecCanonicalValue s = JObj
     [(''schema_version'', JStr (lp_SchemaVersion s)),
      (''revision'', JObj
        [(''proposal_id'', JStr (lr_ProposalID (lp_Revision s))),
         (''revision'', JInt (lr_Revision (lp_Revision s))),
         (''revision_hash'', JStr (lr_RevisionHash (lp_Revision s)))]),
      (''model'', JObj
        [(''provider'', JStr (lm_Provider (lp_Model s))),
         (''model'', JStr (lm_Model (lp_Model s)))]),
      (''deadline'', JStr (lp_Deadline s)),
      (''attempt_cap'', JInt (lp_AttemptCap s)),
      (''read_only_scope'', JObj
        [(''access'', JStr (ls_Access (lp_ReadOnlyScope s))),
         (''retrieval'', JStr (ls_Retrieval (lp_ReadOnlyScope s))),
         (''scope_fingerprint'', JStr (ls_ScopeFingerprint (lp_ReadOnlyScope s))),
         (''writes'', JStr (ls_Writes (lp_ReadOnlyScope s)))]),
      (''sealed_contract'', JObj
        [(''materialization_hash'', JStr (sc_MaterializationHash (lp_SealedContract s))),
         (''nonce'', JStr (sc_Nonce (lp_SealedContract s)))]),
      (''host_spec'', launchHostSpecCanonicalValue (lp_HostSpec s) True),
      (''transcript'', JObj
        [(''dialect'', JStr (lt_Dialect (lp_Transcript s))),
         (''dialect_fingerprint'', JStr (lt_DialectFingerprint (lp_Transcript s))),
         (''parse'', JStr (lt_Parse (lp_Transcript s)))]),
      (''verification'', JObj
        [(''kind'', JStr (lv_Kind (lp_Verification s))),
         (''verification_command_fingerprint'', JStr (lv_VerificationCommandFingerprint (lp_Verification s)))])]"

text \<open>The three patterns are those of Grill, the second with another prefix.\<close>

definition launchHashPattern :: "string \<Rightarrow> bool" where
  "launchHashPattern s \<longleftrightarrow> HasPrefix s ''sha256:'' \<and> length s = 71 \<and> list_all is_lower_hex (drop 7 s)"

definition launchNoncePattern :: "string \<Rightarrow> bool" where
  "launchNoncePattern s \<longleftrightarrow> HasPrefix s ''nonce:'' \<and> length s = 70 \<and> list_all is_lower_hex (drop 6 s)"

definition launchTimestampPattern :: "string \<Rightarrow> bool" where
  "launchTimestampPattern s \<longleftrightarrow> grillTimestampPattern s"

definition wantCapabilities :: "string list" where
  "wantCapabilities = [''bounded_cancellation'', ''read_only_retrieval'', ''reconnect_recovery'', ''shape_only_transcript'', ''verification'']"

text \<open>Each early return of \<open>validateLaunchSpec\<close> gives the same sentinel, so the checks are one conjunction.\<close>

definition host_fingerprint_bound :: "LaunchHostSpec \<Rightarrow> bool" where
  "host_fingerprint_bound h \<longleftrightarrow>
     (case canonicalJSONHash (launchHostSpecCanonicalValue h False) of
        Inl e \<Rightarrow> False
      | Inr hostHash \<Rightarrow> launchHashPattern (hs_HostSpecFingerprint h) \<and> hs_HostSpecFingerprint h = hostHash)"

definition validateLaunchSpec :: "LaunchSpec \<Rightarrow> launch_error + unit" where
  "validateLaunchSpec s =
     (let h = lp_HostSpec s; o' = lp_ReadOnlyScope s; t = lp_Transcript s; v = lp_Verification s in
      ensure (lp_SchemaVersion s = launchSpecSchemaVersion
        \<and> ident_pattern 63 (lr_ProposalID (lp_Revision s))
        \<and> 1 \<le> lr_Revision (lp_Revision s)
        \<and> launchHashPattern (lr_RevisionHash (lp_Revision s))
        \<and> ident_pattern 63 (lm_Provider (lp_Model s))
        \<and> ident_pattern 63 (lm_Model (lp_Model s))
        \<and> launchTimestampPattern (lp_Deadline s) \<and> timeParses (lp_Deadline s)
        \<and> 1 \<le> lp_AttemptCap s \<and> lp_AttemptCap s \<le> 100
        \<and> ls_Access o' = ''read_only'' \<and> ls_Retrieval o' = ''sealed_contract_only'' \<and> ls_Writes o' = ''forbidden''
        \<and> launchHashPattern (ls_ScopeFingerprint o')
        \<and> launchHashPattern (sc_MaterializationHash (lp_SealedContract s)) \<and> launchNoncePattern (sc_Nonce (lp_SealedContract s))
        \<and> hs_Capabilities h = wantCapabilities
        \<and> launchHashPattern (hs_ExecutableRouteFingerprint h) \<and> launchHashPattern (hs_RequiredFilesFingerprint h)
        \<and> launchHashPattern (hs_TranscriptSourceFingerprint h) \<and> launchHashPattern (hs_WorktreeLayoutFingerprint h)
        \<and> host_fingerprint_bound h
        \<and> lt_Dialect t = ''omp_shape_v1'' \<and> lt_Parse t = ''shape_only'' \<and> launchHashPattern (lt_DialectFingerprint t)
        \<and> lv_Kind v = ''read_only'' \<and> launchHashPattern (lv_VerificationCommandFingerprint v)) ErrLaunchSpecInvalid)"

definition launch_msg :: "string + 'a \<Rightarrow> launch_error + 'a" where
  "launch_msg r = (case r of Inl e \<Rightarrow> Inl (ErrLaunchMsg e) | Inr x \<Rightarrow> Inr x)"

definition HashLaunchSpec :: "LaunchSpec \<Rightarrow> launch_error + string" where
  "HashLaunchSpec s = andThen (validateLaunchSpec s) (\<lambda>_. launch_msg (canonicalJSONHash (launchSpecCanonicalValue s)))"

end
