(* ===== verification/Launch_Decode.thy ===== *)
theory Launch_Decode
  imports Launch_Types "HOL-Library.Monad_Syntax"
begin

section \<open>Decoding stored declarations\<close>

text \<open>
  What \<open>encoding/json\<close> does with a parsed text and the Go structs of the store: a missing field or \<open>null\<close> is
  the zero value, a value of another kind is an error, and where \<open>DisallowUnknownFields\<close> is set so is an
  unknown name.  (Names that differ only in case are accepted by Go; the comparison with the canonical text
  that follows every decoding rejects them with the same error.)
\<close>

definition field :: "string \<Rightarrow> json \<Rightarrow> json option" where
  "field k v = (case v of JObj kvs \<Rightarrow> map_of (rev kvs) k | _ \<Rightarrow> None)"

definition str_field :: "string \<Rightarrow> json \<Rightarrow> string option" where
  "str_field k v = (case field k v of None \<Rightarrow> Some [] | Some JNull \<Rightarrow> Some [] | Some (JStr s) \<Rightarrow> Some s | _ \<Rightarrow> None)"

definition int_field :: "string \<Rightarrow> json \<Rightarrow> int option" where
  "int_field k v = (case field k v of None \<Rightarrow> Some 0 | Some JNull \<Rightarrow> Some 0 | Some (JInt n) \<Rightarrow> Some n | _ \<Rightarrow> None)"

text \<open>Pointer fields keep \<open>null\<close>.\<close>

definition str_pointer :: "string \<Rightarrow> json \<Rightarrow> string option option" where
  "str_pointer k v = (case field k v of None \<Rightarrow> Some None | Some JNull \<Rightarrow> Some None | Some (JStr s) \<Rightarrow> Some (Some s) | _ \<Rightarrow> None)"

definition int_pointer :: "string \<Rightarrow> json \<Rightarrow> int option option" where
  "int_pointer k v = (case field k v of None \<Rightarrow> Some None | Some JNull \<Rightarrow> Some None | Some (JInt n) \<Rightarrow> Some (Some n) | _ \<Rightarrow> None)"

definition text_of :: "json \<Rightarrow> string option" where
  "text_of v = (case v of JStr s \<Rightarrow> Some s | JNull \<Rightarrow> Some [] | _ \<Rightarrow> None)"

definition strs_field :: "string \<Rightarrow> json \<Rightarrow> string list option" where
  "strs_field k v = (case field k v of None \<Rightarrow> Some [] | Some JNull \<Rightarrow> Some [] | Some (JArr vs) \<Rightarrow> those (map text_of vs) | _ \<Rightarrow> None)"

definition obj_field :: "string \<Rightarrow> json \<Rightarrow> json option" where
  "obj_field k v = (case field k v of None \<Rightarrow> Some (JObj []) | Some JNull \<Rightarrow> Some (JObj []) | Some (JObj kvs) \<Rightarrow> Some (JObj kvs) | _ \<Rightarrow> None)"

text \<open>\<open>DisallowUnknownFields\<close>.\<close>

definition closed_object :: "string list \<Rightarrow> json \<Rightarrow> unit option" where
  "closed_object names v = (case v of JObj kvs \<Rightarrow> if list_all (\<lambda>kv. fst kv \<in> set names) kvs then Some () else None | _ \<Rightarrow> None)"

subsection \<open>Launch specs\<close>

definition decodeHostSpec :: "json \<Rightarrow> LaunchHostSpec option" where
  "decodeHostSpec v = do {
     closed_object [''capabilities'', ''executable_route_fingerprint'', ''host_spec_fingerprint'', ''required_files_fingerprint'',
       ''transcript_source_fingerprint'', ''worktree_layout_fingerprint''] v;
     caps \<leftarrow> strs_field ''capabilities'' v;
     route \<leftarrow> str_field ''executable_route_fingerprint'' v;
     host \<leftarrow> str_field ''host_spec_fingerprint'' v;
     files \<leftarrow> str_field ''required_files_fingerprint'' v;
     transcript \<leftarrow> str_field ''transcript_source_fingerprint'' v;
     worktree \<leftarrow> str_field ''worktree_layout_fingerprint'' v;
     Some \<lparr>hs_Capabilities = caps, hs_ExecutableRouteFingerprint = route, hs_HostSpecFingerprint = host,
       hs_RequiredFilesFingerprint = files, hs_TranscriptSourceFingerprint = transcript, hs_WorktreeLayoutFingerprint = worktree\<rparr>
   }"

definition decodeScope :: "json \<Rightarrow> LaunchReadOnlyScope option" where
  "decodeScope v = do {
     closed_object [''access'', ''retrieval'', ''scope_fingerprint'', ''writes''] v;
     access \<leftarrow> str_field ''access'' v;
     retrieval \<leftarrow> str_field ''retrieval'' v;
     fingerprint \<leftarrow> str_field ''scope_fingerprint'' v;
     writes \<leftarrow> str_field ''writes'' v;
     Some \<lparr>ls_Access = access, ls_Retrieval = retrieval, ls_ScopeFingerprint = fingerprint, ls_Writes = writes\<rparr>
   }"

definition decodeLaunchRevision :: "json \<Rightarrow> LaunchRevisionIdentity option" where
  "decodeLaunchRevision v = do {
     closed_object [''proposal_id'', ''revision'', ''revision_hash''] v;
     proposal \<leftarrow> str_field ''proposal_id'' v;
     revision \<leftarrow> int_field ''revision'' v;
     hash \<leftarrow> str_field ''revision_hash'' v;
     Some \<lparr>lr_ProposalID = proposal, lr_Revision = revision, lr_RevisionHash = hash\<rparr>
   }"

definition decodeModel :: "json \<Rightarrow> LaunchModelSpec option" where
  "decodeModel v = do {
     closed_object [''provider'', ''model''] v;
     provider \<leftarrow> str_field ''provider'' v;
     model \<leftarrow> str_field ''model'' v;
     Some \<lparr>lm_Provider = provider, lm_Model = model\<rparr>
   }"

definition decodeSealed :: "json \<Rightarrow> LaunchSealedContract option" where
  "decodeSealed v = do {
     closed_object [''materialization_hash'', ''nonce''] v;
     hash \<leftarrow> str_field ''materialization_hash'' v;
     nonce \<leftarrow> str_field ''nonce'' v;
     Some \<lparr>sc_MaterializationHash = hash, sc_Nonce = nonce\<rparr>
   }"

definition decodeTranscript :: "json \<Rightarrow> LaunchTranscriptSpec option" where
  "decodeTranscript v = do {
     closed_object [''dialect'', ''dialect_fingerprint'', ''parse''] v;
     dialect \<leftarrow> str_field ''dialect'' v;
     fingerprint \<leftarrow> str_field ''dialect_fingerprint'' v;
     parse \<leftarrow> str_field ''parse'' v;
     Some \<lparr>lt_Dialect = dialect, lt_DialectFingerprint = fingerprint, lt_Parse = parse\<rparr>
   }"

definition decodeVerification :: "json \<Rightarrow> LaunchVerificationSpec option" where
  "decodeVerification v = do {
     closed_object [''kind'', ''verification_command_fingerprint''] v;
     kind \<leftarrow> str_field ''kind'' v;
     fingerprint \<leftarrow> str_field ''verification_command_fingerprint'' v;
     Some \<lparr>lv_Kind = kind, lv_VerificationCommandFingerprint = fingerprint\<rparr>
   }"

definition decodeLaunchSpec :: "json \<Rightarrow> LaunchSpec option" where
  "decodeLaunchSpec v = do {
     closed_object [''schema_version'', ''revision'', ''model'', ''deadline'', ''attempt_cap'', ''read_only_scope'', ''sealed_contract'',
       ''host_spec'', ''transcript'', ''verification''] v;
     schema \<leftarrow> str_field ''schema_version'' v;
     revision \<leftarrow> Option.bind (obj_field ''revision'' v) decodeLaunchRevision;
     model \<leftarrow> Option.bind (obj_field ''model'' v) decodeModel;
     deadline \<leftarrow> str_field ''deadline'' v;
     cap \<leftarrow> int_field ''attempt_cap'' v;
     scope \<leftarrow> Option.bind (obj_field ''read_only_scope'' v) decodeScope;
     sealed \<leftarrow> Option.bind (obj_field ''sealed_contract'' v) decodeSealed;
     host \<leftarrow> Option.bind (obj_field ''host_spec'' v) decodeHostSpec;
     transcript \<leftarrow> Option.bind (obj_field ''transcript'' v) decodeTranscript;
     verification \<leftarrow> Option.bind (obj_field ''verification'' v) decodeVerification;
     Some \<lparr>lp_SchemaVersion = schema, lp_Revision = revision, lp_Model = model, lp_Deadline = deadline, lp_AttemptCap = cap,
       lp_ReadOnlyScope = scope, lp_SealedContract = sealed, lp_HostSpec = host, lp_Transcript = transcript, lp_Verification = verification\<rparr>
   }"

subsection \<open>Revisions\<close>

text \<open>\<open>time.Time\<close> reads an RFC 3339 text.\<close>

definition fraction_nanos :: "string \<Rightarrow> nat" where
  "fraction_nanos s = (let d = takeWhile is_digit (drop 1 s) in number_at 0 9 (d @ replicate (9 - length d) (CHR ''0'')))"

definition parse_stamp :: "string \<Rightarrow> stamp option" where
  "parse_stamp s = (if grillTimestampPattern s \<and> timeParses s
     then Some \<lparr>st_year = number_at 0 4 s, st_month = number_at 5 2 s, st_day = number_at 8 2 s, st_hour = number_at 11 2 s,
       st_minute = number_at 14 2 s, st_second = number_at 17 2 s, st_nanos = fraction_nanos (drop 19 s)\<rparr>
     else None)"

definition decodePolicy :: "json \<Rightarrow> ProposalPolicy option" where
  "decodePolicy v = do {
     adapter \<leftarrow> obj_field ''adapter'' v;
     access \<leftarrow> str_field ''access'' adapter;
     kind \<leftarrow> str_field ''kind'' adapter;
     status \<leftarrow> str_field ''status'' adapter;
     authority \<leftarrow> str_field ''authority'' v;
     budget \<leftarrow> obj_field ''budget'' v;
     dimensions \<leftarrow> strs_field ''dimensions'' budget;
     bstatus \<leftarrow> str_field ''status'' budget;
     role \<leftarrow> str_field ''model_role'' v;
     Some \<lparr>po_Adapter = \<lparr>ad_Access = access, ad_Kind = kind, ad_Status = status\<rparr>, po_Authority = authority,
       po_Budget = \<lparr>bu_Dimensions = dimensions, bu_Status = bstatus\<rparr>, po_ModelRole = role\<rparr>
   }"

definition decodeTask :: "json \<Rightarrow> ProposalTask option" where
  "decodeTask v = do {
     title \<leftarrow> str_field ''title'' v;
     instructions \<leftarrow> str_field ''instructions'' v;
     Some \<lparr>ta_Title = title, ta_Instructions = instructions\<rparr>
   }"

definition decodeRevision :: "json \<Rightarrow> Revision option" where
  "decodeRevision v = do {
     schema \<leftarrow> str_field ''schema_version'' v;
     proposal \<leftarrow> str_field ''proposal_id'' v;
     revision \<leftarrow> int_field ''revision'' v;
     parent \<leftarrow> int_pointer ''parent_revision'' v;
     parentHash \<leftarrow> str_pointer ''parent_revision_hash'' v;
     created \<leftarrow> Option.bind (str_field ''created_at'' v) parse_stamp;
     by \<leftarrow> str_field ''created_by'' v;
     key \<leftarrow> str_field ''idempotency_key'' v;
     task \<leftarrow> Option.bind (obj_field ''task'' v) decodeTask;
     criteria \<leftarrow> strs_field ''acceptance_criteria'' v;
     policy \<leftarrow> Option.bind (obj_field ''policy'' v) decodePolicy;
     Some \<lparr>re_SchemaVersion = schema, re_ProposalID = proposal, re_Revision = revision, re_ParentRevision = parent,
       re_ParentRevisionHash = parentHash, re_CreatedAt = created, re_CreatedBy = by, re_IdempotencyKey = key, re_Task = task,
       re_AcceptanceCriteria = criteria, re_Policy = policy\<rparr>
   }"

subsection \<open>Decoding inverts encoding\<close>

lemma map_of_snd: "map_of (map (\<lambda>kv. (fst kv, g (snd kv))) kvs) k = map_option g (map_of kvs k)"
  by (induction kvs) auto

lemma map_of_sorted:
  assumes "distinct (map fst kvs)"
  shows "map_of (rev (sort_key f (map (\<lambda>kv. (fst kv, g (snd kv))) kvs))) k = map_option g (map_of kvs k)"
proof -
  let ?kws = "map (\<lambda>kv. (fst kv, g (snd kv))) kvs"
  have "distinct (map fst ?kws)" using assms by (simp add: comp_def)
  moreover have "mset (map fst (rev (sort_key f ?kws))) = mset (map fst ?kws)" by (simp add: multiset.map_comp)
  ultimately have "distinct (map fst (rev (sort_key f ?kws)))" by (metis mset_eq_imp_distinct_iff)
  then have "map_of (rev (sort_key f ?kws)) = map_of ?kws"
    using \<open>distinct (map fst ?kws)\<close> by (intro map_of_inject_set [THEN iffD2]) auto
  then show ?thesis by (simp add: map_of_snd)
qed

lemma field_canon:
  "distinct (map fst kvs) \<Longrightarrow> map_of kvs k = Some v \<Longrightarrow> field k (canon (JObj kvs)) = Some (canon v)"
  by (simp only: field_def canon.simps json.case map_of_sorted option.map)

lemma closed_canon [simp]: "closed_object names (canon (JObj kvs)) = (if list_all (\<lambda>kv. fst kv \<in> set names) kvs then Some () else None)"
  by (auto simp: closed_object_def list_all_iff)

lemma strings_canon: "those (map text_of (map canon (map JStr xs))) = Some xs"
  by (induction xs) (auto simp: text_of_def)

text \<open>Each kind of field read from a canonical object.\<close>

lemma fields_canon:
  assumes "distinct (map fst kvs)"
  shows "map_of kvs k = Some (JObj l) \<Longrightarrow> obj_field k (canon (JObj kvs)) = Some (canon (JObj l))"
    "map_of kvs k = Some (JStr t) \<Longrightarrow> str_field k (canon (JObj kvs)) = Some t"
    "map_of kvs k = Some (JInt n) \<Longrightarrow> int_field k (canon (JObj kvs)) = Some n"
    "map_of kvs k = Some (jstrings ts) \<Longrightarrow> strs_field k (canon (JObj kvs)) = Some ts"
    "map_of kvs k = Some (joption JInt p) \<Longrightarrow> int_pointer k (canon (JObj kvs)) = Some p"
    "map_of kvs k = Some (joption JStr q) \<Longrightarrow> str_pointer k (canon (JObj kvs)) = Some q"
proof -
  note read = field_canon [OF assms]
  show "map_of kvs k = Some (JObj l) \<Longrightarrow> obj_field k (canon (JObj kvs)) = Some (canon (JObj l))"
    by (drule read) (simp add: obj_field_def)
  show "map_of kvs k = Some (JStr t) \<Longrightarrow> str_field k (canon (JObj kvs)) = Some t"
    by (drule read) (simp add: str_field_def)
  show "map_of kvs k = Some (JInt n) \<Longrightarrow> int_field k (canon (JObj kvs)) = Some n"
    by (drule read) (simp add: int_field_def)
  show "map_of kvs k = Some (jstrings ts) \<Longrightarrow> strs_field k (canon (JObj kvs)) = Some ts"
    using strings_canon [of ts] by (auto dest!: read simp: strs_field_def jstrings_def simp del: map_map)
  show "map_of kvs k = Some (joption JInt p) \<Longrightarrow> int_pointer k (canon (JObj kvs)) = Some p"
    by (drule read) (cases p; simp add: int_pointer_def)
  show "map_of kvs k = Some (joption JStr q) \<Longrightarrow> str_pointer k (canon (JObj kvs)) = Some q"
    by (drule read) (cases q; simp add: str_pointer_def)
qed

lemma decodeLaunchSpec_canon: "decodeLaunchSpec (canon (launchSpecCanonicalValue s)) = Some s"
  by (simp add: decodeLaunchSpec_def launchSpecCanonicalValue_def launchHostSpecCanonicalValue_def fields_canon
      decodeLaunchRevision_def decodeModel_def decodeScope_def decodeSealed_def decodeHostSpec_def decodeTranscript_def
      decodeVerification_def del: canon.simps)

lemma decodeRevision_canon:
  assumes "parse_stamp (stamp_text (re_CreatedAt r)) = Some (re_CreatedAt r)"
  shows "decodeRevision (canon (revision_value r)) = Some r"
  using assms
  by (simp add: decodeRevision_def revision_value_def policy_value_def task_value_def fields_canon decodePolicy_def decodeTask_def
      del: canon.simps)

text \<open>The stored text of a valid spec decodes to the spec.\<close>

lemma decode_stored_spec: "canonicalJSON (launchSpecCanonicalValue s) = Inr t \<Longrightarrow> Option.bind (decodeJSON t) decodeLaunchSpec = Some s"
  by (auto simp: canonicalJSON_eq decodeJSON_enc decodeLaunchSpec_canon split: if_splits)

end
