(* ===== verification/Launch_Store.thy ===== *)
theory Launch_Store
  imports Launch_Decode
begin

section \<open>Launch admission\<close>

text \<open>
  The stateful part of \<^verbatim>\<open>src/internal/store/launch_admission.go\<close> over the tables of schema version 11
  (\<open>migrateV11\<close> in \<^verbatim>\<open>store.go\<close>) and the proposal tables.  The three fence columns of a row are one
  \<open>LaunchFence\<close>.  \<open>clock\<close> gives the successive values of \<open>nowStamp()\<close> within a call and \<open>rnd\<close> the random
  bytes of a new outbox identifier.  Keys and foreign keys are checked by the inserts
  (\<open>ErrLaunchConstraint\<close>).
\<close>

record LaunchSpecRow =
  sr_LaunchSpecHash :: string
  sr_ProposalID :: string
  sr_Revision :: int
  sr_RevisionHash :: string
  sr_ApprovalID :: string
  sr_ApprovedAt :: stamp
  sr_ApprovedBy :: string
  sr_ApprovalState :: ApprovalState
  sr_SpecJSON :: string
  sr_CreatedAt :: stamp

record TaskClaimRow =
  cl_LaunchSpecHash :: string
  cl_Fence :: LaunchFence
  cl_OwnerID :: string
  cl_Attempt :: int
  cl_CreatedAt :: stamp

record ClaimHeadRow =
  hd_LaunchSpecHash :: string
  hd_Fence :: LaunchFence

record RunIntentRow =
  rw_RunID :: string
  rw_LaunchSpecHash :: string
  rw_Fence :: LaunchFence
  rw_MaterializationID :: string
  rw_Attempt :: int
  rw_CreatedAt :: stamp

record RunFactRow =
  rf_RunID :: string
  rf_Fact :: LaunchStateFact

record LaunchDB =
  ld_proposals :: ProposalDB
  launch_specs :: "LaunchSpecRow list"
  task_claims :: "TaskClaimRow list"
  launch_claim_heads :: "ClaimHeadRow list"
  launch_materializations :: "LaunchMaterialization list"
  launch_admission_outbox :: "LaunchOutbox list"
  launch_run_intents :: "RunIntentRow list"
  launch_run_state_facts :: "RunFactRow list"
  launch_terminal_intents :: "LaunchTerminalIntent list"
  launch_evidence_intents :: "LaunchEvidenceIntent list"

subsection \<open>Specs\<close>

definition zeroTime :: stamp where
  "zeroTime = \<lparr>st_year = 1, st_month = 1, st_day = 1, st_hour = 0, st_minute = 0, st_second = 0, st_nanos = 0\<rparr>"

definition row_revision :: "LaunchSpecRow \<Rightarrow> LaunchRevisionIdentity" where
  "row_revision r = \<lparr>lr_ProposalID = sr_ProposalID r, lr_Revision = sr_Revision r, lr_RevisionHash = sr_RevisionHash r\<rparr>"

definition row_approval :: "LaunchSpecRow \<Rightarrow> LaunchApprovalEligibility" where
  "row_approval r = \<lparr>le_ApprovalID = sr_ApprovalID r, le_ProposalID = sr_ProposalID r, le_Revision = sr_Revision r,
     le_RevisionHash = sr_RevisionHash r, le_ApprovedAt = sr_ApprovedAt r, le_ApprovedBy = sr_ApprovedBy r, le_State = sr_ApprovalState r\<rparr>"

definition find_spec :: "string \<Rightarrow> LaunchDB \<Rightarrow> LaunchSpecRow option" where
  "find_spec h db = find (\<lambda>r. sr_LaunchSpecHash r = h) (launch_specs db)"

definition loadLaunchSpec :: "LaunchDB \<Rightarrow> string \<Rightarrow> launch_error + StoredLaunchSpec option" where
  "loadLaunchSpec db launchSpecHash =
     (case find_spec launchSpecHash db of
        None \<Rightarrow> Inr None
      | Some r \<Rightarrow>
        andThen (require ErrLaunchRecordCorrupt (Option.bind (decodeJSON (sr_SpecJSON r)) decodeLaunchSpec)) (\<lambda>spec.
        andThen (ensure (canonicalJSON (launchSpecCanonicalValue spec) = Inr (sr_SpecJSON r)) ErrLaunchRecordCorrupt) (\<lambda>_.
        andThen (ensure (HashLaunchSpec spec = Inr (sr_LaunchSpecHash r) \<and> lp_Revision spec = row_revision r) ErrLaunchRecordCorrupt) (\<lambda>_.
        andThen (ensure (sr_ApprovalState r = ApprovalStateApproved \<and> sr_ApprovedBy r = localGUIOperator
          \<and> sr_ApprovedAt r \<noteq> zeroTime) ErrLaunchRecordCorrupt) (\<lambda>_.
        Inr (Some \<lparr>ss_Spec = spec, ss_LaunchSpecHash = sr_LaunchSpecHash r, ss_Approval = row_approval r, ss_CreatedAt = sr_CreatedAt r\<rparr>))))))"

definition GetLaunchSpec :: "LaunchDB \<Rightarrow> string \<Rightarrow> launch_error + StoredLaunchSpec" where
  "GetLaunchSpec db launchSpecHash = andThen (loadLaunchSpec db launchSpecHash) (require ErrLaunchSpecNotFound)"

text \<open>The rows of the eligibility query: the current revision of the proposal with its lifecycle and the
  lifecycle's approval.\<close>

definition eligibility_rows ::
    "ProposalDB \<Rightarrow> LaunchRevisionIdentity \<Rightarrow> string \<Rightarrow> (Proposal \<times> RevisionLifecycle \<times> Approval) list" where
  "eligibility_rows db revision approvalID =
     [(p, l, a). p \<leftarrow> task_proposals db, r \<leftarrow> task_proposal_revisions db, l \<leftarrow> task_proposal_revision_lifecycles db, a \<leftarrow> task_proposal_approvals db,
        rv_ident r = (pr_ProposalID p, pr_CurrentRevision p, pr_CurrentRevisionHash p),
        (lc_ProposalID l, lc_Revision l, lc_RevisionHash l) = rv_ident r,
        ap_ApprovalID a = lc_ApprovalID l, (ap_ProposalID a, ap_Revision a, ap_RevisionHash a) = (lc_ProposalID l, lc_Revision l, lc_RevisionHash l),
        pr_ProposalID p = lr_ProposalID revision, rv_Revision r = lr_Revision revision, rv_RevisionHash r = lr_RevisionHash revision,
        ap_ApprovalID a = approvalID]"

definition validateLaunchApprovalEligibility ::
    "ProposalDB \<Rightarrow> LaunchRevisionIdentity \<Rightarrow> string \<Rightarrow> launch_error + LaunchApprovalEligibility" where
  "validateLaunchApprovalEligibility db revision approvalID =
     andThen (require ErrLaunchApprovalIneligible
       (find (\<lambda>r. rv_ident r = (lr_ProposalID revision, lr_Revision revision, lr_RevisionHash revision)) (task_proposal_revisions db))) (\<lambda>row.
     andThen (require ErrLaunchRecordCorrupt (Option.bind (decodeJSON (rv_Snapshot row)) decodeRevision)) (\<lambda>stored.
     andThen (ensure (canonicalRevisionSnapshot stored = Inr (rv_Snapshot row, rv_RevisionHash row)
       \<and> re_ProposalID stored = lr_ProposalID revision \<and> re_Revision stored = lr_Revision revision) ErrLaunchRecordCorrupt) (\<lambda>_.
     (case eligibility_rows db revision approvalID of
        [] \<Rightarrow> Inl ErrLaunchApprovalIneligible
      | (p, l, a) # _ \<Rightarrow>
        andThen (require (ErrLaunchMsg ''converting NULL to string is unsupported'') (ap_DecidedBy a)) (\<lambda>approvedBy.
        andThen (require ErrLaunchApprovalIneligible (ap_DecidedAt a)) (\<lambda>approvedAt.
        andThen (ensure (ap_ProposalID a = lr_ProposalID revision \<and> ap_Revision a = lr_Revision revision \<and> ap_RevisionHash a = lr_RevisionHash revision
          \<and> ap_ApprovalID a = approvalID \<and> ap_State a = ApprovalStateApproved \<and> approvedBy = localGUIOperator
          \<and> pr_State p = ProposalStateApproved \<and> lc_State l = RevisionLifecycleStateApproved) ErrLaunchApprovalIneligible) (\<lambda>_.
        Inr \<lparr>le_ApprovalID = ap_ApprovalID a, le_ProposalID = ap_ProposalID a, le_Revision = ap_Revision a, le_RevisionHash = ap_RevisionHash a,
          le_ApprovedAt = approvedAt, le_ApprovedBy = approvedBy, le_State = ap_State a\<rparr>)))))))"

definition spec_row :: "stamp \<Rightarrow> LaunchAdmissionRequest \<Rightarrow> LaunchApprovalEligibility \<Rightarrow> string \<Rightarrow> LaunchSpecRow" where
  "spec_row now request e canonical =
     \<lparr>sr_LaunchSpecHash = la_LaunchSpecHash request, sr_ProposalID = lr_ProposalID (lp_Revision (la_Spec request)),
      sr_Revision = lr_Revision (lp_Revision (la_Spec request)), sr_RevisionHash = lr_RevisionHash (lp_Revision (la_Spec request)),
      sr_ApprovalID = le_ApprovalID e, sr_ApprovedAt = le_ApprovedAt e, sr_ApprovedBy = le_ApprovedBy e, sr_ApprovalState = le_State e,
      sr_SpecJSON = canonical, sr_CreatedAt = now\<rparr>"

definition spec_insertable :: "LaunchSpecRow \<Rightarrow> LaunchDB \<Rightarrow> bool" where
  "spec_insertable n db \<longleftrightarrow>
     list_all (\<lambda>r. sr_LaunchSpecHash r \<noteq> sr_LaunchSpecHash n \<and> \<not> (row_revision r = row_revision n \<and> sr_ApprovalID r = sr_ApprovalID n)) (launch_specs db)
   \<and> list_ex (\<lambda>l. (lc_ProposalID l, lc_Revision l, lc_RevisionHash l, lc_ApprovalID l) = (sr_ProposalID n, sr_Revision n, sr_RevisionHash n, sr_ApprovalID n))
       (task_proposal_revision_lifecycles (ld_proposals db))
   \<and> list_ex (\<lambda>r. rv_ident r = (sr_ProposalID n, sr_Revision n, sr_RevisionHash n)) (task_proposal_revisions (ld_proposals db))
   \<and> 0 < sr_Revision n \<and> sr_ApprovedBy n = localGUIOperator \<and> sr_ApprovalState n = ApprovalStateApproved"

definition StoreLaunchSpec :: "stamp \<Rightarrow> LaunchAdmissionRequest \<Rightarrow> LaunchDB \<Rightarrow> launch_error + StoredLaunchSpec \<times> LaunchDB" where
  "StoreLaunchSpec now request db =
     andThen (HashLaunchSpec (la_Spec request)) (\<lambda>computedHash.
     andThen (ensure (la_LaunchSpecHash request = computedHash) ErrLaunchSpecHashMismatch) (\<lambda>_.
     andThen (ensure (ident_pattern 63 (la_ApprovalID request)) ErrLaunchApprovalIneligible) (\<lambda>_.
     andThen (launch_msg (canonicalJSON (launchSpecCanonicalValue (la_Spec request)))) (\<lambda>canonical.
     andThen (loadLaunchSpec db (la_LaunchSpecHash request)) (\<lambda>existing.
     case existing of
       Some e \<Rightarrow>
         (if le_ApprovalID (ss_Approval e) \<noteq> la_ApprovalID request \<or> ss_Spec e \<noteq> la_Spec request then Inl ErrLaunchSpecConflict
          else Inr (e, db))
     | None \<Rightarrow>
         andThen (validateLaunchApprovalEligibility (ld_proposals db) (lp_Revision (la_Spec request)) (la_ApprovalID request)) (\<lambda>e.
         let n = spec_row now request e canonical in
         andThen (ensure (spec_insertable n db) ErrLaunchConstraint) (\<lambda>_.
         Inr (\<lparr>ss_Spec = la_Spec request, ss_LaunchSpecHash = la_LaunchSpecHash request, ss_Approval = e, ss_CreatedAt = now\<rparr>,
           db\<lparr>launch_specs := launch_specs db @ [n]\<rparr>))))))))"

subsection \<open>Claims and fences\<close>

definition validateLaunchClaimRequest :: "LaunchClaimRequest \<Rightarrow> launch_error + unit" where
  "validateLaunchClaimRequest r =
     ensure (launchHashPattern (cq_LaunchSpecHash r) \<and> launchHashPattern (cq_ClaimTokenHash r) \<and> 1 \<le> cq_Attempt r
       \<and> ident_pattern 63 (cq_ClaimID r) \<and> ident_pattern 63 (cq_OwnerID r)) ErrLaunchSpecInvalid"

text \<open>The foreign key of every fact: a claim with the spec and the fence.\<close>

definition claim_exists :: "string \<Rightarrow> LaunchFence \<Rightarrow> LaunchDB \<Rightarrow> bool" where
  "claim_exists h f db \<longleftrightarrow> list_ex (\<lambda>c. cl_LaunchSpecHash c = h \<and> cl_Fence c = f) (task_claims db)"

definition claim_insertable :: "TaskClaimRow \<Rightarrow> LaunchDB \<Rightarrow> bool" where
  "claim_insertable n db \<longleftrightarrow>
     list_all (\<lambda>c. lf_ClaimID (cl_Fence c) \<noteq> lf_ClaimID (cl_Fence n)
       \<and> \<not> (cl_LaunchSpecHash c = cl_LaunchSpecHash n \<and> lf_FenceGeneration (cl_Fence c) = lf_FenceGeneration (cl_Fence n))) (task_claims db)
   \<and> find_spec (cl_LaunchSpecHash n) db \<noteq> None \<and> 0 < lf_FenceGeneration (cl_Fence n) \<and> 0 < cl_Attempt n"

definition request_fence :: "LaunchClaimRequest \<Rightarrow> int \<Rightarrow> LaunchFence" where
  "request_fence r generation = \<lparr>lf_ClaimID = cq_ClaimID r, lf_ClaimTokenHash = cq_ClaimTokenHash r, lf_FenceGeneration = generation\<rparr>"

definition row_claim :: "TaskClaimRow \<Rightarrow> TaskClaim" where
  "row_claim c = \<lparr>tk_LaunchFence = cl_Fence c, tk_Fence = cl_Fence c, tk_LaunchSpecHash = cl_LaunchSpecHash c, tk_OwnerID = cl_OwnerID c,
     tk_Attempt = cl_Attempt c, tk_State = TaskClaimStateActive, tk_CreatedAt = cl_CreatedAt c\<rparr>"

definition insertLaunchClaim :: "stamp \<Rightarrow> LaunchClaimRequest \<Rightarrow> int \<Rightarrow> LaunchDB \<Rightarrow> launch_error + TaskClaim \<times> LaunchDB" where
  "insertLaunchClaim now request generation db =
     (let n = \<lparr>cl_LaunchSpecHash = cq_LaunchSpecHash request, cl_Fence = request_fence request generation, cl_OwnerID = cq_OwnerID request,
           cl_Attempt = cq_Attempt request, cl_CreatedAt = now\<rparr> in
      andThen (ensure (claim_insertable n db) ErrLaunchConstraint) (\<lambda>_.
      let db = db\<lparr>task_claims := task_claims db @ [n]\<rparr> in
      if generation = 1 then
        andThen (ensure (list_all (\<lambda>h. hd_LaunchSpecHash h \<noteq> cq_LaunchSpecHash request) (launch_claim_heads db)) ErrLaunchConstraint) (\<lambda>_.
        Inr (row_claim n, db\<lparr>launch_claim_heads := launch_claim_heads db @
          [\<lparr>hd_LaunchSpecHash = cq_LaunchSpecHash request, hd_Fence = request_fence request generation\<rparr>]\<rparr>))
      else Inr (row_claim n, db)))"

definition loadActiveLaunchClaim :: "LaunchDB \<Rightarrow> string \<Rightarrow> launch_error + TaskClaim option" where
  "loadActiveLaunchClaim db launchSpecHash =
     (case find (\<lambda>h. hd_LaunchSpecHash h = launchSpecHash) (launch_claim_heads db) of
        None \<Rightarrow> Inr None
      | Some h \<Rightarrow>
        (case find (\<lambda>c. cl_LaunchSpecHash c = hd_LaunchSpecHash h \<and> cl_Fence c = hd_Fence h) (task_claims db) of
           None \<Rightarrow> Inl ErrLaunchRecordCorrupt
         | Some c \<Rightarrow>
           andThen (ensure (1 \<le> lf_FenceGeneration (cl_Fence c) \<and> 1 \<le> cl_Attempt c) ErrLaunchRecordCorrupt) (\<lambda>_.
           Inr (Some (row_claim c)))))"

definition GetLaunchClaim :: "LaunchDB \<Rightarrow> string \<Rightarrow> launch_error + TaskClaim" where
  "GetLaunchClaim db launchSpecHash = andThen (loadActiveLaunchClaim db launchSpecHash) (require ErrLaunchClaimNotFound)"

definition launchSpecHashForClaim :: "LaunchDB \<Rightarrow> string \<Rightarrow> launch_error + string" where
  "launchSpecHashForClaim db claimID =
     andThen (require ErrLaunchClaimNotFound (find (\<lambda>c. lf_ClaimID (cl_Fence c) = claimID) (task_claims db))) (\<lambda>c. Inr (cl_LaunchSpecHash c))"

definition requireActiveLaunchFence :: "LaunchDB \<Rightarrow> string \<Rightarrow> LaunchFence \<Rightarrow> launch_error + TaskClaim" where
  "requireActiveLaunchFence db launchSpecHash fence =
     andThen (if launchSpecHash = [] then launchSpecHashForClaim db (lf_ClaimID fence) else Inr launchSpecHash) (\<lambda>launchSpecHash.
     andThen (loadActiveLaunchClaim db launchSpecHash) (\<lambda>found.
     andThen (require ErrLaunchClaimNotFound found) (\<lambda>active.
     andThen (ensure (tk_LaunchFence active = fence) ErrLaunchStaleFence) (\<lambda>_. Inr active))))"

definition validLaunchOutboxStage :: "int \<Rightarrow> LaunchOutboxState \<Rightarrow> bool" where
  "validLaunchOutboxStage sequence state \<longleftrightarrow>
     (sequence = 1 \<and> state = LaunchOutboxPendingMaterialization) \<or> (sequence = 2 \<and> state = LaunchOutboxPendingRunAdmission)
   \<or> (sequence = 3 \<and> state = LaunchOutboxPendingProcessAdmission)"

definition insertLaunchOutbox ::
    "stamp \<Rightarrow> string option \<Rightarrow> TaskClaim \<Rightarrow> int \<Rightarrow> LaunchOutboxState \<Rightarrow> LaunchDB \<Rightarrow> launch_error + LaunchDB" where
  "insertLaunchOutbox now rnd claim sequence state db =
     andThen (case newProposalIdentifier ''launch_outbox'' rnd of Inl e \<Rightarrow> Inl (ErrLaunchMsg ''generate launch_outbox identifier'') | Inr i \<Rightarrow> Inr i) (\<lambda>outboxID.
     andThen (ensure (list_all (\<lambda>o'. lo_OutboxID o' \<noteq> outboxID
         \<and> \<not> (lo_LaunchSpecHash o' = tk_LaunchSpecHash claim \<and> lf_FenceGeneration (lo_LaunchFence o') = lf_FenceGeneration (tk_LaunchFence claim)
           \<and> lo_Sequence o' = sequence)) (launch_admission_outbox db)
       \<and> validLaunchOutboxStage sequence state \<and> claim_exists (tk_LaunchSpecHash claim) (tk_LaunchFence claim) db) ErrLaunchConstraint) (\<lambda>_.
     Inr (db\<lparr>launch_admission_outbox := launch_admission_outbox db @
       [\<lparr>lo_LaunchFence = tk_LaunchFence claim, lo_LaunchSpecHash = tk_LaunchSpecHash claim, lo_OutboxID = outboxID, lo_Sequence = sequence,
         lo_State = state, lo_CreatedAt = now\<rparr>]\<rparr>)))"

definition AcquireLaunchClaim ::
    "(nat \<Rightarrow> stamp) \<Rightarrow> string option \<Rightarrow> LaunchClaimRequest \<Rightarrow> LaunchDB \<Rightarrow> launch_error + TaskClaim \<times> LaunchDB" where
  "AcquireLaunchClaim clock rnd request db =
     andThen (validateLaunchClaimRequest request) (\<lambda>_.
     andThen (loadLaunchSpec db (cq_LaunchSpecHash request)) (\<lambda>spec.
     andThen (ensure (spec \<noteq> None) ErrLaunchSpecNotFound) (\<lambda>_.
     andThen (loadActiveLaunchClaim db (cq_LaunchSpecHash request)) (\<lambda>active.
     andThen (ensure (active = None) ErrLaunchClaimAlreadyActive) (\<lambda>_.
     andThen (insertLaunchClaim (clock 0) request 1 db) (\<lambda>(claim, db).
     andThen (insertLaunchOutbox (clock 1) rnd claim 1 LaunchOutboxPendingMaterialization db) (\<lambda>db.
     Inr (claim, db))))))))"

definition ReclaimLaunchClaim ::
    "(nat \<Rightarrow> stamp) \<Rightarrow> string option \<Rightarrow> LaunchClaimReclaimRequest \<Rightarrow> LaunchDB \<Rightarrow> launch_error + TaskClaim \<times> LaunchDB" where
  "ReclaimLaunchClaim clock rnd request db =
     andThen (validateLaunchClaimRequest (rq_Claim request)) (\<lambda>_.
     andThen (ensure (cq_LaunchSpecHash (rq_Claim request) \<noteq> [] \<and> lf_ClaimID (rq_ExpectedFence request) \<noteq> []
       \<and> lf_ClaimTokenHash (rq_ExpectedFence request) \<noteq> [] \<and> 1 \<le> lf_FenceGeneration (rq_ExpectedFence request)) ErrLaunchSpecInvalid) (\<lambda>_.
     andThen (requireActiveLaunchFence db (cq_LaunchSpecHash (rq_Claim request)) (rq_ExpectedFence request)) (\<lambda>active.
     andThen (insertLaunchClaim (clock 0) (rq_Claim request) (lf_FenceGeneration (tk_LaunchFence active) + 1) db) (\<lambda>(claim, db).
     let db = db\<lparr>launch_claim_heads := update_where (\<lambda>h. hd_LaunchSpecHash h = tk_LaunchSpecHash claim)
           (\<lambda>h. h\<lparr>hd_Fence := tk_LaunchFence claim\<rparr>) (launch_claim_heads db)\<rparr> in
     andThen (insertLaunchOutbox (clock 1) rnd claim 1 LaunchOutboxPendingMaterialization db) (\<lambda>db.
     Inr (claim, db))))))"

subsection \<open>Materialization\<close>

definition fence_well_formed :: "LaunchFence \<Rightarrow> bool" where
  "fence_well_formed f \<longleftrightarrow> lf_ClaimID f \<noteq> [] \<and> launchHashPattern (lf_ClaimTokenHash f) \<and> 1 \<le> lf_FenceGeneration f"

definition validateLaunchMaterializationRequest :: "LaunchMaterializationRequest \<Rightarrow> launch_error + unit" where
  "validateLaunchMaterializationRequest r =
     ensure (fence_well_formed (mq_Fence r) \<and> ident_pattern 63 (mq_MaterializationID r)
       \<and> launchHashPattern (mq_MaterializationHash r) \<and> launchNoncePattern (mq_Nonce r)) ErrLaunchSpecInvalid"

definition loadLaunchMaterialization :: "LaunchDB \<Rightarrow> string \<Rightarrow> int \<Rightarrow> launch_error + LaunchMaterialization option" where
  "loadLaunchMaterialization db launchSpecHash generation =
     (case find (\<lambda>m. mz_LaunchSpecHash m = launchSpecHash \<and> lf_FenceGeneration (mz_LaunchFence m) = generation) (launch_materializations db) of
        None \<Rightarrow> Inr None
      | Some m \<Rightarrow>
        andThen (ensure (mz_State m = LaunchMaterializationStateReady \<and> launchHashPattern (mz_MaterializationHash m) \<and> launchNoncePattern (mz_Nonce m))
          ErrLaunchRecordCorrupt) (\<lambda>_. Inr (Some m)))"

definition validatePersistedLaunchMaterialization :: "StoredLaunchSpec \<Rightarrow> LaunchMaterialization \<Rightarrow> launch_error + unit" where
  "validatePersistedLaunchMaterialization storedSpec m =
     (let sealed = lp_SealedContract (ss_Spec storedSpec) in
      ensure (mz_MaterializationHash m = sc_MaterializationHash sealed \<and> mz_Nonce m = sc_Nonce sealed) ErrLaunchRecordCorrupt)"

definition materialization_insertable :: "LaunchMaterialization \<Rightarrow> LaunchDB \<Rightarrow> bool" where
  "materialization_insertable n db \<longleftrightarrow>
     list_all (\<lambda>m. mz_MaterializationID m \<noteq> mz_MaterializationID n
       \<and> \<not> (mz_LaunchSpecHash m = mz_LaunchSpecHash n \<and> lf_FenceGeneration (mz_LaunchFence m) = lf_FenceGeneration (mz_LaunchFence n))) (launch_materializations db)
   \<and> claim_exists (mz_LaunchSpecHash n) (mz_LaunchFence n) db"

definition RecordLaunchMaterializationReady ::
    "(nat \<Rightarrow> stamp) \<Rightarrow> string option \<Rightarrow> LaunchMaterializationRequest \<Rightarrow> LaunchDB \<Rightarrow> launch_error + LaunchMaterialization \<times> LaunchDB" where
  "RecordLaunchMaterializationReady clock rnd request db =
     andThen (validateLaunchMaterializationRequest request) (\<lambda>_.
     andThen (requireActiveLaunchFence db [] (mq_Fence request)) (\<lambda>active.
     andThen (loadLaunchSpec db (tk_LaunchSpecHash active)) (\<lambda>found.
     andThen (require ErrLaunchSpecNotFound found) (\<lambda>storedSpec.
     andThen (ensure (mq_MaterializationHash request = sc_MaterializationHash (lp_SealedContract (ss_Spec storedSpec))
       \<and> mq_Nonce request = sc_Nonce (lp_SealedContract (ss_Spec storedSpec))) ErrLaunchMaterializationMismatch) (\<lambda>_.
     andThen (loadLaunchMaterialization db (tk_LaunchSpecHash active) (lf_FenceGeneration (tk_LaunchFence active))) (\<lambda>existing.
     case existing of
       Some m \<Rightarrow>
         andThen (validatePersistedLaunchMaterialization storedSpec m) (\<lambda>_.
         if mz_LaunchFence m = mq_Fence request \<and> mz_MaterializationID m = mq_MaterializationID request
           \<and> mz_MaterializationHash m = mq_MaterializationHash request \<and> mz_Nonce m = mq_Nonce request
         then Inr (m, db) else Inl ErrLaunchMaterializationConflict)
     | None \<Rightarrow>
         let m = \<lparr>mz_LaunchFence = mq_Fence request, mz_LaunchSpecHash = tk_LaunchSpecHash active, mz_MaterializationID = mq_MaterializationID request,
               mz_MaterializationHash = mq_MaterializationHash request, mz_Nonce = mq_Nonce request, mz_State = LaunchMaterializationStateReady,
               mz_CreatedAt = clock 0\<rparr> in
         andThen (ensure (materialization_insertable m db) ErrLaunchConstraint) (\<lambda>_.
         andThen (insertLaunchOutbox (clock 1) rnd active 2 LaunchOutboxPendingRunAdmission
           (db\<lparr>launch_materializations := launch_materializations db @ [m]\<rparr>)) (\<lambda>db.
         Inr (m, db)))))))))"

subsection \<open>Run intents\<close>

definition validateLaunchRunIntentRequest :: "LaunchRunIntentRequest \<Rightarrow> launch_error + unit" where
  "validateLaunchRunIntentRequest r =
     ensure (fence_well_formed (iq_Fence r) \<and> 1 \<le> iq_Attempt r \<and> ident_pattern 63 (iq_RunID r)
       \<and> ident_pattern 63 (iq_MaterializationID r)) ErrLaunchSpecInvalid"

definition row_intent :: "RunIntentRow \<Rightarrow> LaunchStateFact \<Rightarrow> LaunchRunIntent" where
  "row_intent r f = \<lparr>ri_LaunchFence = rw_Fence r, ri_LaunchSpecHash = rw_LaunchSpecHash r, ri_MaterializationID = rw_MaterializationID r,
     ri_RunID = rw_RunID r, ri_Attempt = rw_Attempt r, ri_StateFact = f, ri_CreatedAt = rw_CreatedAt r\<rparr>"

definition loadLaunchRunIntent :: "LaunchDB \<Rightarrow> string \<Rightarrow> launch_error + LaunchRunIntent option" where
  "loadLaunchRunIntent db runID =
     (case find (\<lambda>r. rw_RunID r = runID) (launch_run_intents db) of
        None \<Rightarrow> Inr None
      | Some r \<Rightarrow>
        andThen (require ErrLaunchRecordCorrupt
          (find (\<lambda>f. rf_RunID f = rw_RunID r \<and> sf_Sequence (rf_Fact f) = 1) (launch_run_state_facts db))) (\<lambda>f.
        andThen (ensure (sf_Kind (rf_Fact f) = LaunchStateFactCreated \<and> sf_Sequence (rf_Fact f) = 1
          \<and> sf_TokenHash (rf_Fact f) = lf_ClaimTokenHash (rw_Fence r) \<and> 1 \<le> rw_Attempt r) ErrLaunchRecordCorrupt) (\<lambda>_.
        Inr (Some (row_intent r (rf_Fact f))))))"

definition loadLaunchRunIntentByGeneration :: "LaunchDB \<Rightarrow> string \<Rightarrow> int \<Rightarrow> launch_error + LaunchRunIntent option" where
  "loadLaunchRunIntentByGeneration db launchSpecHash generation =
     (case find (\<lambda>r. rw_LaunchSpecHash r = launchSpecHash \<and> lf_FenceGeneration (rw_Fence r) = generation) (launch_run_intents db) of
        None \<Rightarrow> Inr None
      | Some r \<Rightarrow> loadLaunchRunIntent db (rw_RunID r))"

definition run_insertable :: "RunIntentRow \<Rightarrow> LaunchDB \<Rightarrow> bool" where
  "run_insertable n db \<longleftrightarrow>
     list_all (\<lambda>r. rw_RunID r \<noteq> rw_RunID n
       \<and> \<not> (rw_LaunchSpecHash r = rw_LaunchSpecHash n \<and> lf_FenceGeneration (rw_Fence r) = lf_FenceGeneration (rw_Fence n))) (launch_run_intents db)
   \<and> 0 < rw_Attempt n \<and> claim_exists (rw_LaunchSpecHash n) (rw_Fence n) db
   \<and> list_ex (\<lambda>m. mz_LaunchSpecHash m = rw_LaunchSpecHash n \<and> mz_MaterializationID m = rw_MaterializationID n \<and> mz_LaunchFence m = rw_Fence n)
       (launch_materializations db)
   \<and> list_all (\<lambda>f. \<not> (rf_RunID f = rw_RunID n \<and> sf_Sequence (rf_Fact f) = 1)) (launch_run_state_facts db)"

definition insert_run_intent ::
    "(nat \<Rightarrow> stamp) \<Rightarrow> string option \<Rightarrow> LaunchRunIntentRequest \<Rightarrow> TaskClaim \<Rightarrow> LaunchDB \<Rightarrow> launch_error + LaunchRunIntent \<times> LaunchDB" where
  "insert_run_intent clock rnd request active db =
     (let n = \<lparr>rw_RunID = iq_RunID request, rw_LaunchSpecHash = tk_LaunchSpecHash active, rw_Fence = tk_LaunchFence active,
           rw_MaterializationID = iq_MaterializationID request, rw_Attempt = iq_Attempt request, rw_CreatedAt = clock 0\<rparr>;
          f = \<lparr>sf_Kind = LaunchStateFactCreated, sf_Sequence = 1, sf_TokenHash = lf_ClaimTokenHash (tk_LaunchFence active), sf_WrittenAt = clock 0\<rparr> in
      andThen (ensure (run_insertable n db) ErrLaunchConstraint) (\<lambda>_.
      andThen (insertLaunchOutbox (clock 1) rnd active 3 LaunchOutboxPendingProcessAdmission
        (db\<lparr>launch_run_intents := launch_run_intents db @ [n],
           launch_run_state_facts := launch_run_state_facts db @ [\<lparr>rf_RunID = iq_RunID request, rf_Fact = f\<rparr>]\<rparr>)) (\<lambda>db.
      Inr (row_intent n f, db))))"

definition CreateLaunchRunIntent ::
    "(nat \<Rightarrow> stamp) \<Rightarrow> string option \<Rightarrow> LaunchRunIntentRequest \<Rightarrow> LaunchDB \<Rightarrow> launch_error + LaunchRunIntent \<times> LaunchDB" where
  "CreateLaunchRunIntent clock rnd request db =
     andThen (validateLaunchRunIntentRequest request) (\<lambda>_.
     andThen (requireActiveLaunchFence db [] (iq_Fence request)) (\<lambda>active.
     andThen (loadLaunchSpec db (tk_LaunchSpecHash active)) (\<lambda>found.
     andThen (require ErrLaunchSpecNotFound found) (\<lambda>storedSpec.
     andThen (ensure (iq_Attempt request = tk_Attempt active) ErrLaunchRunIntentConflict) (\<lambda>_.
     andThen (loadLaunchMaterialization db (tk_LaunchSpecHash active) (lf_FenceGeneration (tk_LaunchFence active))) (\<lambda>found.
     andThen (case found of None \<Rightarrow> Inr () | Some m \<Rightarrow> validatePersistedLaunchMaterialization storedSpec m) (\<lambda>_.
     andThen (require ErrLaunchMaterializationNotReady found) (\<lambda>m.
     andThen (ensure (mz_LaunchFence m = tk_LaunchFence active \<and> mz_MaterializationID m = iq_MaterializationID request)
       ErrLaunchMaterializationNotReady) (\<lambda>_.
     andThen (loadLaunchRunIntent db (iq_RunID request)) (\<lambda>existing.
     case existing of
       Some e \<Rightarrow>
         (if ri_LaunchFence e = iq_Fence request \<and> ri_MaterializationID e = iq_MaterializationID request \<and> ri_Attempt e = iq_Attempt request
          then Inr (e, db) else Inl ErrLaunchRunIntentConflict)
     | None \<Rightarrow>
         andThen (loadLaunchRunIntentByGeneration db (tk_LaunchSpecHash active) (lf_FenceGeneration (tk_LaunchFence active))) (\<lambda>existing.
         case existing of
           Some e \<Rightarrow> (if ri_RunID e = iq_RunID request then Inr (e, db) else Inl ErrLaunchRunIntentConflict)
         | None \<Rightarrow> insert_run_intent clock rnd request active db)))))))))))"

subsection \<open>Terminal and evidence intents\<close>

definition validateLaunchIntentRequest :: "LaunchFence \<Rightarrow> string \<Rightarrow> string \<Rightarrow> launch_error + unit" where
  "validateLaunchIntentRequest fence runID intentID =
     ensure (fence_well_formed fence \<and> ident_pattern 63 runID \<and> ident_pattern 63 intentID) ErrLaunchSpecInvalid"

definition requireLaunchRunIntentFence :: "LaunchDB \<Rightarrow> string \<Rightarrow> TaskClaim \<Rightarrow> launch_error + unit" where
  "requireLaunchRunIntentFence db runID active =
     andThen (loadLaunchRunIntent db runID) (\<lambda>found.
     andThen (require ErrLaunchRunIntentNotFound found) (\<lambda>run.
     ensure (ri_LaunchFence run = tk_LaunchFence active \<and> ri_LaunchSpecHash run = tk_LaunchSpecHash active) ErrLaunchStaleFence))"

definition loadLaunchTerminalIntent :: "LaunchDB \<Rightarrow> string \<Rightarrow> LaunchTerminalIntent option" where
  "loadLaunchTerminalIntent db runID = find (\<lambda>i. ti_RunID i = runID) (launch_terminal_intents db)"

definition loadLaunchEvidenceIntent :: "LaunchDB \<Rightarrow> string \<Rightarrow> launch_error + LaunchEvidenceIntent option" where
  "loadLaunchEvidenceIntent db runID =
     (case find (\<lambda>i. ei_RunID i = runID) (launch_evidence_intents db) of
        None \<Rightarrow> Inr None
      | Some i \<Rightarrow> andThen (ensure (ei_State i = ''settled'') ErrLaunchRecordCorrupt) (\<lambda>_. Inr (Some i)))"

definition intent_insertable :: "('i \<Rightarrow> string) \<Rightarrow> ('i \<Rightarrow> string) \<Rightarrow> ('i \<Rightarrow> LaunchFence) \<Rightarrow> 'i \<Rightarrow> 'i list \<Rightarrow> LaunchDB \<Rightarrow> bool" where
  "intent_insertable intentID runID fence n intents db \<longleftrightarrow>
     list_all (\<lambda>i. intentID i \<noteq> intentID n \<and> runID i \<noteq> runID n) intents
   \<and> list_ex (\<lambda>r. rw_RunID r = runID n \<and> rw_Fence r = fence n) (launch_run_intents db)"

definition AppendLaunchTerminalIntent ::
    "stamp \<Rightarrow> LaunchTerminalIntentRequest \<Rightarrow> LaunchDB \<Rightarrow> launch_error + LaunchTerminalIntent \<times> LaunchDB" where
  "AppendLaunchTerminalIntent now request db =
     andThen (validateLaunchIntentRequest (tq_Fence request) (tq_RunID request) (tq_IntentID request)) (\<lambda>_.
     andThen (requireActiveLaunchFence db [] (tq_Fence request)) (\<lambda>active.
     andThen (requireLaunchRunIntentFence db (tq_RunID request) active) (\<lambda>_.
     case loadLaunchTerminalIntent db (tq_RunID request) of
       Some e \<Rightarrow>
         (if ti_LaunchFence e = tq_Fence request \<and> ti_IntentID e = tq_IntentID request then Inr (e, db) else Inl ErrLaunchTerminalIntentConflict)
     | None \<Rightarrow>
         let i = \<lparr>ti_LaunchFence = tk_LaunchFence active, ti_RunID = tq_RunID request, ti_IntentID = tq_IntentID request, ti_CreatedAt = now\<rparr> in
         andThen (ensure (intent_insertable ti_IntentID ti_RunID ti_LaunchFence i (launch_terminal_intents db) db) ErrLaunchConstraint) (\<lambda>_.
         Inr (i, db\<lparr>launch_terminal_intents := launch_terminal_intents db @ [i]\<rparr>)))))"

definition SettleLaunchEvidenceIntent ::
    "stamp \<Rightarrow> LaunchEvidenceIntentRequest \<Rightarrow> LaunchDB \<Rightarrow> launch_error + LaunchEvidenceIntent \<times> LaunchDB" where
  "SettleLaunchEvidenceIntent now request db =
     andThen (validateLaunchIntentRequest (eq_Fence request) (eq_RunID request) (eq_IntentID request)) (\<lambda>_.
     andThen (requireActiveLaunchFence db [] (eq_Fence request)) (\<lambda>active.
     andThen (requireLaunchRunIntentFence db (eq_RunID request) active) (\<lambda>_.
     andThen (loadLaunchEvidenceIntent db (eq_RunID request)) (\<lambda>existing.
     case existing of
       Some e \<Rightarrow>
         (if ei_LaunchFence e = eq_Fence request \<and> ei_IntentID e = eq_IntentID request then Inr (e, db) else Inl ErrLaunchEvidenceIntentConflict)
     | None \<Rightarrow>
         let i = \<lparr>ei_LaunchFence = tk_LaunchFence active, ei_RunID = eq_RunID request, ei_IntentID = eq_IntentID request,
               ei_State = ''settled'', ei_CreatedAt = now\<rparr> in
         andThen (ensure (intent_insertable ei_IntentID ei_RunID ei_LaunchFence i (launch_evidence_intents db) db) ErrLaunchConstraint) (\<lambda>_.
         Inr (i, db\<lparr>launch_evidence_intents := launch_evidence_intents db @ [i]\<rparr>))))))"

subsection \<open>The recovery boundary\<close>

text \<open>\<open>ORDER BY sequence DESC LIMIT 1\<close> is the row of the largest sequence.\<close>

definition loadLatestLaunchOutbox :: "LaunchDB \<Rightarrow> string \<Rightarrow> int \<Rightarrow> launch_error + LaunchOutbox" where
  "loadLatestLaunchOutbox db launchSpecHash generation =
     (let rows = filter (\<lambda>o'. lo_LaunchSpecHash o' = launchSpecHash \<and> lf_FenceGeneration (lo_LaunchFence o') = generation) (launch_admission_outbox db) in
      case order_by (\<lambda>o'. - lo_Sequence o') rows of
        [] \<Rightarrow> Inl ErrLaunchRecordCorrupt
      | o' # _ \<Rightarrow> andThen (ensure (validLaunchOutboxStage (lo_Sequence o') (lo_State o')) ErrLaunchRecordCorrupt) (\<lambda>_. Inr o'))"

definition boundary_action ::
    "LaunchOutboxState \<Rightarrow> LaunchMaterialization option \<Rightarrow> LaunchRunIntent option \<Rightarrow> launch_error + LaunchRecoveryAction" where
  "boundary_action state m run =
     (case state of
        LaunchOutboxPendingMaterialization \<Rightarrow>
          if m \<noteq> None \<or> run \<noteq> None then Inl ErrLaunchRecordCorrupt else Inr LaunchRecoveryRetryMaterialization
      | LaunchOutboxPendingRunAdmission \<Rightarrow>
          if m = None \<or> run \<noteq> None then Inl ErrLaunchRecordCorrupt else Inr LaunchRecoveryRetryRunAdmission
      | LaunchOutboxPendingProcessAdmission \<Rightarrow>
          if m = None \<or> run = None then Inl ErrLaunchRecordCorrupt else Inr LaunchRecoveryRetryProcessAdmission)"

text \<open>The facts of the active generation the boundary carries, each bound to the claim's fence.\<close>

definition boundary_materialization ::
    "LaunchDB \<Rightarrow> string \<Rightarrow> TaskClaim \<Rightarrow> StoredLaunchSpec \<Rightarrow> launch_error + LaunchMaterialization option" where
  "boundary_materialization db launchSpecHash claim storedSpec =
     andThen (loadLaunchMaterialization db launchSpecHash (lf_FenceGeneration (tk_LaunchFence claim))) (\<lambda>found.
     case found of
       None \<Rightarrow> Inr None
     | Some m \<Rightarrow>
         andThen (validatePersistedLaunchMaterialization storedSpec m) (\<lambda>_.
         andThen (ensure (mz_LaunchFence m = tk_LaunchFence claim) ErrLaunchRecordCorrupt) (\<lambda>_. Inr (Some m))))"

definition boundary_run ::
    "LaunchDB \<Rightarrow> string \<Rightarrow> TaskClaim \<Rightarrow> LaunchMaterialization option
      \<Rightarrow> launch_error + LaunchRunIntent option \<times> LaunchTerminalIntent option \<times> LaunchEvidenceIntent option" where
  "boundary_run db launchSpecHash claim m =
     andThen (loadLaunchRunIntentByGeneration db launchSpecHash (lf_FenceGeneration (tk_LaunchFence claim))) (\<lambda>found.
     case found of
       None \<Rightarrow> Inr (None, None, None)
     | Some run \<Rightarrow>
         andThen (ensure (ri_LaunchFence run = tk_LaunchFence claim) ErrLaunchRecordCorrupt) (\<lambda>_.
         andThen (ensure (m \<noteq> None \<and> ri_MaterializationID run = mz_MaterializationID (the m)) ErrLaunchRecordCorrupt) (\<lambda>_.
         let terminal = loadLaunchTerminalIntent db (ri_RunID run) in
         andThen (ensure (pred_option (\<lambda>i. ti_LaunchFence i = tk_LaunchFence claim) terminal) ErrLaunchRecordCorrupt) (\<lambda>_.
         andThen (loadLaunchEvidenceIntent db (ri_RunID run)) (\<lambda>evidence.
         andThen (ensure (pred_option (\<lambda>i. ei_LaunchFence i = tk_LaunchFence claim) evidence) ErrLaunchRecordCorrupt) (\<lambda>_.
         Inr (Some run, terminal, evidence)))))))"

definition loadLaunchRecoveryBoundary :: "LaunchDB \<Rightarrow> string \<Rightarrow> launch_error + LaunchRecoveryBoundary" where
  "loadLaunchRecoveryBoundary db launchSpecHash =
     andThen (loadActiveLaunchClaim db launchSpecHash) (\<lambda>found.
     andThen (require ErrLaunchClaimNotFound found) (\<lambda>claim.
     andThen (loadLaunchSpec db launchSpecHash) (\<lambda>found.
     andThen (require ErrLaunchSpecNotFound found) (\<lambda>storedSpec.
     andThen (loadLatestLaunchOutbox db launchSpecHash (lf_FenceGeneration (tk_LaunchFence claim))) (\<lambda>outbox.
     andThen (ensure (lo_LaunchFence outbox = tk_LaunchFence claim) ErrLaunchRecordCorrupt) (\<lambda>_.
     andThen (boundary_materialization db launchSpecHash claim storedSpec) (\<lambda>m.
     andThen (boundary_run db launchSpecHash claim m) (\<lambda>(run, terminal, evidence).
     andThen (boundary_action (lo_State outbox) m run) (\<lambda>action.
     Inr \<lparr>lb_LaunchSpecHash = launchSpecHash, lb_Claim = claim, lb_Outbox = outbox, lb_Materialization = m, lb_RunIntent = run,
       lb_TerminalIntent = terminal, lb_EvidenceIntent = evidence, lb_Action = action\<rparr>)))))))))"

definition GetLaunchRecoveryBoundary :: "LaunchDB \<Rightarrow> string \<Rightarrow> launch_error + LaunchRecoveryBoundary" where
  "GetLaunchRecoveryBoundary db launchSpecHash = loadLaunchRecoveryBoundary db launchSpecHash"

text \<open>\<open>invoke\<close> is the caller's function (\<open>None\<close> for nil); the transaction is rolled back, so no table changes.\<close>

definition WithLaunchFenceAdmission ::
    "LaunchDB \<Rightarrow> string \<Rightarrow> LaunchFence \<Rightarrow> (LaunchRecoveryBoundary \<Rightarrow> launch_error + 'a) option \<Rightarrow> launch_error + 'a" where
  "WithLaunchFenceAdmission db launchSpecHash fence invoke =
     andThen (require ErrLaunchRecordCorrupt invoke) (\<lambda>invoke.
     andThen (loadLaunchRecoveryBoundary db launchSpecHash) (\<lambda>boundary.
     andThen (ensure (tk_LaunchFence (lb_Claim boundary) = fence) ErrLaunchStaleFence) (\<lambda>_.
     invoke boundary)))"

text \<open>The heads with their claims' creation texts; a head without its claim has NULL there, which SQLite orders first.\<close>

definition head_created :: "LaunchDB \<Rightarrow> ClaimHeadRow \<Rightarrow> string" where
  "head_created db h =
     (case find (\<lambda>c. cl_LaunchSpecHash c = hd_LaunchSpecHash h \<and> cl_Fence c = hd_Fence h) (task_claims db) of
        None \<Rightarrow> [] | Some c \<Rightarrow> stamp_text (cl_CreatedAt c))"

definition ListLaunchRecoveryBoundaries :: "LaunchDB \<Rightarrow> LaunchRecoveryResult list" where
  "ListLaunchRecoveryBoundaries db =
     map (\<lambda>h. case GetLaunchRecoveryBoundary db h of
           Inl e \<Rightarrow> \<lparr>lx_LaunchSpecHash = h, lx_Boundary = None, lx_Cause = Some e\<rparr>
         | Inr b \<Rightarrow> \<lparr>lx_LaunchSpecHash = h, lx_Boundary = Some b, lx_Cause = None\<rparr>)
       (map hd_LaunchSpecHash (order_by (head_created db) (order_by hd_LaunchSpecHash (launch_claim_heads db))))"

end
