(* ===== verification/Launch_Invariants.thy ===== *)
theory Launch_Invariants
  imports Launch_Store Proposal_Facts
begin

section \<open>The invariant of launch admission\<close>

text \<open>
  The steps of the store (the proposal mutations and the six mutations of launch admission) and what holds
  of every database they produce.  A fact is owned by a spec hash and a fence; \<open>claim_ids\<close>, \<open>mat_ids\<close>,
  \<open>run_ids\<close> and \<open>stage_ids n\<close> are the owners of the claims, materializations, run intents and outbox rows of
  stage \<open>n\<close>.
\<close>

definition emptyLaunch :: LaunchDB where
  "emptyLaunch = \<lparr>ld_proposals = emptyProposals, launch_specs = [], task_claims = [], launch_claim_heads = [], launch_materializations = [],
     launch_admission_outbox = [], launch_run_intents = [], launch_run_state_facts = [], launch_terminal_intents = [], launch_evidence_intents = []\<rparr>"

text \<open>\<open>nowStamp\<close> reads the wall clock, which is never Go's zero time (the first second of the year 1).\<close>

definition real_clock :: "ProposalDB \<Rightarrow> bool" where
  "real_clock db \<longleftrightarrow> (\<forall>a \<in> set (task_proposal_approvals db). ap_DecidedAt a \<noteq> Some zeroTime)"

inductive launch_step :: "LaunchDB \<Rightarrow> LaunchDB \<Rightarrow> bool" where
  proposals: "proposal_step (ld_proposals db) pdb \<Longrightarrow> real_clock pdb \<Longrightarrow> launch_step db (db\<lparr>ld_proposals := pdb\<rparr>)"
| store: "StoreLaunchSpec now request db = Inr (s, db') \<Longrightarrow> launch_step db db'"
| acquire: "AcquireLaunchClaim clock rnd claim_request db = Inr (c, db') \<Longrightarrow> launch_step db db'"
| reclaim: "ReclaimLaunchClaim clock rnd reclaim_request db = Inr (c, db') \<Longrightarrow> launch_step db db'"
| materialize: "RecordLaunchMaterializationReady clock rnd mat_request db = Inr (m, db') \<Longrightarrow> launch_step db db'"
| run: "CreateLaunchRunIntent clock rnd run_request db = Inr (r, db') \<Longrightarrow> launch_step db db'"
| terminal: "AppendLaunchTerminalIntent now terminal_request db = Inr (t, db') \<Longrightarrow> launch_step db db'"
| evidence: "SettleLaunchEvidenceIntent now evidence_request db = Inr (e, db') \<Longrightarrow> launch_step db db'"

abbreviation launch_reachable :: "LaunchDB \<Rightarrow> bool" where
  "launch_reachable db \<equiv> launch_step\<^sup>*\<^sup>* emptyLaunch db"

subsection \<open>Owners\<close>

definition cl_id :: "TaskClaimRow \<Rightarrow> string \<times> LaunchFence" where
  "cl_id c = (cl_LaunchSpecHash c, cl_Fence c)"

definition cl_gen :: "TaskClaimRow \<Rightarrow> int" where
  "cl_gen c = lf_FenceGeneration (cl_Fence c)"

definition hd_id :: "ClaimHeadRow \<Rightarrow> string \<times> LaunchFence" where
  "hd_id h = (hd_LaunchSpecHash h, hd_Fence h)"

definition mz_id :: "LaunchMaterialization \<Rightarrow> string \<times> LaunchFence" where
  "mz_id m = (mz_LaunchSpecHash m, mz_LaunchFence m)"

definition rw_id :: "RunIntentRow \<Rightarrow> string \<times> LaunchFence" where
  "rw_id r = (rw_LaunchSpecHash r, rw_Fence r)"

definition lo_id :: "LaunchOutbox \<Rightarrow> string \<times> LaunchFence" where
  "lo_id o' = (lo_LaunchSpecHash o', lo_LaunchFence o')"

definition claim_ids :: "LaunchDB \<Rightarrow> (string \<times> LaunchFence) set" where
  "claim_ids db = cl_id ` set (task_claims db)"

definition mat_ids :: "LaunchDB \<Rightarrow> (string \<times> LaunchFence) set" where
  "mat_ids db = mz_id ` set (launch_materializations db)"

definition run_ids :: "LaunchDB \<Rightarrow> (string \<times> LaunchFence) set" where
  "run_ids db = rw_id ` set (launch_run_intents db)"

definition stage_ids :: "int \<Rightarrow> LaunchDB \<Rightarrow> (string \<times> LaunchFence) set" where
  "stage_ids n db = lo_id ` {o' \<in> set (launch_admission_outbox db). lo_Sequence o' = n}"

text \<open>The number of claims of a spec: its current generation.\<close>

definition generation :: "LaunchDB \<Rightarrow> string \<Rightarrow> int" where
  "generation db h = int (length (log_seqs cl_LaunchSpecHash cl_gen h (task_claims db)))"

subsection \<open>Definition\<close>

definition backed :: "ProposalDB \<Rightarrow> LaunchSpecRow \<Rightarrow> bool" where
  "backed pdb r \<longleftrightarrow> (\<exists>p a.
     find_proposal (sr_ProposalID r) (task_proposals pdb) = Some p \<and> pr_State p = ProposalStateApproved
   \<and> pr_CurrentRevision p = sr_Revision r \<and> pr_CurrentRevisionHash p = sr_RevisionHash r
   \<and> find_approval (sr_ApprovalID r) (task_proposal_approvals pdb) = Some a \<and> ap_State a = ApprovalStateApproved
   \<and> ap_ident a = (sr_ProposalID r, sr_Revision r, sr_RevisionHash r)
   \<and> ap_DecidedAt a = Some (sr_ApprovedAt r) \<and> ap_DecidedBy a = Some (sr_ApprovedBy r))"

definition spec_ok :: "LaunchSpecRow \<Rightarrow> bool" where
  "spec_ok r \<longleftrightarrow> (\<exists>s. HashLaunchSpec s = Inr (sr_LaunchSpecHash r) \<and> canonicalJSON (launchSpecCanonicalValue s) = Inr (sr_SpecJSON r)
     \<and> lp_Revision s = row_revision r)
   \<and> sr_ApprovalState r = ApprovalStateApproved \<and> sr_ApprovedBy r = localGUIOperator \<and> sr_ApprovedAt r \<noteq> zeroTime"

definition specs_inv :: "LaunchDB \<Rightarrow> bool" where
  "specs_inv db \<longleftrightarrow> unique_key sr_LaunchSpecHash (launch_specs db)
   \<and> (\<forall>r \<in> set (launch_specs db). spec_ok r \<and> backed (ld_proposals db) r)"

definition claims_inv :: "LaunchDB \<Rightarrow> bool" where
  "claims_inv db \<longleftrightarrow>
     distinct (map (lf_ClaimID \<circ> cl_Fence) (task_claims db))
   \<and> (\<forall>h. gapless 1 (log_seqs cl_LaunchSpecHash cl_gen h (task_claims db)))
   \<and> (\<forall>c \<in> set (task_claims db). find_spec (cl_LaunchSpecHash c) db \<noteq> None \<and> 1 \<le> cl_Attempt c \<and> fence_well_formed (cl_Fence c))"

definition heads_inv :: "LaunchDB \<Rightarrow> bool" where
  "heads_inv db \<longleftrightarrow>
     unique_key hd_LaunchSpecHash (launch_claim_heads db)
   \<and> hd_LaunchSpecHash ` set (launch_claim_heads db) = cl_LaunchSpecHash ` set (task_claims db)
   \<and> (\<forall>h \<in> set (launch_claim_heads db). hd_id h \<in> claim_ids db \<and> lf_FenceGeneration (hd_Fence h) = generation db (hd_LaunchSpecHash h))"

definition outbox_inv :: "LaunchDB \<Rightarrow> bool" where
  "outbox_inv db \<longleftrightarrow>
     unique_key (\<lambda>o'. (lo_id o', lo_Sequence o')) (launch_admission_outbox db)
   \<and> distinct (map lo_OutboxID (launch_admission_outbox db))
   \<and> (\<forall>o' \<in> set (launch_admission_outbox db). validLaunchOutboxStage (lo_Sequence o') (lo_State o'))
   \<and> stage_ids 1 db = claim_ids db \<and> stage_ids 2 db = mat_ids db \<and> stage_ids 3 db = run_ids db
   \<and> run_ids db \<subseteq> mat_ids db \<and> mat_ids db \<subseteq> claim_ids db"

definition sealed_of :: "LaunchDB \<Rightarrow> string \<Rightarrow> LaunchSealedContract option" where
  "sealed_of db h = map_option lp_SealedContract (Option.bind (find_spec h db) (\<lambda>r. Option.bind (decodeJSON (sr_SpecJSON r)) decodeLaunchSpec))"

definition mats_inv :: "LaunchDB \<Rightarrow> bool" where
  "mats_inv db \<longleftrightarrow>
     unique_key mz_id (launch_materializations db) \<and> distinct (map mz_MaterializationID (launch_materializations db))
   \<and> (\<forall>m \<in> set (launch_materializations db). launchHashPattern (mz_MaterializationHash m) \<and> launchNoncePattern (mz_Nonce m)
        \<and> sealed_of db (mz_LaunchSpecHash m) = Some \<lparr>sc_MaterializationHash = mz_MaterializationHash m, sc_Nonce = mz_Nonce m\<rparr>)"

definition runs_inv :: "LaunchDB \<Rightarrow> bool" where
  "runs_inv db \<longleftrightarrow>
     unique_key rw_id (launch_run_intents db) \<and> unique_key rw_RunID (launch_run_intents db)
   \<and> map (\<lambda>f. (rf_RunID f, sf_TokenHash (rf_Fact f), sf_Sequence (rf_Fact f))) (launch_run_state_facts db) =
       map (\<lambda>r. (rw_RunID r, lf_ClaimTokenHash (rw_Fence r), 1)) (launch_run_intents db)
   \<and> (\<forall>r \<in> set (launch_run_intents db).
        (\<exists>m \<in> set (launch_materializations db). mz_id m = rw_id r \<and> mz_MaterializationID m = rw_MaterializationID r)
      \<and> (\<exists>c \<in> set (task_claims db). cl_id c = rw_id r \<and> cl_Attempt c = rw_Attempt r))"

definition intents_inv :: "LaunchDB \<Rightarrow> bool" where
  "intents_inv db \<longleftrightarrow>
     unique_key ti_RunID (launch_terminal_intents db) \<and> distinct (map ti_IntentID (launch_terminal_intents db))
   \<and> unique_key ei_RunID (launch_evidence_intents db) \<and> distinct (map ei_IntentID (launch_evidence_intents db))
   \<and> (\<forall>i \<in> set (launch_terminal_intents db). (ti_RunID i, ti_LaunchFence i) \<in> (\<lambda>r. (rw_RunID r, rw_Fence r)) ` set (launch_run_intents db))
   \<and> (\<forall>i \<in> set (launch_evidence_intents db). ei_State i = ''settled''
        \<and> (ei_RunID i, ei_LaunchFence i) \<in> (\<lambda>r. (rw_RunID r, rw_Fence r)) ` set (launch_run_intents db))"

definition launch_inv :: "LaunchDB \<Rightarrow> bool" where
  "launch_inv db \<longleftrightarrow> proposal_inv (ld_proposals db) \<and> real_clock (ld_proposals db) \<and> specs_inv db \<and> claims_inv db \<and> heads_inv db
   \<and> outbox_inv db \<and> mats_inv db \<and> runs_inv db \<and> intents_inv db"

lemma launch_invD:
  assumes "launch_inv db"
  shows "proposal_inv (ld_proposals db)" "real_clock (ld_proposals db)" "specs_inv db" "claims_inv db" "heads_inv db" "outbox_inv db"
    "mats_inv db" "runs_inv db" "intents_inv db"
  using assms by (simp_all add: launch_inv_def)

lemmas launch_inv_defs = specs_inv_def claims_inv_def heads_inv_def outbox_inv_def mats_inv_def runs_inv_def intents_inv_def

lemmas owner_defs = claim_ids_def mat_ids_def run_ids_def stage_ids_def generation_def sealed_of_def

lemma launch_inv_empty: "launch_inv emptyLaunch"
  by (simp add: launch_inv_def launch_inv_defs emptyLaunch_def proposal_inv_empty real_clock_def owner_defs unique_key_def log_seqs_def)
    (simp add: emptyProposals_def)

interpretation claim_log: seq_log cl_LaunchSpecHash cl_gen 1
  by unfold_locales simp

interpretation specs_tab: keyed_table sr_LaunchSpecHash "\<lambda>h. find (\<lambda>r. sr_LaunchSpecHash r = h)"
  by unfold_locales (simp add: find_key_Some)

interpretation runs_tab: keyed_table rw_RunID "\<lambda>k. find (\<lambda>r. rw_RunID r = k)"
  by unfold_locales (simp add: find_key_Some)

interpretation heads_tab: keyed_table hd_LaunchSpecHash "\<lambda>h. find (\<lambda>r. hd_LaunchSpecHash r = h)"
  by unfold_locales (simp add: find_key_Some)

end
