(* ===== verification/Launch_Steps.thy ===== *)
theory Launch_Steps
  imports Launch_Invariants
begin

section \<open>The steps of launch admission preserve the invariant\<close>

text \<open>
  For each mutation the rows a successful call writes, and from them that \<open>launch_inv\<close> is kept.
\<close>

subsection \<open>What the checks of a successful call say\<close>

lemmas launch_unfold = andThen_Inr ensure_Inr require_Inr sum.inject option.case

lemma load_active_Some:
  assumes "loadActiveLaunchClaim db h = Inr (Some a)"
  obtains c d where "c \<in> set (task_claims db)" "a = row_claim c" "cl_LaunchSpecHash c = h"
    "d \<in> set (launch_claim_heads db)" "hd_id d = cl_id c"
  using assms
  by (force simp: loadActiveLaunchClaim_def launch_unfold hd_id_def cl_id_def split: option.splits dest!: find_SomeD)

lemma load_active_None: "loadActiveLaunchClaim db h = Inr None \<Longrightarrow> h \<notin> hd_LaunchSpecHash ` set (launch_claim_heads db)"
  by (auto simp: loadActiveLaunchClaim_def launch_unfold find_None_iff_set split: option.splits)

lemma fence_active:
  assumes "requireActiveLaunchFence db k f = Inr a"
  obtains c d where "c \<in> set (task_claims db)" "a = row_claim c" "cl_Fence c = f" "k \<noteq> [] \<Longrightarrow> cl_LaunchSpecHash c = k"
    "d \<in> set (launch_claim_heads db)" "hd_id d = cl_id c"
proof -
  from assms obtain h where h: "loadActiveLaunchClaim db h = Inr (Some a)" "tk_LaunchFence a = f" "k \<noteq> [] \<Longrightarrow> h = k"
    by (auto simp: requireActiveLaunchFence_def launch_unfold split: if_splits)
  from h(1) show ?thesis by (rule load_active_Some) (use h(2,3) that in \<open>auto simp: row_claim_def\<close>)
qed

lemma active_generation:
  assumes "heads_inv db" "d \<in> set (launch_claim_heads db)" "hd_id d = cl_id c"
  shows "cl_gen c = generation db (cl_LaunchSpecHash c)"
  using assms by (auto simp: heads_inv_def hd_id_def cl_id_def cl_gen_def)

definition outbox_row :: "stamp \<Rightarrow> string \<Rightarrow> TaskClaimRow \<Rightarrow> int \<Rightarrow> LaunchOutboxState \<Rightarrow> LaunchOutbox" where
  "outbox_row now i c n state = \<lparr>lo_LaunchFence = cl_Fence c, lo_LaunchSpecHash = cl_LaunchSpecHash c, lo_OutboxID = i, lo_Sequence = n,
     lo_State = state, lo_CreatedAt = now\<rparr>"

lemma outbox_row_id [simp]: "lo_id (outbox_row now i c n state) = cl_id c" "lo_Sequence (outbox_row now i c n state) = n"
  by (simp_all add: outbox_row_def lo_id_def cl_id_def)

definition outbox_core :: "LaunchOutbox list \<Rightarrow> bool" where
  "outbox_core t \<longleftrightarrow> unique_key (\<lambda>o'. (lo_id o', lo_Sequence o')) t \<and> distinct (map lo_OutboxID t)
   \<and> (\<forall>o' \<in> set t. validLaunchOutboxStage (lo_Sequence o') (lo_State o'))"

lemma outbox_inv_core:
  "outbox_inv db \<longleftrightarrow> outbox_core (launch_admission_outbox db)
   \<and> stage_ids 1 db = claim_ids db \<and> stage_ids 2 db = mat_ids db \<and> stage_ids 3 db = run_ids db
   \<and> run_ids db \<subseteq> mat_ids db \<and> mat_ids db \<subseteq> claim_ids db"
  by (auto simp: outbox_inv_def outbox_core_def)

lemma stage_ids_snoc:
  "launch_admission_outbox db' = launch_admission_outbox db @ [x]
    \<Longrightarrow> stage_ids n db' = (if lo_Sequence x = n then insert (lo_id x) (stage_ids n db) else stage_ids n db)"
  by (auto simp: stage_ids_def)

lemma insertLaunchOutbox_Inr:
  assumes "insertLaunchOutbox now rnd (row_claim c) n state db = Inr db'" "outbox_core (launch_admission_outbox db)"
  obtains i where "db' = db\<lparr>launch_admission_outbox := launch_admission_outbox db @ [outbox_row now i c n state]\<rparr>"
    "outbox_core (launch_admission_outbox db @ [outbox_row now i c n state])"
proof -
  from assms(1) obtain i where i: "db' = db\<lparr>launch_admission_outbox := launch_admission_outbox db @ [outbox_row now i c n state]\<rparr>"
    "\<forall>o' \<in> set (launch_admission_outbox db). lo_OutboxID o' \<noteq> i \<and> \<not> (lo_LaunchSpecHash o' = cl_LaunchSpecHash c
       \<and> lf_FenceGeneration (lo_LaunchFence o') = lf_FenceGeneration (cl_Fence c) \<and> lo_Sequence o' = n)"
    "validLaunchOutboxStage n state"
    by (auto simp: insertLaunchOutbox_def launch_unfold row_claim_def outbox_row_def list_all_iff split: sum.splits)
  from i(2,3) assms(2) have "outbox_core (launch_admission_outbox db @ [outbox_row now i c n state])"
    by (auto simp: outbox_core_def unique_key_def outbox_row_def lo_id_def)
  with i(1) that show ?thesis by blast
qed

subsection \<open>Specs\<close>

lemma eligibility_backed:
  assumes e: "validateLaunchApprovalEligibility pdb v aid = Inr e" and inv: "proposal_inv pdb" and clock: "real_clock pdb"
    and r: "sr_ProposalID r = lr_ProposalID v" "sr_Revision r = lr_Revision v" "sr_RevisionHash r = lr_RevisionHash v"
      "sr_ApprovalID r = le_ApprovalID e" "sr_ApprovedAt r = le_ApprovedAt e" "sr_ApprovedBy r = le_ApprovedBy e"
  shows "backed pdb r" "le_ApprovalID e = aid" "le_ApprovedAt e \<noteq> zeroTime" "le_ApprovedBy e = localGUIOperator" "le_State e = ApprovalStateApproved"
proof -
  from e obtain p l a xs where rows: "eligibility_rows pdb v aid = (p, l, a) # xs"
    and a: "ap_DecidedBy a = Some (le_ApprovedBy e)" "ap_DecidedAt a = Some (le_ApprovedAt e)" "ap_State a = ApprovalStateApproved"
      "le_ApprovedBy e = localGUIOperator" "pr_State p = ProposalStateApproved" "le_ApprovalID e = ap_ApprovalID a" "le_State e = ap_State a"
    by (auto simp: validateLaunchApprovalEligibility_def launch_unfold split: list.splits)
  have "(p, l, a) \<in> set (eligibility_rows pdb v aid)" using rows by simp
  then have m: "p \<in> set (task_proposals pdb)" "a \<in> set (task_proposal_approvals pdb)" "ap_ApprovalID a = aid"
    "pr_ProposalID p = lr_ProposalID v" "pr_CurrentRevision p = lr_Revision v" "pr_CurrentRevisionHash p = lr_RevisionHash v"
    "ap_ident a = (lr_ProposalID v, lr_Revision v, lr_RevisionHash v)"
    by (auto simp: eligibility_rows_def rv_ident_def ap_ident_def split: if_splits)
  have "find_proposal (lr_ProposalID v) (task_proposals pdb) = Some p"
    using m(1,4) inv by (auto simp: proposals_tab.get_Some proposal_inv_def numbering_ok_def)
  moreover have "find_approval aid (task_proposal_approvals pdb) = Some a"
    using m(2,3) approvals_unique [OF inv] by (auto simp: approvals_tab.get_Some)
  ultimately show "backed pdb r" using a m r by (simp add: backed_def)
  show "le_ApprovalID e = aid" "le_ApprovedBy e = localGUIOperator" "le_State e = ApprovalStateApproved" using a m by auto
  show "le_ApprovedAt e \<noteq> zeroTime" using clock m(2) a(2) by (auto simp: real_clock_def)
qed

lemma store_writes:
  assumes op: "StoreLaunchSpec now request db = Inr (s, db')" and inv: "launch_inv db"
  obtains (replay) "db' = db"
  | (new) n where "db' = db\<lparr>launch_specs := launch_specs db @ [n]\<rparr>" "spec_ok n" "backed (ld_proposals db) n"
    "sr_LaunchSpecHash n \<notin> sr_LaunchSpecHash ` set (launch_specs db)"
proof -
  from op consider "db' = db"
    | e canonical where "HashLaunchSpec (la_Spec request) = Inr (la_LaunchSpecHash request)"
      "canonicalJSON (launchSpecCanonicalValue (la_Spec request)) = Inr canonical"
      "validateLaunchApprovalEligibility (ld_proposals db) (lp_Revision (la_Spec request)) (la_ApprovalID request) = Inr e"
      "spec_insertable (spec_row now request e canonical) db"
      "db' = db\<lparr>launch_specs := launch_specs db @ [spec_row now request e canonical]\<rparr>"
    by (auto simp: StoreLaunchSpec_def launch_unfold launch_msg_def Let_def split: sum.splits option.splits if_splits)
  then show ?thesis
  proof cases
    case (2 e canonical)
    let ?n = "spec_row now request e canonical"
    have b: "backed (ld_proposals db) ?n" "le_ApprovedAt e \<noteq> zeroTime" "le_ApprovedBy e = localGUIOperator" "le_State e = ApprovalStateApproved"
      by (rule eligibility_backed [OF 2(3) launch_invD(1,2) [OF inv], of ?n]; simp add: spec_row_def)+
    have "lp_Revision (la_Spec request) = row_revision ?n" by (simp add: row_revision_def spec_row_def)
    then have "spec_ok ?n" unfolding spec_ok_def using 2(1,2) b(2-4) by (intro conjI exI [of _ "la_Spec request"]) (simp_all add: spec_row_def)
    moreover have "sr_LaunchSpecHash ?n \<notin> sr_LaunchSpecHash ` set (launch_specs db)"
      using 2(4) by (auto simp: spec_insertable_def list_all_iff)
    ultimately show ?thesis using that(2) 2(5) b(1) by blast
  qed (rule that(1))
qed

lemma launch_inv_store:
  assumes inv: "launch_inv db" and n: "spec_ok n" "backed (ld_proposals db) n" "sr_LaunchSpecHash n \<notin> sr_LaunchSpecHash ` set (launch_specs db)"
  shows "launch_inv (db\<lparr>launch_specs := launch_specs db @ [n]\<rparr>)"
proof -
  let ?db = "db\<lparr>launch_specs := launch_specs db @ [n]\<rparr>"
  have find: "find_spec h db = Some r \<Longrightarrow> find_spec h ?db = Some r" for h r by (simp add: find_spec_def find_append)
  then have sealed: "sealed_of db h = Some x \<Longrightarrow> sealed_of ?db h = Some x" for h x
    by (cases "find_spec h db") (auto simp: sealed_of_def)
  note d = launch_invD [OF inv]
  have "specs_inv ?db" using d(3) n by (auto simp: specs_inv_def unique_key_def)
  moreover have "claims_inv ?db" using d(4) find by (fastforce simp: claims_inv_def)
  moreover have "mats_inv ?db" using d(7) sealed by (simp add: mats_inv_def)
  ultimately show ?thesis
    using d by (simp add: launch_inv_def heads_inv_def outbox_inv_def runs_inv_def intents_inv_def claim_ids_def mat_ids_def run_ids_def stage_ids_def generation_def)
qed

lemma backed_evolves:
  assumes "backed pdb r" "db_evolves pdb pdb'"
  shows "backed pdb' r"
proof -
  from assms(1) obtain p a where pa: "find_proposal (sr_ProposalID r) (task_proposals pdb) = Some p" "pr_State p = ProposalStateApproved"
    "pr_CurrentRevision p = sr_Revision r" "pr_CurrentRevisionHash p = sr_RevisionHash r"
    "find_approval (sr_ApprovalID r) (task_proposal_approvals pdb) = Some a" "ap_State a = ApprovalStateApproved"
    "ap_ident a = (sr_ProposalID r, sr_Revision r, sr_RevisionHash r)"
    "ap_DecidedAt a = Some (sr_ApprovedAt r)" "ap_DecidedBy a = Some (sr_ApprovedBy r)"
    by (auto simp: backed_def)
  have "find_proposal (sr_ProposalID r) (task_proposals pdb') = Some p"
    using db_evolvesD(4) [OF assms(2) pa(1)] pa(2) by (auto simp: proposal_evolves_def)
  moreover have "find_approval (sr_ApprovalID r) (task_proposal_approvals pdb') = Some a"
    using db_evolvesD(5) [OF assms(2) pa(5)] pa(6) by (auto simp: approval_evolves_def)
  ultimately show ?thesis using pa by (simp add: backed_def)
qed

lemma launch_inv_proposals:
  assumes inv: "launch_inv db" and step: "proposal_step (ld_proposals db) pdb" "real_clock pdb"
  shows "launch_inv (db\<lparr>ld_proposals := pdb\<rparr>)"
proof -
  note d = launch_invD [OF inv]
  have "db_evolves (ld_proposals db) pdb" by (rule proposal_step_evolves [OF step(1) d(1)])
  then have "specs_inv (db\<lparr>ld_proposals := pdb\<rparr>)" using d(3) backed_evolves by (auto simp: specs_inv_def)
  then show ?thesis
    using d proposal_step_inv [OF step(1)] step(2)
    by (simp add: launch_inv_def claims_inv_def heads_inv_def outbox_inv_def mats_inv_def runs_inv_def intents_inv_def owner_defs find_spec_def)
qed

subsection \<open>Claims\<close>

definition new_claim :: "LaunchDB \<Rightarrow> TaskClaimRow \<Rightarrow> bool" where
  "new_claim db n \<longleftrightarrow> lf_ClaimID (cl_Fence n) \<notin> (lf_ClaimID \<circ> cl_Fence) ` set (task_claims db)
   \<and> find_spec (cl_LaunchSpecHash n) db \<noteq> None \<and> 1 \<le> cl_Attempt n \<and> fence_well_formed (cl_Fence n)
   \<and> cl_gen n = generation db (cl_LaunchSpecHash n) + 1"

definition new_head :: "TaskClaimRow \<Rightarrow> ClaimHeadRow" where
  "new_head n = \<lparr>hd_LaunchSpecHash = cl_LaunchSpecHash n, hd_Fence = cl_Fence n\<rparr>"

text \<open>The claim a request asks for, with the checks of the request and of the table.\<close>

definition claim_row :: "stamp \<Rightarrow> LaunchClaimRequest \<Rightarrow> int \<Rightarrow> TaskClaimRow" where
  "claim_row now r g = \<lparr>cl_LaunchSpecHash = cq_LaunchSpecHash r, cl_Fence = request_fence r g, cl_OwnerID = cq_OwnerID r,
     cl_Attempt = cq_Attempt r, cl_CreatedAt = now\<rparr>"

lemma claim_row_new:
  assumes "validateLaunchClaimRequest r = Inr ()" "claim_insertable (claim_row now r g) db" "g = generation db (cq_LaunchSpecHash r) + 1"
  shows "new_claim db (claim_row now r g)"
  using assms
  by (auto simp: new_claim_def validateLaunchClaimRequest_def claim_insertable_def claim_row_def request_fence_def fence_well_formed_def
      cl_gen_def list_all_iff ident_pattern_def)

lemma insertLaunchClaim_Inr:
  assumes "insertLaunchClaim now r g db = Inr (c, db')"
  shows "claim_insertable (claim_row now r g) db \<and> c = row_claim (claim_row now r g)
   \<and> db' = db\<lparr>task_claims := task_claims db @ [claim_row now r g],
       launch_claim_heads := (if g = 1 then launch_claim_heads db @ [new_head (claim_row now r g)] else launch_claim_heads db)\<rparr>"
  using assms by (auto simp: insertLaunchClaim_def launch_unfold Let_def claim_row_def new_head_def split: if_splits)

lemma no_claims_generation:
  assumes "h \<notin> cl_LaunchSpecHash ` set (task_claims db)"
  shows "generation db h = 0"
  using assms by (force simp: generation_def log_seqs_def filter_empty_conv)

definition claimed :: "LaunchDB \<Rightarrow> TaskClaimRow \<Rightarrow> ClaimHeadRow list \<Rightarrow> LaunchOutbox \<Rightarrow> LaunchDB" where
  "claimed db n hs o' = db\<lparr>task_claims := task_claims db @ [n], launch_claim_heads := hs, launch_admission_outbox := launch_admission_outbox db @ [o']\<rparr>"

lemma acquire_writes:
  assumes op: "AcquireLaunchClaim clock rnd request db = Inr (c, db')" and inv: "launch_inv db"
  obtains n i where "c = row_claim n" "n = claim_row (clock 0) request 1" "new_claim db n"
    "cl_LaunchSpecHash n \<notin> cl_LaunchSpecHash ` set (task_claims db)"
    "db' = claimed db n (launch_claim_heads db @ [new_head n]) (outbox_row (clock 1) i n 1 LaunchOutboxPendingMaterialization)"
    "outbox_core (launch_admission_outbox db')"
proof -
  let ?n = "claim_row (clock 0) request 1"
  let ?db1 = "db\<lparr>task_claims := task_claims db @ [?n], launch_claim_heads := launch_claim_heads db @ [new_head ?n]\<rparr>"
  from op have r: "validateLaunchClaimRequest request = Inr ()" "loadActiveLaunchClaim db (cq_LaunchSpecHash request) = Inr None"
    "claim_insertable ?n db" "c = row_claim ?n"
    and out: "insertLaunchOutbox (clock 1) rnd (row_claim ?n) 1 LaunchOutboxPendingMaterialization ?db1 = Inr db'"
    by (auto simp: AcquireLaunchClaim_def launch_unfold dest!: insertLaunchClaim_Inr)
  have fresh: "cl_LaunchSpecHash ?n \<notin> cl_LaunchSpecHash ` set (task_claims db)"
    using load_active_None [OF r(2)] launch_invD(5) [OF inv] by (simp add: heads_inv_def claim_row_def)
  then have "new_claim db ?n" using claim_row_new [OF r(1,3)] no_claims_generation by (simp add: claim_row_def)
  moreover have "outbox_core (launch_admission_outbox ?db1)" using launch_invD(6) [OF inv] by (simp add: outbox_inv_core)
  ultimately show ?thesis using insertLaunchOutbox_Inr [OF out] r(4) fresh that by (auto simp: claimed_def)
qed

lemma reclaim_writes:
  assumes op: "ReclaimLaunchClaim clock rnd request db = Inr (c, db')" and inv: "launch_inv db"
  obtains old n i where "old \<in> set (task_claims db)" "cl_Fence old = rq_ExpectedFence request" "cl_LaunchSpecHash old = cl_LaunchSpecHash n"
    "cl_gen n = cl_gen old + 1" "c = row_claim n" "new_claim db n" "cl_LaunchSpecHash n = cq_LaunchSpecHash (rq_Claim request)"
    "db' = claimed db n (update_where (\<lambda>h. hd_LaunchSpecHash h = cl_LaunchSpecHash n) (\<lambda>h. h\<lparr>hd_Fence := cl_Fence n\<rparr>) (launch_claim_heads db))
       (outbox_row (clock 1) i n 1 LaunchOutboxPendingMaterialization)"
    "outbox_core (launch_admission_outbox db')"
proof -
  let ?r = "rq_Claim request"
  from op obtain a where r: "validateLaunchClaimRequest ?r = Inr ()" "cq_LaunchSpecHash ?r \<noteq> []"
    "requireActiveLaunchFence db (cq_LaunchSpecHash ?r) (rq_ExpectedFence request) = Inr a"
    and rest: "andThen (insertLaunchClaim (clock 0) ?r (lf_FenceGeneration (tk_LaunchFence a) + 1) db) (\<lambda>(claim, db).
       let db = db\<lparr>launch_claim_heads := update_where (\<lambda>h. hd_LaunchSpecHash h = tk_LaunchSpecHash claim)
             (\<lambda>h. h\<lparr>hd_Fence := tk_LaunchFence claim\<rparr>) (launch_claim_heads db)\<rparr> in
       andThen (insertLaunchOutbox (clock 1) rnd claim 1 LaunchOutboxPendingMaterialization db) (\<lambda>db. Inr (claim, db))) = Inr (c, db')"
    by (auto simp: ReclaimLaunchClaim_def launch_unfold)
  obtain old d where old: "old \<in> set (task_claims db)" "a = row_claim old" "cl_Fence old = rq_ExpectedFence request"
    "cl_LaunchSpecHash old = cq_LaunchSpecHash ?r" "d \<in> set (launch_claim_heads db)" "hd_id d = cl_id old"
    using r(2,3) by (auto elim: fence_active)
  have gen: "cl_gen old = generation db (cq_LaunchSpecHash ?r)"
    using active_generation [OF launch_invD(5) [OF inv] old(5,6)] old(4) by simp
  have g: "lf_FenceGeneration (tk_LaunchFence a) = cl_gen old" by (simp add: old(2) row_claim_def cl_gen_def)
  have pos: "1 \<le> cl_gen old" using launch_invD(4) [OF inv] old(1) by (simp add: claims_inv_def fence_well_formed_def cl_gen_def)
  let ?n = "claim_row (clock 0) ?r (cl_gen old + 1)"
  let ?db1 = "db\<lparr>task_claims := task_claims db @ [?n], launch_claim_heads :=
    update_where (\<lambda>h. hd_LaunchSpecHash h = cl_LaunchSpecHash ?n) (\<lambda>h. h\<lparr>hd_Fence := cl_Fence ?n\<rparr>) (launch_claim_heads db)\<rparr>"
  from rest have w: "claim_insertable ?n db" "c = row_claim ?n"
    and out: "insertLaunchOutbox (clock 1) rnd (row_claim ?n) 1 LaunchOutboxPendingMaterialization ?db1 = Inr db'"
    using pos by (auto simp: g launch_unfold Let_def row_claim_def dest!: insertLaunchClaim_Inr)
  have "new_claim db ?n" by (rule claim_row_new [OF r(1) w(1)]) (simp add: gen)
  moreover have "outbox_core (launch_admission_outbox ?db1)" using launch_invD(6) [OF inv] by (simp add: outbox_inv_core)
  moreover have "cl_LaunchSpecHash ?n = cq_LaunchSpecHash ?r" "cl_gen ?n = cl_gen old + 1"
    by (simp_all add: claim_row_def cl_gen_def request_fence_def)
  ultimately show ?thesis
    using insertLaunchOutbox_Inr [OF out] old w(2) that [of old ?n] by (auto simp: claimed_def)
qed

lemma generation_claimed:
  "generation (claimed db n hs o') h = generation db h + (if h = cl_LaunchSpecHash n then 1 else 0)"
  by (simp add: generation_def claimed_def log_seqs_def)

lemma launch_inv_claimed:
  assumes inv: "launch_inv db" and n: "new_claim db n" and o': "lo_id o' = cl_id n" "lo_Sequence o' = 1"
    and core: "outbox_core (launch_admission_outbox db @ [o'])" and heads: "heads_inv (claimed db n hs o')"
  shows "launch_inv (claimed db n hs o')"
proof -
  note d = launch_invD [OF inv]
  have "gapless 1 (log_seqs cl_LaunchSpecHash cl_gen h (task_claims db @ [n]))" for h
    using d(4) n by (auto simp: claims_inv_def log_seqs_snoc gapless_snoc new_claim_def generation_def)
  then have "claims_inv (claimed db n hs o')"
    using d(4) n by (auto simp: claims_inv_def claimed_def new_claim_def find_spec_def)
  moreover have "claim_ids (claimed db n hs o') = insert (cl_id n) (claim_ids db)" by (simp add: claim_ids_def claimed_def)
  then have "outbox_inv (claimed db n hs o')"
    using d(6) o' core stage_ids_snoc [of "claimed db n hs o'" db o']
    by (auto simp: outbox_inv_core claimed_def mat_ids_def run_ids_def)
  moreover have "runs_inv (claimed db n hs o')" using d(8) by (auto simp: runs_inv_def claimed_def)
  ultimately show ?thesis
    using d heads by (simp add: launch_inv_def specs_inv_def mats_inv_def intents_inv_def claimed_def sealed_of_def find_spec_def)
qed

lemma launch_inv_acquire:
  assumes "AcquireLaunchClaim clock rnd request db = Inr (c, db')" "launch_inv db"
  shows "launch_inv db'"
  using assms
proof (rule acquire_writes)
  fix n i
  let ?o = "outbox_row (clock 1) i n 1 LaunchOutboxPendingMaterialization"
  let ?db = "claimed db n (launch_claim_heads db @ [new_head n]) ?o"
  assume n: "new_claim db n" "cl_LaunchSpecHash n \<notin> cl_LaunchSpecHash ` set (task_claims db)" and db': "db' = ?db"
    and core: "outbox_core (launch_admission_outbox db')"
  note d = launch_invD(5) [OF assms(2)]
  have "generation db (cl_LaunchSpecHash n) = 0" by (rule no_claims_generation [OF n(2)])
  moreover have "hd_LaunchSpecHash h \<noteq> cl_LaunchSpecHash n" if "h \<in> set (launch_claim_heads db)" for h
    using d n(2) that unfolding heads_inv_def by (metis imageI)
  ultimately have "heads_inv ?db"
    using d n unfolding heads_inv_def generation_claimed
    by (auto simp: claimed_def new_head_def unique_key_def claim_ids_def hd_id_def cl_id_def cl_gen_def new_claim_def)
  then show ?thesis
    using launch_inv_claimed [OF assms(2) n(1), of ?o] core by (simp add: db' claimed_def)
qed

lemma launch_inv_reclaim:
  assumes "ReclaimLaunchClaim clock rnd request db = Inr (c, db')" "launch_inv db"
  shows "launch_inv db'"
  using assms
proof (rule reclaim_writes)
  fix old n i
  let ?o = "outbox_row (clock 1) i n 1 LaunchOutboxPendingMaterialization"
  let ?hs = "update_where (\<lambda>h. hd_LaunchSpecHash h = cl_LaunchSpecHash n) (\<lambda>h. h\<lparr>hd_Fence := cl_Fence n\<rparr>) (launch_claim_heads db)"
  let ?db = "claimed db n ?hs ?o"
  assume n: "new_claim db n" and old: "old \<in> set (task_claims db)" "cl_LaunchSpecHash old = cl_LaunchSpecHash n" and db': "db' = ?db"
    and core: "outbox_core (launch_admission_outbox db')"
  note d = launch_invD(5) [OF assms(2)]
  have keys: "map hd_LaunchSpecHash ?hs = map hd_LaunchSpecHash (launch_claim_heads db)" by simp
  then have "hd_LaunchSpecHash ` set ?hs = hd_LaunchSpecHash ` set (launch_claim_heads db)" by (metis list.set_map)
  then have "hd_LaunchSpecHash ` set ?hs = insert (cl_LaunchSpecHash n) (cl_LaunchSpecHash ` set (task_claims db))"
    using d old imageI [OF old(1), of cl_LaunchSpecHash] by (simp add: heads_inv_def insert_absorb)
  moreover have "hd_id h \<in> claim_ids ?db \<and> lf_FenceGeneration (hd_Fence h) = generation ?db (hd_LaunchSpecHash h)" if "h \<in> set ?hs" for h
  proof -
    from that obtain h0 where h0: "h0 \<in> set (launch_claim_heads db)"
      "h = (if hd_LaunchSpecHash h0 = cl_LaunchSpecHash n then h0\<lparr>hd_Fence := cl_Fence n\<rparr> else h0)"
      by (auto simp: set_update_where)
    have "hd_id h0 \<in> claim_ids db" "lf_FenceGeneration (hd_Fence h0) = generation db (hd_LaunchSpecHash h0)"
      using d h0(1) by (simp_all add: heads_inv_def)
    moreover have "claim_ids ?db = insert (cl_id n) (claim_ids db)" by (simp add: claim_ids_def claimed_def)
    ultimately show ?thesis
      using h0(2) n by (cases "hd_LaunchSpecHash h0 = cl_LaunchSpecHash n")
        (simp_all add: generation_claimed hd_id_def cl_id_def cl_gen_def new_claim_def)
  qed
  ultimately have "heads_inv ?db" using d keys by (simp add: heads_inv_def unique_key_def claimed_def)
  then show ?thesis
    using launch_inv_claimed [OF assms(2) n(1), of ?o] core by (simp add: db' claimed_def)
qed

end
