(* ===== verification/Launch_Intents.thy ===== *)
theory Launch_Intents
  imports Launch_Steps
begin

section \<open>Materializations and intents preserve the invariant\<close>

text \<open>
  The remaining mutations of launch admission: what a successful call writes and that \<open>launch_inv\<close> is kept,
  and so the invariant of every reachable database.
\<close>

subsection \<open>Materialization\<close>

lemma load_spec_Some:
  assumes "loadLaunchSpec db h = Inr (Some s)"
  shows "sealed_of db h = Some (lp_SealedContract (ss_Spec s))"
  using assms by (auto simp: loadLaunchSpec_def sealed_of_def launch_unfold split: option.splits)

lemma load_materialization_None:
  "loadLaunchMaterialization db h g = Inr None \<Longrightarrow> m \<in> set (launch_materializations db) \<Longrightarrow> mz_LaunchSpecHash m = h
    \<Longrightarrow> lf_FenceGeneration (mz_LaunchFence m) \<noteq> g"
  by (auto simp: loadLaunchMaterialization_def launch_unfold find_None_iff_set split: option.splits)

definition mat_row :: "stamp \<Rightarrow> LaunchMaterializationRequest \<Rightarrow> TaskClaimRow \<Rightarrow> LaunchMaterialization" where
  "mat_row now r c = \<lparr>mz_LaunchFence = cl_Fence c, mz_LaunchSpecHash = cl_LaunchSpecHash c, mz_MaterializationID = mq_MaterializationID r,
     mz_MaterializationHash = mq_MaterializationHash r, mz_Nonce = mq_Nonce r, mz_State = LaunchMaterializationStateReady, mz_CreatedAt = now\<rparr>"

definition materialized :: "LaunchDB \<Rightarrow> LaunchMaterialization \<Rightarrow> LaunchOutbox \<Rightarrow> LaunchDB" where
  "materialized db m o' = db\<lparr>launch_materializations := launch_materializations db @ [m],
     launch_admission_outbox := launch_admission_outbox db @ [o']\<rparr>"

lemma materialize_writes:
  assumes op: "RecordLaunchMaterializationReady clock rnd request db = Inr (m, db')" and inv: "launch_inv db"
  obtains (replay) "db' = db" "m \<in> set (launch_materializations db)" "mz_LaunchFence m = mq_Fence request"
    "mz_MaterializationID m = mq_MaterializationID request"
  | (new) c d i where "c \<in> set (task_claims db)" "cl_Fence c = mq_Fence request" "d \<in> set (launch_claim_heads db)" "hd_id d = cl_id c"
    "m = mat_row (clock 0) request c" "materialization_insertable m db"
    "launchHashPattern (mz_MaterializationHash m)" "launchNoncePattern (mz_Nonce m)"
    "sealed_of db (cl_LaunchSpecHash c) = Some \<lparr>sc_MaterializationHash = mz_MaterializationHash m, sc_Nonce = mz_Nonce m\<rparr>"
    "db' = materialized db m (outbox_row (clock 1) i c 2 LaunchOutboxPendingRunAdmission)"
    "outbox_core (launch_admission_outbox db')"
proof -
  from op obtain a s existing where r: "validateLaunchMaterializationRequest request = Inr ()"
    "requireActiveLaunchFence db [] (mq_Fence request) = Inr a" "loadLaunchSpec db (tk_LaunchSpecHash a) = Inr (Some s)"
    "mq_MaterializationHash request = sc_MaterializationHash (lp_SealedContract (ss_Spec s))"
    "mq_Nonce request = sc_Nonce (lp_SealedContract (ss_Spec s))"
    and load: "loadLaunchMaterialization db (tk_LaunchSpecHash a) (lf_FenceGeneration (tk_LaunchFence a)) = Inr existing"
    and old: "\<And>e. existing = Some e \<Longrightarrow> mz_LaunchFence e = mq_Fence request \<and> mz_MaterializationID e = mq_MaterializationID request \<and> m = e \<and> db' = db"
    and new: "existing = None \<Longrightarrow> \<exists>m'. m' = \<lparr>mz_LaunchFence = mq_Fence request, mz_LaunchSpecHash = tk_LaunchSpecHash a,
        mz_MaterializationID = mq_MaterializationID request, mz_MaterializationHash = mq_MaterializationHash request, mz_Nonce = mq_Nonce request,
        mz_State = LaunchMaterializationStateReady, mz_CreatedAt = clock 0\<rparr> \<and> materialization_insertable m' db \<and> m = m'
      \<and> insertLaunchOutbox (clock 1) rnd a 2 LaunchOutboxPendingRunAdmission
           (db\<lparr>launch_materializations := launch_materializations db @ [m']\<rparr>) = Inr db'"
    by (auto simp: RecordLaunchMaterializationReady_def launch_unfold Let_def split: option.splits if_splits)
  obtain c d where c: "c \<in> set (task_claims db)" "a = row_claim c" "cl_Fence c = mq_Fence request"
    "d \<in> set (launch_claim_heads db)" "hd_id d = cl_id c"
    by (rule fence_active [OF r(2)]) (rule that)
  show ?thesis
  proof (cases existing)
    case (Some e)
    then have "e \<in> set (launch_materializations db)"
      using load by (auto simp: loadLaunchMaterialization_def launch_unfold split: option.splits dest: find_SomeD)
    then show ?thesis using old [OF Some] that(1) by auto
  next
    case None
    have m: "m = mat_row (clock 0) request c" "materialization_insertable m db"
      and out: "insertLaunchOutbox (clock 1) rnd (row_claim c) 2 LaunchOutboxPendingRunAdmission
           (db\<lparr>launch_materializations := launch_materializations db @ [m]\<rparr>) = Inr db'"
      using new [OF None] c(2,3) by (auto simp: mat_row_def row_claim_def)
    obtain i where i: "db' = materialized db m (outbox_row (clock 1) i c 2 LaunchOutboxPendingRunAdmission)"
      "outbox_core (launch_admission_outbox db')"
      using insertLaunchOutbox_Inr [OF out] launch_invD(6) [OF inv] by (auto simp: outbox_inv_core materialized_def)
    have "launchHashPattern (mz_MaterializationHash m)" "launchNoncePattern (mz_Nonce m)"
      using r(1) m(1) by (auto simp: validateLaunchMaterializationRequest_def mat_row_def)
    moreover have "sealed_of db (cl_LaunchSpecHash c) = Some \<lparr>sc_MaterializationHash = mz_MaterializationHash m, sc_Nonce = mz_Nonce m\<rparr>"
      using load_spec_Some [OF r(3)] r(4,5) c(2) m(1) by (simp add: row_claim_def mat_row_def)
    ultimately show ?thesis using that(2) [OF c(1,3,4,5) m _ _ _ i] by blast
  qed
qed

lemma launch_inv_materialize:
  assumes "RecordLaunchMaterializationReady clock rnd request db = Inr (m, db')" "launch_inv db"
  shows "launch_inv db'"
  using assms
proof (cases rule: materialize_writes)
  case (new c d i)
  let ?o = "outbox_row (clock 1) i c 2 LaunchOutboxPendingRunAdmission"
  note e = launch_invD [OF assms(2)]
  have mid: "mz_id m = cl_id c" by (simp add: new(5) mat_row_def mz_id_def cl_id_def)
  have "claim_ids db' = claim_ids db" "mat_ids db' = insert (cl_id c) (mat_ids db)" "run_ids db' = run_ids db" "cl_id c \<in> claim_ids db"
    using new(1) mid by (auto simp: new(10) materialized_def claim_ids_def mat_ids_def run_ids_def)
  then have "outbox_inv db'"
    using e(6) new(11) stage_ids_snoc [of db' db ?o] by (auto simp: outbox_inv_core new(10) materialized_def)
  moreover have "mats_inv db'"
    using e(7) new(6-9) mid
    by (auto simp: mats_inv_def new(10) materialized_def unique_key_def materialization_insertable_def list_all_iff mz_id_def cl_id_def
        sealed_of_def find_spec_def)
  moreover have "runs_inv db'" using e(8) by (auto simp: runs_inv_def new(10) materialized_def)
  ultimately show ?thesis
    using e by (simp add: launch_inv_def specs_inv_def claims_inv_def heads_inv_def intents_inv_def new(10) materialized_def claim_ids_def
        generation_def find_spec_def)
qed (simp add: assms)

subsection \<open>Run intents\<close>

lemma facts_run:
  assumes "runs_inv db" "r \<in> set (launch_run_intents db)"
  obtains f where "find (\<lambda>f. rf_RunID f = rw_RunID r \<and> sf_Sequence (rf_Fact f) = 1) (launch_run_state_facts db) = Some f"
    "sf_TokenHash (rf_Fact f) = lf_ClaimTokenHash (rw_Fence r)" "sf_Sequence (rf_Fact f) = 1"
proof -
  let ?t = "launch_run_state_facts db" and ?k = "\<lambda>f. (rf_RunID f, sf_TokenHash (rf_Fact f), sf_Sequence (rf_Fact f))"
  have maps: "map ?k ?t = map (\<lambda>r. (rw_RunID r, lf_ClaimTokenHash (rw_Fence r), 1)) (launch_run_intents db)"
    and u: "unique_key rw_RunID (launch_run_intents db)"
    using assms(1) by (simp_all add: runs_inv_def)
  have "(rw_RunID r, lf_ClaimTokenHash (rw_Fence r), 1) \<in> ?k ` set ?t"
    using assms(2) arg_cong [OF maps, of set] by auto
  then obtain f where f: "f \<in> set ?t" "rf_RunID f = rw_RunID r" "sf_TokenHash (rf_Fact f) = lf_ClaimTokenHash (rw_Fence r)"
    "sf_Sequence (rf_Fact f) = 1" by auto
  have "map rf_RunID ?t = map rw_RunID (launch_run_intents db)" using arg_cong [OF maps, of "map fst"] by (simp add: comp_def)
  then have uf: "unique_key rf_RunID ?t" using u by (simp add: unique_key_def)
  have "\<exists>g. find (\<lambda>f. rf_RunID f = rw_RunID r \<and> sf_Sequence (rf_Fact f) = 1) ?t = Some g"
    using f find_None_iff_set [of "\<lambda>f. rf_RunID f = rw_RunID r \<and> sf_Sequence (rf_Fact f) = 1" ?t] by blast
  then obtain g where g: "find (\<lambda>f. rf_RunID f = rw_RunID r \<and> sf_Sequence (rf_Fact f) = 1) ?t = Some g" ..
  then have "g = f" using find_SomeD [OF g] f uf unique_rows [of rf_RunID ?t g f] by (simp add: unique_key_def)
  with g f that show ?thesis by simp
qed

lemma load_run:
  assumes inv: "launch_inv db"
  shows "find (\<lambda>r. rw_RunID r = k) (launch_run_intents db) = None \<Longrightarrow> loadLaunchRunIntent db k = Inr None"
    and "r \<in> set (launch_run_intents db) \<Longrightarrow> rw_RunID r = k
      \<Longrightarrow> \<exists>f. loadLaunchRunIntent db k = Inr (Some (row_intent r f))"
proof -
  show "find (\<lambda>r. rw_RunID r = k) (launch_run_intents db) = None \<Longrightarrow> loadLaunchRunIntent db k = Inr None"
    by (simp add: loadLaunchRunIntent_def)
  assume r: "r \<in> set (launch_run_intents db)" "rw_RunID r = k"
  note d = launch_invD(8) [OF inv]
  have "find (\<lambda>r. rw_RunID r = k) (launch_run_intents db) = Some r"
    using r d by (simp add: runs_tab.get_Some runs_inv_def)
  moreover obtain c where "c \<in> set (task_claims db)" "cl_Attempt c = rw_Attempt r" using d r(1) by (auto simp: runs_inv_def)
  then have "1 \<le> rw_Attempt r" using launch_invD(4) [OF inv] by (auto simp: claims_inv_def)
  moreover obtain f where "find (\<lambda>f. rf_RunID f = rw_RunID r \<and> sf_Sequence (rf_Fact f) = 1) (launch_run_state_facts db) = Some f"
    "sf_TokenHash (rf_Fact f) = lf_ClaimTokenHash (rw_Fence r)" "sf_Sequence (rf_Fact f) = 1"
    by (rule facts_run [OF d r(1)])
  ultimately show "\<exists>f. loadLaunchRunIntent db k = Inr (Some (row_intent r f))"
    using r(2) by (cases "sf_Kind (rf_Fact f)") (auto simp: loadLaunchRunIntent_def require_def)
qed

lemma load_run_Some:
  assumes "loadLaunchRunIntent db k = Inr (Some e)"
  obtains r f where "r \<in> set (launch_run_intents db)" "rw_RunID r = k" "e = row_intent r f"
  using assms by (auto simp: loadLaunchRunIntent_def launch_unfold split: option.splits dest!: find_SomeD)

definition run_row :: "stamp \<Rightarrow> LaunchRunIntentRequest \<Rightarrow> TaskClaimRow \<Rightarrow> RunIntentRow" where
  "run_row now r c = \<lparr>rw_RunID = iq_RunID r, rw_LaunchSpecHash = cl_LaunchSpecHash c, rw_Fence = cl_Fence c,
     rw_MaterializationID = iq_MaterializationID r, rw_Attempt = iq_Attempt r, rw_CreatedAt = now\<rparr>"

definition created_fact :: "stamp \<Rightarrow> TaskClaimRow \<Rightarrow> LaunchStateFact" where
  "created_fact now c = \<lparr>sf_Kind = LaunchStateFactCreated, sf_Sequence = 1, sf_TokenHash = lf_ClaimTokenHash (cl_Fence c), sf_WrittenAt = now\<rparr>"

definition run_created :: "LaunchDB \<Rightarrow> RunIntentRow \<Rightarrow> LaunchStateFact \<Rightarrow> LaunchOutbox \<Rightarrow> LaunchDB" where
  "run_created db n f o' = db\<lparr>launch_run_intents := launch_run_intents db @ [n],
     launch_run_state_facts := launch_run_state_facts db @ [\<lparr>rf_RunID = rw_RunID n, rf_Fact = f\<rparr>],
     launch_admission_outbox := launch_admission_outbox db @ [o']\<rparr>"

lemma run_writes:
  assumes op: "CreateLaunchRunIntent clock rnd request db = Inr (e, db')" and inv: "launch_inv db"
  obtains (replay) r f where "db' = db" "r \<in> set (launch_run_intents db)" "rw_RunID r = iq_RunID request" "e = row_intent r f"
    "rw_Fence r = iq_Fence request" "rw_MaterializationID r = iq_MaterializationID request" "rw_Attempt r = iq_Attempt request"
    "loadLaunchRunIntent db (iq_RunID request) = Inr (Some e)"
  | (new) c d i where "c \<in> set (task_claims db)" "cl_Fence c = iq_Fence request" "d \<in> set (launch_claim_heads db)" "hd_id d = cl_id c"
    "iq_Attempt request = cl_Attempt c" "run_insertable (run_row (clock 0) request c) db"
    "e = row_intent (run_row (clock 0) request c) (created_fact (clock 0) c)"
    "db' = run_created db (run_row (clock 0) request c) (created_fact (clock 0) c) (outbox_row (clock 1) i c 3 LaunchOutboxPendingProcessAdmission)"
    "outbox_core (launch_admission_outbox db')"
proof -
  from op obtain a existing where r: "requireActiveLaunchFence db [] (iq_Fence request) = Inr a" "iq_Attempt request = tk_Attempt a"
    and load: "loadLaunchRunIntent db (iq_RunID request) = Inr existing"
    and rest: "(case existing of
       Some e \<Rightarrow>
         (if ri_LaunchFence e = iq_Fence request \<and> ri_MaterializationID e = iq_MaterializationID request \<and> ri_Attempt e = iq_Attempt request
          then Inr (e, db) else Inl ErrLaunchRunIntentConflict)
     | None \<Rightarrow>
         andThen (loadLaunchRunIntentByGeneration db (tk_LaunchSpecHash a) (lf_FenceGeneration (tk_LaunchFence a))) (\<lambda>existing.
         case existing of
           Some e \<Rightarrow> (if ri_RunID e = iq_RunID request then Inr (e, db) else Inl ErrLaunchRunIntentConflict)
         | None \<Rightarrow> insert_run_intent clock rnd request a db)) = Inr (e, db')"
    unfolding CreateLaunchRunIntent_def andThen_Inr ensure_Inr require_Inr by blast
  obtain c d where c: "c \<in> set (task_claims db)" "a = row_claim c" "cl_Fence c = iq_Fence request"
    "d \<in> set (launch_claim_heads db)" "hd_id d = cl_id c"
    by (rule fence_active [OF r(1)]) (rule that)
  show ?thesis
  proof (cases existing)
    case (Some e')
    then obtain q f where "q \<in> set (launch_run_intents db)" "rw_RunID q = iq_RunID request" "e' = row_intent q f"
      using load by (auto elim: load_run_Some)
    then show ?thesis using rest load Some that(1) by (auto simp: row_intent_def split: if_splits)
  next
    case None
    then obtain x where x: "loadLaunchRunIntentByGeneration db (tk_LaunchSpecHash a) (lf_FenceGeneration (tk_LaunchFence a)) = Inr x"
      "(case x of Some e \<Rightarrow> (if ri_RunID e = iq_RunID request then Inr (e, db) else Inl ErrLaunchRunIntentConflict)
         | None \<Rightarrow> insert_run_intent clock rnd request a db) = Inr (e, db')"
      using rest by (auto simp: andThen_Inr)
    have ins: "insert_run_intent clock rnd request a db = Inr (e, db')"
    proof (cases x)
      case (Some e')
      then obtain k where "loadLaunchRunIntent db k = Inr (Some e')"
        using x(1) by (auto simp: loadLaunchRunIntentByGeneration_def split: option.splits)
      moreover from this have "ri_RunID e' = k" by (auto simp: row_intent_def elim: load_run_Some)
      ultimately show ?thesis using x(2) Some load None by (auto split: if_splits)
    qed (use x(2) in simp)
    let ?n = "run_row (clock 0) request c" and ?f = "created_fact (clock 0) c"
    have w: "run_insertable ?n db" "e = row_intent ?n ?f"
      and out: "insertLaunchOutbox (clock 1) rnd (row_claim c) 3 LaunchOutboxPendingProcessAdmission
               (db\<lparr>launch_run_intents := launch_run_intents db @ [?n],
                  launch_run_state_facts := launch_run_state_facts db @ [\<lparr>rf_RunID = iq_RunID request, rf_Fact = ?f\<rparr>]\<rparr>) = Inr db'"
      using ins c(2) by (auto simp: insert_run_intent_def Let_def andThen_Inr run_row_def created_fact_def row_claim_def)
    obtain i where i: "db' = run_created db ?n ?f (outbox_row (clock 1) i c 3 LaunchOutboxPendingProcessAdmission)"
      "outbox_core (launch_admission_outbox db')"
      using insertLaunchOutbox_Inr [OF out] launch_invD(6) [OF inv] by (auto simp: outbox_inv_core run_created_def run_row_def)
    have "iq_Attempt request = cl_Attempt c" using r(2) by (simp add: c(2) row_claim_def)
    then show ?thesis using that(2) [OF c(1,3,4,5) _ w i] by blast
  qed
qed

lemma launch_inv_run:
  assumes "CreateLaunchRunIntent clock rnd request db = Inr (e, db')" "launch_inv db"
  shows "launch_inv db'"
  using assms
proof (cases rule: run_writes)
  case (new c d i)
  let ?o = "outbox_row (clock 1) i c 3 LaunchOutboxPendingProcessAdmission" and ?n = "run_row (clock 0) request c"
  note e = launch_invD [OF assms(2)]
  have rid: "rw_id ?n = cl_id c" by (simp add: run_row_def rw_id_def cl_id_def)
  obtain m where m: "m \<in> set (launch_materializations db)" "mz_id m = cl_id c" "mz_MaterializationID m = rw_MaterializationID ?n"
    using new(6) by (auto simp: run_insertable_def list_ex_iff mz_id_def cl_id_def run_row_def)
  have "claim_ids db' = claim_ids db" "mat_ids db' = mat_ids db" "run_ids db' = insert (cl_id c) (run_ids db)" "cl_id c \<in> mat_ids db"
    using m rid by (force simp: new(8) run_created_def claim_ids_def mat_ids_def run_ids_def)+
  then have "outbox_inv db'"
    using e(6) new(9) stage_ids_snoc [of db' db ?o] by (auto simp: outbox_inv_core new(8) run_created_def)
  moreover have "unique_key rw_id (launch_run_intents db')" "unique_key rw_RunID (launch_run_intents db')"
    using e(8) new(6) by (auto simp: runs_inv_def new(8) run_created_def unique_key_def run_insertable_def list_all_iff rw_id_def)
  then have "runs_inv db'"
    using e(8) new(1,5) m rid by (auto simp: runs_inv_def new(8) run_created_def created_fact_def run_row_def)
  moreover have "intents_inv db'" using e(9) by (auto simp: intents_inv_def new(8) run_created_def)
  ultimately show ?thesis
    using e by (simp add: launch_inv_def specs_inv_def claims_inv_def heads_inv_def mats_inv_def new(8) run_created_def claim_ids_def
        generation_def find_spec_def sealed_of_def)
qed (simp add: assms)

subsection \<open>Terminal and evidence intents\<close>

lemma run_fence:
  assumes "requireLaunchRunIntentFence db k a = Inr ()"
  obtains r where "r \<in> set (launch_run_intents db)" "rw_RunID r = k" "rw_Fence r = tk_LaunchFence a" "rw_LaunchSpecHash r = tk_LaunchSpecHash a"
  using assms by (auto simp: requireLaunchRunIntentFence_def launch_unfold row_intent_def elim!: load_run_Some)

lemma terminal_writes:
  assumes op: "AppendLaunchTerminalIntent now request db = Inr (t, db')"
  obtains (replay) "db' = db" "t \<in> set (launch_terminal_intents db)" "ti_RunID t = tq_RunID request"
    "ti_LaunchFence t = tq_Fence request" "ti_IntentID t = tq_IntentID request"
  | (new) c d r where "c \<in> set (task_claims db)" "cl_Fence c = tq_Fence request" "d \<in> set (launch_claim_heads db)" "hd_id d = cl_id c"
    "r \<in> set (launch_run_intents db)" "rw_RunID r = tq_RunID request" "rw_id r = cl_id c"
    "t = \<lparr>ti_LaunchFence = cl_Fence c, ti_RunID = tq_RunID request, ti_IntentID = tq_IntentID request, ti_CreatedAt = now\<rparr>"
    "intent_insertable ti_IntentID ti_RunID ti_LaunchFence t (launch_terminal_intents db) db"
    "db' = db\<lparr>launch_terminal_intents := launch_terminal_intents db @ [t]\<rparr>"
proof -
  from op obtain a where r: "requireActiveLaunchFence db [] (tq_Fence request) = Inr a" "requireLaunchRunIntentFence db (tq_RunID request) a = Inr ()"
    and rest: "(case loadLaunchTerminalIntent db (tq_RunID request) of
       Some e \<Rightarrow>
         (if ti_LaunchFence e = tq_Fence request \<and> ti_IntentID e = tq_IntentID request then Inr (e, db) else Inl ErrLaunchTerminalIntentConflict)
     | None \<Rightarrow>
         let i = \<lparr>ti_LaunchFence = tk_LaunchFence a, ti_RunID = tq_RunID request, ti_IntentID = tq_IntentID request, ti_CreatedAt = now\<rparr> in
         andThen (ensure (intent_insertable ti_IntentID ti_RunID ti_LaunchFence i (launch_terminal_intents db) db) ErrLaunchConstraint) (\<lambda>_.
         Inr (i, db\<lparr>launch_terminal_intents := launch_terminal_intents db @ [i]\<rparr>))) = Inr (t, db')"
    unfolding AppendLaunchTerminalIntent_def andThen_Inr by auto
  obtain c d where c: "c \<in> set (task_claims db)" "a = row_claim c" "cl_Fence c = tq_Fence request"
    "d \<in> set (launch_claim_heads db)" "hd_id d = cl_id c"
    by (rule fence_active [OF r(1)]) (rule that)
  obtain q where q: "q \<in> set (launch_run_intents db)" "rw_RunID q = tq_RunID request" "rw_id q = cl_id c"
    by (rule run_fence [OF r(2)]) (use c(2) in \<open>simp add: row_claim_def rw_id_def cl_id_def that\<close>)
  show ?thesis
  proof (cases "loadLaunchTerminalIntent db (tq_RunID request)")
    case None
    then show ?thesis using rest c(2) that(2) [OF c(1,3,4,5) q] by (auto simp: Let_def andThen_Inr row_claim_def)
  next
    case (Some e)
    then have "e \<in> set (launch_terminal_intents db) \<and> ti_RunID e = tq_RunID request"
      unfolding loadLaunchTerminalIntent_def by (rule find_SomeD)
    then show ?thesis using rest Some that(1) by (auto split: if_splits)
  qed
qed

lemma evidence_writes:
  assumes op: "SettleLaunchEvidenceIntent now request db = Inr (t, db')"
  obtains (replay) "db' = db" "t \<in> set (launch_evidence_intents db)" "ei_RunID t = eq_RunID request"
    "ei_LaunchFence t = eq_Fence request" "ei_IntentID t = eq_IntentID request"
  | (new) c d r where "c \<in> set (task_claims db)" "cl_Fence c = eq_Fence request" "d \<in> set (launch_claim_heads db)" "hd_id d = cl_id c"
    "r \<in> set (launch_run_intents db)" "rw_RunID r = eq_RunID request" "rw_id r = cl_id c"
    "t = \<lparr>ei_LaunchFence = cl_Fence c, ei_RunID = eq_RunID request, ei_IntentID = eq_IntentID request, ei_State = ''settled'', ei_CreatedAt = now\<rparr>"
    "intent_insertable ei_IntentID ei_RunID ei_LaunchFence t (launch_evidence_intents db) db"
    "db' = db\<lparr>launch_evidence_intents := launch_evidence_intents db @ [t]\<rparr>"
proof -
  from op obtain a existing where r: "requireActiveLaunchFence db [] (eq_Fence request) = Inr a" "requireLaunchRunIntentFence db (eq_RunID request) a = Inr ()"
    and load: "loadLaunchEvidenceIntent db (eq_RunID request) = Inr existing"
    and rest: "(case existing of
       Some e \<Rightarrow>
         (if ei_LaunchFence e = eq_Fence request \<and> ei_IntentID e = eq_IntentID request then Inr (e, db) else Inl ErrLaunchEvidenceIntentConflict)
     | None \<Rightarrow>
         let i = \<lparr>ei_LaunchFence = tk_LaunchFence a, ei_RunID = eq_RunID request, ei_IntentID = eq_IntentID request,
               ei_State = ''settled'', ei_CreatedAt = now\<rparr> in
         andThen (ensure (intent_insertable ei_IntentID ei_RunID ei_LaunchFence i (launch_evidence_intents db) db) ErrLaunchConstraint) (\<lambda>_.
         Inr (i, db\<lparr>launch_evidence_intents := launch_evidence_intents db @ [i]\<rparr>))) = Inr (t, db')"
    unfolding SettleLaunchEvidenceIntent_def andThen_Inr by (elim exE conjE) (rule that; simp)
  obtain c d where c: "c \<in> set (task_claims db)" "a = row_claim c" "cl_Fence c = eq_Fence request"
    "d \<in> set (launch_claim_heads db)" "hd_id d = cl_id c"
    by (rule fence_active [OF r(1)]) (rule that)
  obtain q where q: "q \<in> set (launch_run_intents db)" "rw_RunID q = eq_RunID request" "rw_id q = cl_id c"
    by (rule run_fence [OF r(2)]) (use c(2) in \<open>simp add: row_claim_def rw_id_def cl_id_def that\<close>)
  show ?thesis
  proof (cases existing)
    case None
    then show ?thesis using rest c(2) that(2) [OF c(1,3,4,5) q] by (auto simp: Let_def andThen_Inr row_claim_def)
  next
    case (Some e)
    then have "e \<in> set (launch_evidence_intents db) \<and> ei_RunID e = eq_RunID request"
      using load by (auto simp: loadLaunchEvidenceIntent_def andThen_Inr split: option.splits dest: find_SomeD)
    then show ?thesis using rest Some that(1) by (auto split: if_splits)
  qed
qed

lemma launch_inv_terminal:
  assumes "AppendLaunchTerminalIntent now request db = Inr (t, db')" "launch_inv db"
  shows "launch_inv db'"
  using assms(1)
proof (cases rule: terminal_writes)
  case (new c d r)
  have "(ti_RunID t, ti_LaunchFence t) = (rw_RunID r, rw_Fence r)" using new(6-8) by (simp add: rw_id_def cl_id_def)
  then have "intents_inv db'"
    using launch_invD(9) [OF assms(2)] imageI [OF new(5), of "\<lambda>r. (rw_RunID r, rw_Fence r)"] new(9)
    by (auto simp: intents_inv_def new(10) unique_key_def intent_insertable_def list_all_iff)
  then show ?thesis using assms(2) by (simp add: launch_inv_def specs_inv_def claims_inv_def heads_inv_def outbox_inv_def mats_inv_def
        runs_inv_def new(10) owner_defs find_spec_def)
qed (simp add: assms)

lemma launch_inv_evidence:
  assumes "SettleLaunchEvidenceIntent now request db = Inr (t, db')" "launch_inv db"
  shows "launch_inv db'"
  using assms(1)
proof (cases rule: evidence_writes)
  case (new c d r)
  have "(ei_RunID t, ei_LaunchFence t) = (rw_RunID r, rw_Fence r)" "ei_State t = ''settled''" using new(6-8) by (simp_all add: rw_id_def cl_id_def)
  then have "intents_inv db'"
    using launch_invD(9) [OF assms(2)] imageI [OF new(5), of "\<lambda>r. (rw_RunID r, rw_Fence r)"] new(9)
    by (auto simp: intents_inv_def new(10) unique_key_def intent_insertable_def list_all_iff)
  then show ?thesis using assms(2) by (simp add: launch_inv_def specs_inv_def claims_inv_def heads_inv_def outbox_inv_def mats_inv_def
        runs_inv_def new(10) owner_defs find_spec_def)
qed (simp add: assms)

lemma launch_step_inv: "launch_step db db' \<Longrightarrow> launch_inv db \<Longrightarrow> launch_inv db'"
  by (erule launch_step.cases)
    (auto intro: launch_inv_proposals launch_inv_acquire launch_inv_reclaim launch_inv_materialize launch_inv_run launch_inv_terminal
      launch_inv_evidence elim!: store_writes simp: launch_inv_store)

lemma launch_reachable_inv: "launch_reachable db \<Longrightarrow> launch_inv db"
  by (induction rule: rtranclp_induct) (auto simp: launch_inv_empty intro: launch_step_inv)

end
