(* ===== verification/Launch_Facts.thy ===== *)
theory Launch_Facts
  imports Launch_Intents
begin

section \<open>What the reads of launch admission return\<close>

text \<open>
  Under \<open>launch_inv\<close> the loads of the code are lookups in the tables: the active claim is the claim of the
  largest generation, a stored spec decodes to what was stored, and a recovery boundary always exists.
  Then how the tables evolve along the steps.
\<close>

subsection \<open>The active claim\<close>

definition active_claim :: "LaunchDB \<Rightarrow> string \<Rightarrow> TaskClaimRow option" where
  "active_claim db h = find (\<lambda>c. cl_LaunchSpecHash c = h \<and> cl_gen c = generation db h) (task_claims db)"

lemma claim_key: "claims_inv db \<Longrightarrow> unique_key (\<lambda>c. (cl_LaunchSpecHash c, cl_gen c)) (task_claims db)"
  by (rule claim_log.log_key_unique) (simp add: claims_inv_def)

lemma claims_same:
  assumes "claims_inv db" "c \<in> set (task_claims db)" "c' \<in> set (task_claims db)" "cl_LaunchSpecHash c = cl_LaunchSpecHash c'" "cl_gen c = cl_gen c'"
  shows "c = c'"
  using unique_rows [OF claim_key [OF assms(1), unfolded unique_key_def] assms(2,3)] assms(4,5) by simp

lemma claim_bounds:
  assumes "claims_inv db" "c \<in> set (task_claims db)"
  shows "1 \<le> cl_gen c" "cl_gen c \<le> generation db (cl_LaunchSpecHash c)"
proof -
  let ?s = "log_seqs cl_LaunchSpecHash cl_gen (cl_LaunchSpecHash c) (task_claims db)"
  have g: "gapless 1 ?s" using assms(1) by (simp add: claims_inv_def)
  have "cl_gen c \<in> set ?s" using assms(2) by (simp add: log_seqs_def)
  then obtain i where "i < length ?s" "?s ! i = cl_gen c" by (auto simp: in_set_conv_nth)
  then show "1 \<le> cl_gen c" "cl_gen c \<le> generation db (cl_LaunchSpecHash c)"
    using gapless_nth [OF g] by (auto simp: generation_def)
qed

lemma active_claim_Some:
  assumes "claims_inv db"
  shows "active_claim db h = Some c \<longleftrightarrow> c \<in> set (task_claims db) \<and> cl_LaunchSpecHash c = h \<and> cl_gen c = generation db h"
  using find_key_Some [OF claim_key [OF assms], of "(h, generation db h)" c] by (simp add: active_claim_def)

lemma head_find:
  assumes "heads_inv db"
  shows "find (\<lambda>d. hd_LaunchSpecHash d = h) (launch_claim_heads db) = Some d \<longleftrightarrow> d \<in> set (launch_claim_heads db) \<and> hd_LaunchSpecHash d = h"
  using assms by (simp add: heads_tab.get_Some heads_inv_def)

lemma load_active:
  assumes inv: "launch_inv db"
  shows "loadActiveLaunchClaim db h = Inr (map_option row_claim (active_claim db h))"
proof (cases "find (\<lambda>d. hd_LaunchSpecHash d = h) (launch_claim_heads db)")
  case None
  then have "h \<notin> hd_LaunchSpecHash ` set (launch_claim_heads db)" by (auto simp: find_None_iff_set)
  then have no: "h \<notin> cl_LaunchSpecHash ` set (task_claims db)" using launch_invD(5) [OF inv] by (simp add: heads_inv_def)
  then have "active_claim db h = None" by (force simp: active_claim_def find_None_iff_set)
  then show ?thesis using None by (simp add: loadActiveLaunchClaim_def)
next
  case (Some d)
  note e = launch_invD(4,5) [OF inv]
  have d: "d \<in> set (launch_claim_heads db)" "hd_LaunchSpecHash d = h" using Some head_find [OF e(2)] by simp_all
  then obtain c where c: "c \<in> set (task_claims db)" "cl_id c = hd_id d" using e(2) by (auto simp: heads_inv_def claim_ids_def)
  have gen: "cl_gen c = generation db h" using active_generation [OF e(2) d(1) c(2) [symmetric]] c(2) d(2) by (simp add: cl_id_def hd_id_def)
  then have a: "active_claim db h = Some c" using c d(2) by (simp add: active_claim_Some [OF e(1)] cl_id_def hd_id_def)
  have ok: "1 \<le> lf_FenceGeneration (cl_Fence c)" "1 \<le> cl_Attempt c"
    using e(1) c(1) by (simp_all add: claims_inv_def fence_well_formed_def)
  let ?p = "\<lambda>c. cl_LaunchSpecHash c = hd_LaunchSpecHash d \<and> cl_Fence c = hd_Fence d"
  have pc: "?p c" using c(2) by (simp add: cl_id_def hd_id_def)
  then obtain c' where c': "find ?p (task_claims db) = Some c'" using c(1) find_None_iff_set [of ?p "task_claims db"] by blast
  have "c' = c" using find_SomeD [OF c'] pc c(1) by (intro claims_same [OF e(1)]) (simp_all add: cl_gen_def)
  then show ?thesis using Some c' a ok by (simp add: loadActiveLaunchClaim_def)
qed

lemma active_None: "launch_inv db \<Longrightarrow> active_claim db h = None \<longleftrightarrow> h \<notin> cl_LaunchSpecHash ` set (task_claims db)"
proof (safe)
  fix c assume inv: "launch_inv db" and none: "active_claim db (cl_LaunchSpecHash c) = None" and c: "c \<in> set (task_claims db)"
  have "cl_LaunchSpecHash c \<in> hd_LaunchSpecHash ` set (launch_claim_heads db)" using launch_invD(5) [OF inv] c by (simp add: heads_inv_def)
  then show False using load_active_None [of db "cl_LaunchSpecHash c"] load_active [OF inv, of "cl_LaunchSpecHash c"] none by simp
qed (force simp: active_claim_def find_None_iff_set)

text \<open>A fence is accepted exactly when it is the one of its spec's active claim.\<close>

lemma fence_outcome:
  assumes inv: "launch_inv db" and c: "c \<in> set (task_claims db)" and k: "k = [] \<or> k = cl_LaunchSpecHash c"
  shows "requireActiveLaunchFence db k (cl_Fence c) =
    (if cl_gen c = generation db (cl_LaunchSpecHash c) then Inr (row_claim c) else Inl ErrLaunchStaleFence)"
proof -
  let ?h = "cl_LaunchSpecHash c"
  note e = launch_invD(4) [OF inv]
  have "unique_key (lf_ClaimID \<circ> cl_Fence) (task_claims db)" using e by (simp add: claims_inv_def unique_key_def)
  from find_key_Some [OF this, of "lf_ClaimID (cl_Fence c)" c] c have "launchSpecHashForClaim db (lf_ClaimID (cl_Fence c)) = Inr ?h"
    by (simp add: launchSpecHashForClaim_def require_def)
  then have h: "(if k = [] then launchSpecHashForClaim db (lf_ClaimID (cl_Fence c)) else Inr k) = Inr ?h" using k by auto
  obtain a where a: "active_claim db ?h = Some a" using active_None [OF inv, of ?h] c by (cases "active_claim db ?h") auto
  have aa: "a \<in> set (task_claims db)" "cl_LaunchSpecHash a = ?h" "cl_gen a = generation db ?h"
    using a by (simp_all add: active_claim_Some [OF e])
  have "cl_Fence a = cl_Fence c \<longleftrightarrow> cl_gen c = generation db ?h"
    using aa claims_same [OF e aa(1) c aa(2)] by (auto simp: cl_gen_def)
  moreover have "a = c" if "cl_gen c = generation db ?h" using claims_same [OF e aa(1) c aa(2)] aa(3) that by simp
  ultimately show ?thesis
    unfolding requireActiveLaunchFence_def h using load_active [OF inv, of ?h] a
    by (auto simp: require_def ensure_def row_claim_def)
qed

subsection \<open>Stored specs\<close>

lemma load_spec:
  assumes "launch_inv db" "find_spec h db = Some r"
  obtains s where "loadLaunchSpec db h = Inr (Some s)" "ss_LaunchSpecHash s = h" "HashLaunchSpec (ss_Spec s) = Inr h"
    "canonicalJSON (launchSpecCanonicalValue (ss_Spec s)) = Inr (sr_SpecJSON r)"
    "ss_Approval s = row_approval r" "ss_CreatedAt s = sr_CreatedAt r"
proof -
  have r: "r \<in> set (launch_specs db)" "sr_LaunchSpecHash r = h" using assms(2) find_SomeD unfolding find_spec_def by fastforce+
  then have ok: "spec_ok r" using launch_invD(3) [OF assms(1)] by (simp add: specs_inv_def)
  then obtain s where s: "HashLaunchSpec s = Inr h" "canonicalJSON (launchSpecCanonicalValue s) = Inr (sr_SpecJSON r)" "lp_Revision s = row_revision r"
    using r(2) by (auto simp: spec_ok_def)
  let ?s = "\<lparr>ss_Spec = s, ss_LaunchSpecHash = sr_LaunchSpecHash r, ss_Approval = row_approval r, ss_CreatedAt = sr_CreatedAt r\<rparr>"
  have "loadLaunchSpec db h = Inr (Some ?s)"
    using assms(2) decode_stored_spec [OF s(2)] s ok r(2) by (simp add: loadLaunchSpec_def require_def spec_ok_def)
  then show ?thesis using that [of ?s] s r(2) by simp
qed

lemma load_spec_None: "find_spec h db = None \<Longrightarrow> loadLaunchSpec db h = Inr None"
  by (simp add: loadLaunchSpec_def)

subsection \<open>The facts of a claim\<close>

definition stage :: "LaunchDB \<Rightarrow> TaskClaimRow \<Rightarrow> int" where
  "stage db c = (if cl_id c \<in> run_ids db then 3 else if cl_id c \<in> mat_ids db then 2 else 1)"

text \<open>Spec hash and generation determine the fence of a fact.\<close>

lemma owner_of:
  assumes "claims_inv db" "c \<in> set (task_claims db)" "x \<in> claim_ids db" "fst x = cl_LaunchSpecHash c" "lf_FenceGeneration (snd x) = cl_gen c"
  shows "x = cl_id c"
proof -
  obtain c' where c': "c' \<in> set (task_claims db)" "x = cl_id c'" using assms(3) by (auto simp: claim_ids_def)
  then have "c' = c" using assms(4,5) by (intro claims_same [OF assms(1) _ assms(2)]) (simp_all add: cl_id_def cl_gen_def)
  then show ?thesis using c'(2) by simp
qed

lemma stage_owner: "outbox_inv db \<Longrightarrow> o' \<in> set (launch_admission_outbox db) \<Longrightarrow> lo_id o' \<in> claim_ids db"
proof -
  assume inv: "outbox_inv db" and o: "o' \<in> set (launch_admission_outbox db)"
  then have "lo_Sequence o' \<in> {1, 2, 3}" by (auto simp: outbox_inv_def validLaunchOutboxStage_def)
  moreover have "lo_id o' \<in> stage_ids (lo_Sequence o') db" using o by (simp add: stage_ids_def)
  ultimately show "lo_id o' \<in> claim_ids db" using inv by (auto simp: outbox_inv_def)
qed

lemma stage_rows:
  assumes inv: "outbox_inv db" and c: "c \<in> set (task_claims db)"
  shows "o' \<in> set (launch_admission_outbox db) \<Longrightarrow> lo_id o' = cl_id c \<Longrightarrow> lo_Sequence o' \<le> stage db c"
    and "\<exists>o' \<in> set (launch_admission_outbox db). lo_id o' = cl_id c \<and> lo_Sequence o' = stage db c"
proof -
  have ids: "stage_ids 1 db = claim_ids db" "stage_ids 2 db = mat_ids db" "stage_ids 3 db = run_ids db" "cl_id c \<in> claim_ids db"
    "run_ids db \<subseteq> mat_ids db"
    using inv c by (simp_all add: outbox_inv_def claim_ids_def)
  show "\<exists>o' \<in> set (launch_admission_outbox db). lo_id o' = cl_id c \<and> lo_Sequence o' = stage db c"
  proof -
    have "cl_id c \<in> stage_ids (stage db c) db" using ids by (simp add: stage_def)
    then show ?thesis by (auto simp: stage_ids_def)
  qed
  assume o: "o' \<in> set (launch_admission_outbox db)" "lo_id o' = cl_id c"
  then have "lo_Sequence o' \<in> {1, 2, 3}" using inv by (auto simp: outbox_inv_def validLaunchOutboxStage_def)
  moreover have "cl_id c \<in> stage_ids (lo_Sequence o') db" using o by (force simp: stage_ids_def)
  ultimately show "lo_Sequence o' \<le> stage db c" using ids by (auto simp: stage_def)
qed

definition stage_state :: "int \<Rightarrow> LaunchOutboxState" where
  "stage_state n = (if n = 3 then LaunchOutboxPendingProcessAdmission else if n = 2 then LaunchOutboxPendingRunAdmission
     else LaunchOutboxPendingMaterialization)"

lemma latest_outbox:
  assumes inv: "launch_inv db" and c: "c \<in> set (task_claims db)"
  obtains o' where "loadLatestLaunchOutbox db (cl_LaunchSpecHash c) (cl_gen c) = Inr o'" "lo_id o' = cl_id c" "lo_Sequence o' = stage db c"
    "lo_State o' = stage_state (stage db c)"
proof -
  note e = launch_invD(4,6) [OF inv]
  let ?p = "\<lambda>o'. lo_LaunchSpecHash o' = cl_LaunchSpecHash c \<and> lf_FenceGeneration (lo_LaunchFence o') = cl_gen c"
  let ?t = "filter ?p (launch_admission_outbox db)" let ?o = "order_by (\<lambda>o'. - lo_Sequence o') ?t"
  have own: "?p o' \<longleftrightarrow> lo_id o' = cl_id c" if "o' \<in> set (launch_admission_outbox db)" for o'
    using owner_of [OF e(1) c stage_owner [OF e(2) that]] by (auto simp: lo_id_def cl_id_def cl_gen_def)
  obtain x where x: "x \<in> set (launch_admission_outbox db)" "lo_id x = cl_id c" "lo_Sequence x = stage db c"
    using stage_rows(2) [OF e(2) c] by blast
  then have xo: "x \<in> set ?o" using own by simp
  then obtain y ys where y: "?o = y # ys" by (cases ?o) auto
  then have ym: "y \<in> set ?t" using set_order_by [of "\<lambda>o'. - lo_Sequence o'" ?t] by auto
  then have yo: "y \<in> set (launch_admission_outbox db)" "lo_id y = cl_id c" using own by auto
  have "\<forall>z \<in> set ?o. lo_Sequence z \<le> lo_Sequence y"
    using sorted_order_by [of "\<lambda>o'. - lo_Sequence o'" ?t] by (auto simp: y)
  then have seq: "lo_Sequence y = stage db c" using xo x(3) stage_rows(1) [OF e(2) c yo] by fastforce
  have valid: "validLaunchOutboxStage (lo_Sequence y) (lo_State y)" using e(2) yo(1) by (simp add: outbox_inv_def)
  then have "lo_State y = stage_state (stage db c)" using seq by (auto simp: validLaunchOutboxStage_def stage_state_def)
  moreover have "loadLatestLaunchOutbox db (cl_LaunchSpecHash c) (cl_gen c) = Inr y"
    using y valid by (simp add: loadLatestLaunchOutbox_def)
  ultimately show ?thesis using that yo(2) seq by blast
qed

lemma load_materialization:
  assumes inv: "launch_inv db" and c: "c \<in> set (task_claims db)"
  shows "cl_id c \<notin> mat_ids db \<Longrightarrow> loadLaunchMaterialization db (cl_LaunchSpecHash c) (cl_gen c) = Inr None"
    and "m \<in> set (launch_materializations db) \<Longrightarrow> mz_id m = cl_id c
      \<Longrightarrow> loadLaunchMaterialization db (cl_LaunchSpecHash c) (cl_gen c) = Inr (Some m)"
proof -
  note e = launch_invD(4,6,7) [OF inv]
  let ?p = "\<lambda>m. mz_LaunchSpecHash m = cl_LaunchSpecHash c \<and> lf_FenceGeneration (mz_LaunchFence m) = cl_gen c"
  have own: "?p m \<longleftrightarrow> mz_id m = cl_id c" if "m \<in> set (launch_materializations db)" for m
  proof -
    have "mz_id m \<in> claim_ids db" using e(2) that by (auto simp: outbox_inv_def mat_ids_def)
    from owner_of [OF e(1) c this] show ?thesis by (auto simp: mz_id_def cl_id_def cl_gen_def)
  qed
  show "loadLaunchMaterialization db (cl_LaunchSpecHash c) (cl_gen c) = Inr None" if "cl_id c \<notin> mat_ids db"
  proof -
    have "find ?p (launch_materializations db) = None" unfolding find_None_iff_set using own that [unfolded mat_ids_def] by (metis imageI)
    then show ?thesis by (simp add: loadLaunchMaterialization_def)
  qed
  assume m: "m \<in> set (launch_materializations db)" "mz_id m = cl_id c"
  obtain x where x: "find ?p (launch_materializations db) = Some x" using m own find_None_iff_set [of ?p "launch_materializations db"] by blast
  have "x = m" using find_SomeD [OF x] m own e(3) unique_rows [of mz_id "launch_materializations db" x m] by (auto simp: mats_inv_def unique_key_def)
  then show "loadLaunchMaterialization db (cl_LaunchSpecHash c) (cl_gen c) = Inr (Some m)"
    using x m(1) e(3) by (cases "mz_State m") (simp add: loadLaunchMaterialization_def mats_inv_def)
qed

lemma load_run_generation:
  assumes inv: "launch_inv db" and c: "c \<in> set (task_claims db)"
  shows "cl_id c \<notin> run_ids db \<Longrightarrow> loadLaunchRunIntentByGeneration db (cl_LaunchSpecHash c) (cl_gen c) = Inr None"
    and "r \<in> set (launch_run_intents db) \<Longrightarrow> rw_id r = cl_id c
      \<Longrightarrow> loadLaunchRunIntentByGeneration db (cl_LaunchSpecHash c) (cl_gen c) = loadLaunchRunIntent db (rw_RunID r)"
proof -
  note e = launch_invD(4,6,8) [OF inv]
  let ?p = "\<lambda>m. rw_LaunchSpecHash m = cl_LaunchSpecHash c \<and> lf_FenceGeneration (rw_Fence m) = cl_gen c"
  have own: "?p m \<longleftrightarrow> rw_id m = cl_id c" if "m \<in> set (launch_run_intents db)" for m
  proof -
    have "rw_id m \<in> claim_ids db" using e(2) that by (auto simp: outbox_inv_def run_ids_def)
    from owner_of [OF e(1) c this] show ?thesis by (auto simp: rw_id_def cl_id_def cl_gen_def)
  qed
  show "loadLaunchRunIntentByGeneration db (cl_LaunchSpecHash c) (cl_gen c) = Inr None" if "cl_id c \<notin> run_ids db"
  proof -
    have "find ?p (launch_run_intents db) = None" unfolding find_None_iff_set using own that [unfolded run_ids_def] by (metis imageI)
    then show ?thesis by (simp add: loadLaunchRunIntentByGeneration_def)
  qed
  assume r: "r \<in> set (launch_run_intents db)" "rw_id r = cl_id c"
  obtain x where x: "find ?p (launch_run_intents db) = Some x" using r own find_None_iff_set [of ?p "launch_run_intents db"] by blast
  have "x = r" using find_SomeD [OF x] r own e(3) unique_rows [of rw_id "launch_run_intents db" x r] by (auto simp: runs_inv_def unique_key_def)
  then show "loadLaunchRunIntentByGeneration db (cl_LaunchSpecHash c) (cl_gen c) = loadLaunchRunIntent db (rw_RunID r)"
    using x by (simp add: loadLaunchRunIntentByGeneration_def)
qed

subsection \<open>The recovery boundary\<close>

lemma load_terminal:
  "intents_inv db \<Longrightarrow> loadLaunchTerminalIntent db k = Some i \<longleftrightarrow> i \<in> set (launch_terminal_intents db) \<and> ti_RunID i = k"
  by (simp add: loadLaunchTerminalIntent_def intents_inv_def find_key_Some)

lemma load_evidence:
  assumes "intents_inv db"
  shows "loadLaunchEvidenceIntent db k = Inr (find (\<lambda>i. ei_RunID i = k) (launch_evidence_intents db))"
  using assms find_SomeD by (fastforce simp: loadLaunchEvidenceIntent_def intents_inv_def split: option.split)

definition intent_of :: "LaunchDB \<Rightarrow> TaskClaimRow \<Rightarrow> RunIntentRow option" where
  "intent_of db c = find (\<lambda>r. rw_id r = cl_id c) (launch_run_intents db)"

definition mat_of :: "LaunchDB \<Rightarrow> TaskClaimRow \<Rightarrow> LaunchMaterialization option" where
  "mat_of db c = find (\<lambda>m. mz_id m = cl_id c) (launch_materializations db)"

lemma intent_of:
  assumes "runs_inv db"
  shows "intent_of db c = Some r \<longleftrightarrow> r \<in> set (launch_run_intents db) \<and> rw_id r = cl_id c"
    "intent_of db c = None \<longleftrightarrow> cl_id c \<notin> run_ids db"
  using assms by (simp add: intent_of_def runs_inv_def find_key_Some)
    (force simp: intent_of_def find_None_iff_set run_ids_def)

lemma mat_of:
  assumes "mats_inv db"
  shows "mat_of db c = Some m \<longleftrightarrow> m \<in> set (launch_materializations db) \<and> mz_id m = cl_id c"
    "mat_of db c = None \<longleftrightarrow> cl_id c \<notin> mat_ids db"
  using assms by (simp add: mat_of_def mats_inv_def find_key_Some)
    (force simp: mat_of_def find_None_iff_set mat_ids_def)

lemma boundary_materialization:
  assumes inv: "launch_inv db" and c: "c \<in> set (task_claims db)" and s: "loadLaunchSpec db (cl_LaunchSpecHash c) = Inr (Some s)"
  shows "boundary_materialization db (cl_LaunchSpecHash c) (row_claim c) s = Inr (mat_of db c)"
proof (cases "mat_of db c")
  case None
  then have "cl_id c \<notin> mat_ids db" using mat_of(2) [OF launch_invD(7) [OF inv]] by simp
  from load_materialization(1) [OF inv c this] None show ?thesis by (simp add: boundary_materialization_def row_claim_def cl_gen_def)
next
  case (Some m)
  note e = launch_invD(7) [OF inv]
  have m: "m \<in> set (launch_materializations db)" "mz_id m = cl_id c" using Some by (simp_all add: mat_of(1) [OF e])
  have "sealed_of db (cl_LaunchSpecHash c) = Some \<lparr>sc_MaterializationHash = mz_MaterializationHash m, sc_Nonce = mz_Nonce m\<rparr>"
    using e m by (auto simp: mats_inv_def mz_id_def cl_id_def)
  then have "lp_SealedContract (ss_Spec s) = \<lparr>sc_MaterializationHash = mz_MaterializationHash m, sc_Nonce = mz_Nonce m\<rparr>"
    using load_spec_Some [OF s] by simp
  with load_materialization(2) [OF inv c m] m Some show ?thesis
    by (simp add: boundary_materialization_def row_claim_def cl_gen_def validatePersistedLaunchMaterialization_def Let_def mz_id_def cl_id_def)
qed

lemma boundary_run:
  assumes inv: "launch_inv db" and c: "c \<in> set (task_claims db)"
  obtains (none) "cl_id c \<notin> run_ids db" "boundary_run db (cl_LaunchSpecHash c) (row_claim c) (mat_of db c) = Inr (None, None, None)"
  | (run) r f where "intent_of db c = Some r" "cl_id c \<in> run_ids db"
    "boundary_run db (cl_LaunchSpecHash c) (row_claim c) (mat_of db c) =
      Inr (Some (row_intent r f), loadLaunchTerminalIntent db (rw_RunID r), find (\<lambda>i. ei_RunID i = rw_RunID r) (launch_evidence_intents db))"
proof (cases "intent_of db c")
  case None
  then have no: "cl_id c \<notin> run_ids db" using intent_of(2) [OF launch_invD(8) [OF inv]] by simp
  from load_run_generation(1) [OF inv c this] show ?thesis
    by (intro none no) (simp add: boundary_run_def row_claim_def cl_gen_def)
next
  case (Some r)
  note e = launch_invD(7-9) [OF inv]
  have r: "r \<in> set (launch_run_intents db)" "rw_id r = cl_id c" "cl_id c \<in> run_ids db"
    using Some intent_of(1) [OF e(2), of c r] intent_of(2) [OF e(2), of c] by simp_all
  obtain f where f: "loadLaunchRunIntent db (rw_RunID r) = Inr (Some (row_intent r f))" using load_run(2) [OF inv r(1) refl] ..
  obtain m where m: "mat_of db c = Some m" "mz_MaterializationID m = rw_MaterializationID r"
    using e(2) r mat_of(1) [OF e(1), of c] by (auto simp: runs_inv_def)
  have same: "rw_Fence x = rw_Fence r" if "x \<in> set (launch_run_intents db)" "rw_RunID x = rw_RunID r" for x
    using unique_rows [of rw_RunID "launch_run_intents db" x r] e(2) r(1) that by (auto simp: runs_inv_def unique_key_def)
  have t: "pred_option (\<lambda>i. ti_LaunchFence i = cl_Fence c) (loadLaunchTerminalIntent db (rw_RunID r))"
    using e(3) load_terminal [OF e(3), of "rw_RunID r"] same r(2)
    by (cases "loadLaunchTerminalIntent db (rw_RunID r)") (fastforce simp: intents_inv_def rw_id_def cl_id_def)+
  let ?e = "find (\<lambda>i. ei_RunID i = rw_RunID r) (launch_evidence_intents db)"
  have v: "pred_option (\<lambda>i. ei_LaunchFence i = cl_Fence c) ?e"
  proof (cases ?e)
    case (Some i)
    from find_SomeD [OF this] e(3) obtain x where "x \<in> set (launch_run_intents db)" "rw_RunID x = rw_RunID r" "rw_Fence x = ei_LaunchFence i"
      by (auto simp: intents_inv_def)
    then show ?thesis using same r(2) Some by (simp add: rw_id_def cl_id_def)
  qed simp
  have "boundary_run db (cl_LaunchSpecHash c) (row_claim c) (mat_of db c) = Inr (Some (row_intent r f), loadLaunchTerminalIntent db (rw_RunID r), ?e)"
    using load_run_generation(2) [OF inv c r(1,2)] f m t v r(2) load_evidence [OF e(3), of "rw_RunID r"]
    by (simp add: boundary_run_def row_claim_def row_intent_def cl_gen_def rw_id_def cl_id_def Let_def)
  then show ?thesis by (intro run [OF Some r(3)])
qed

definition stage_action :: "int \<Rightarrow> LaunchRecoveryAction" where
  "stage_action n = (if n = 3 then LaunchRecoveryRetryProcessAdmission else if n = 2 then LaunchRecoveryRetryRunAdmission
     else LaunchRecoveryRetryMaterialization)"

lemma boundary_exact:
  assumes inv: "launch_inv db" and a: "active_claim db h = Some c"
  obtains b where "loadLaunchRecoveryBoundary db h = Inr b" "lb_LaunchSpecHash b = h" "lb_Claim b = row_claim c" "lb_Materialization b = mat_of db c"
    "map_option ri_RunID (lb_RunIntent b) = map_option rw_RunID (intent_of db c)" "lo_id (lb_Outbox b) = cl_id c"
    "lo_Sequence (lb_Outbox b) = stage db c" "lb_Action b = stage_action (stage db c)"
proof -
  note e = launch_invD(4,6,7,8) [OF inv]
  have c: "c \<in> set (task_claims db)" "cl_LaunchSpecHash c = h" "cl_gen c = generation db h" using a by (simp_all add: active_claim_Some [OF e(1)])
  obtain r where "find_spec h db = Some r" using e(1) c by (auto simp: claims_inv_def)
  from load_spec [OF inv this] obtain s where s: "loadLaunchSpec db h = Inr (Some s)" .
  obtain o' where o': "loadLatestLaunchOutbox db h (cl_gen c) = Inr o'" "lo_id o' = cl_id c" "lo_Sequence o' = stage db c"
    "lo_State o' = stage_state (stage db c)"
    using latest_outbox [OF inv c(1)] c(2) by metis
  have m: "boundary_materialization db h (row_claim c) s = Inr (mat_of db c)"
    using boundary_materialization [OF inv c(1)] s c(2) by simp
  have mo: "mat_of db c = None \<longleftrightarrow> cl_id c \<notin> mat_ids db" "run_ids db \<subseteq> mat_ids db" using mat_of(2) [OF e(3)] e(2) by (simp_all add: outbox_inv_def)
  have pre: "loadLaunchRecoveryBoundary db h = andThen (boundary_run db h (row_claim c) (mat_of db c)) (\<lambda>(run, terminal, evidence).
     andThen (boundary_action (stage_state (stage db c)) (mat_of db c) run) (\<lambda>action.
     Inr \<lparr>lb_LaunchSpecHash = h, lb_Claim = row_claim c, lb_Outbox = o', lb_Materialization = mat_of db c, lb_RunIntent = run,
       lb_TerminalIntent = terminal, lb_EvidenceIntent = evidence, lb_Action = action\<rparr>))"
    using load_active [OF inv, of h] a s o' m
    by (simp add: loadLaunchRecoveryBoundary_def require_def row_claim_def cl_gen_def lo_id_def cl_id_def)
  show ?thesis
  proof (cases rule: boundary_run [OF inv c(1)])
    case 1
    then have "boundary_action (stage_state (stage db c)) (mat_of db c) None = Inr (stage_action (stage db c))" "intent_of db c = None"
      using mo intent_of(2) [OF e(4)] by (auto simp: stage_def stage_state_def stage_action_def boundary_action_def)
    then show ?thesis using that pre 1(2) o' c(2) by simp
  next
    case (2 r f)
    then have "boundary_action (stage_state (stage db c)) (mat_of db c) (Some (row_intent r f)) = Inr (stage_action (stage db c))"
      using mo by (auto simp: stage_def stage_state_def stage_action_def boundary_action_def)
    then show ?thesis using that pre 2(1,3) o' c(2) by (simp add: row_intent_def)
  qed
qed

end
