(* ===== verification/Launch_Evolution.thy ===== *)
theory Launch_Evolution
  imports Launch_Facts
begin

section \<open>How launch admission evolves\<close>

text \<open>
  Every table but the claim heads only grows; an abstract machine of generations and stages that the steps
  refine; and the operations on a fence that is no longer active.
\<close>

subsection \<open>Append-only tables\<close>

definition launch_evolves :: "LaunchDB \<Rightarrow> LaunchDB \<Rightarrow> bool" where
  "launch_evolves db db' \<longleftrightarrow>
     db_evolves (ld_proposals db) (ld_proposals db')
   \<and> prefix (launch_specs db) (launch_specs db') \<and> prefix (task_claims db) (task_claims db')
   \<and> prefix (launch_materializations db) (launch_materializations db') \<and> prefix (launch_admission_outbox db) (launch_admission_outbox db')
   \<and> prefix (launch_run_intents db) (launch_run_intents db') \<and> prefix (launch_run_state_facts db) (launch_run_state_facts db')
   \<and> prefix (launch_terminal_intents db) (launch_terminal_intents db') \<and> prefix (launch_evidence_intents db) (launch_evidence_intents db')"

lemma launch_evolves_refl [simp]: "launch_evolves db db"
  by (simp add: launch_evolves_def)

lemma launch_evolves_trans: "launch_evolves db1 db2 \<Longrightarrow> launch_evolves db2 db3 \<Longrightarrow> launch_evolves db1 db3"
  unfolding launch_evolves_def by (meson db_evolves_trans prefix_order.trans)

lemma launch_step_evolves:
  assumes "launch_step db db'" "launch_inv db"
  shows "launch_evolves db db'"
  using assms(1)
proof cases
  case (proposals pdb)
  then show ?thesis using proposal_step_evolves [OF proposals(2) launch_invD(1) [OF assms(2)]] by (simp add: launch_evolves_def)
next
  case store
  then show ?thesis by (cases rule: store_writes [OF _ assms(2)]) (auto simp: launch_evolves_def)
next
  case acquire
  then show ?thesis by (rule acquire_writes [OF _ assms(2)]) (simp add: launch_evolves_def claimed_def)
next
  case reclaim
  then show ?thesis by (rule reclaim_writes [OF _ assms(2)]) (simp add: launch_evolves_def claimed_def)
next
  case materialize
  then show ?thesis by (cases rule: materialize_writes [OF _ assms(2)]) (auto simp: launch_evolves_def materialized_def)
next
  case run
  then show ?thesis by (cases rule: run_writes [OF _ assms(2)]) (auto simp: launch_evolves_def run_created_def)
next
  case terminal
  then show ?thesis by (cases rule: terminal_writes) (auto simp: launch_evolves_def)
next
  case evidence
  then show ?thesis by (cases rule: evidence_writes) (auto simp: launch_evolves_def)
qed

lemma launch_steps_evolve:
  "launch_step\<^sup>*\<^sup>* db db' \<Longrightarrow> launch_inv db \<Longrightarrow> launch_inv db' \<and> launch_evolves db db'"
  by (induction rule: rtranclp_induct) (auto intro: launch_step_inv launch_evolves_trans launch_step_evolves)

lemma generation_mono: "launch_evolves db db' \<Longrightarrow> generation db h \<le> generation db' h"
  by (auto simp: launch_evolves_def prefix_def generation_def log_seqs_def)

lemma claim_kept: "launch_evolves db db' \<Longrightarrow> c \<in> set (task_claims db) \<Longrightarrow> c \<in> set (task_claims db')"
  by (auto simp: launch_evolves_def prefix_def)

lemma spec_kept: "launch_evolves db db' \<Longrightarrow> find_spec h db = Some r \<Longrightarrow> find_spec h db' = Some r"
  by (auto simp: launch_evolves_def find_spec_def dest: find_prefix)

subsection \<open>Generations and stages\<close>

text \<open>The contract of admission: a spec is claimed at generation 1, each reclaim starts the next generation at
  stage 1, and a generation moves through the stages 1, 2, 3 one at a time.\<close>

inductive admission_step :: "(string \<rightharpoonup> int \<times> int) \<Rightarrow> (string \<rightharpoonup> int \<times> int) \<Rightarrow> bool" where
  acquire: "v h = None \<Longrightarrow> admission_step v (v(h \<mapsto> (1, 1)))"
| reclaim: "v h = Some (g, n) \<Longrightarrow> admission_step v (v(h \<mapsto> (g + 1, 1)))"
| advance: "v h = Some (g, n) \<Longrightarrow> n < 3 \<Longrightarrow> admission_step v (v(h \<mapsto> (g, n + 1)))"

definition launch_view :: "LaunchDB \<Rightarrow> string \<rightharpoonup> int \<times> int" where
  "launch_view db h = map_option (\<lambda>c. (cl_gen c, stage db c)) (active_claim db h)"

lemma active_claimed:
  assumes inv: "launch_inv db'" and db': "db' = claimed db n hs o'" and gen: "cl_gen n = generation db (cl_LaunchSpecHash n) + 1"
  shows "active_claim db' (cl_LaunchSpecHash n) = Some n" "h \<noteq> cl_LaunchSpecHash n \<Longrightarrow> active_claim db' h = active_claim db h"
proof -
  show "active_claim db' (cl_LaunchSpecHash n) = Some n"
    unfolding active_claim_Some [OF launch_invD(4) [OF inv]] unfolding db' generation_claimed using gen by (simp add: claimed_def)
  assume "h \<noteq> cl_LaunchSpecHash n"
  then show "active_claim db' h = active_claim db h"
    unfolding active_claim_def db' generation_claimed by (auto simp: claimed_def find_append split: option.split)
qed

lemma view_claimed:
  assumes inv: "launch_inv db" "launch_inv db'" and db': "db' = claimed db n hs o'" and n: "new_claim db n"
  shows "launch_view db' = (launch_view db)(cl_LaunchSpecHash n \<mapsto> (cl_gen n, 1))"
proof
  fix h
  have ids: "mat_ids db' = mat_ids db" "run_ids db' = run_ids db" by (simp_all add: db' claimed_def mat_ids_def run_ids_def)
  have "cl_id n \<notin> claim_ids db" using n by (auto simp: new_claim_def claim_ids_def cl_id_def)
  then have "stage db' n = 1" using launch_invD(6) [OF inv(1)] by (auto simp: stage_def ids outbox_inv_def)
  moreover have "stage db' c = stage db c" for c by (simp add: stage_def ids)
  moreover have "cl_gen n = generation db (cl_LaunchSpecHash n) + 1" using n by (simp add: new_claim_def)
  ultimately show "launch_view db' h = ((launch_view db)(cl_LaunchSpecHash n \<mapsto> (cl_gen n, 1))) h"
    using active_claimed [OF inv(2) db'] by (simp add: launch_view_def)
qed

lemma view_advance:
  assumes inv: "launch_inv db" and c: "c \<in> set (task_claims db)" "cl_gen c = generation db (cl_LaunchSpecHash c)"
    and claims: "task_claims db' = task_claims db" and st: "\<And>x. stage db' x = (if cl_id x = cl_id c then stage db c + 1 else stage db x)"
  shows "launch_view db' = (launch_view db)(cl_LaunchSpecHash c \<mapsto> (cl_gen c, stage db c + 1))"
    "launch_view db (cl_LaunchSpecHash c) = Some (cl_gen c, stage db c)"
proof -
  have a: "active_claim db (cl_LaunchSpecHash c) = Some c" using c by (simp add: active_claim_Some [OF launch_invD(4) [OF inv]])
  have same: "active_claim db' = active_claim db" by (rule ext) (simp add: active_claim_def claims generation_def)
  show "launch_view db (cl_LaunchSpecHash c) = Some (cl_gen c, stage db c)" by (simp add: launch_view_def a)
  show "launch_view db' = (launch_view db)(cl_LaunchSpecHash c \<mapsto> (cl_gen c, stage db c + 1))"
  proof
    fix h
    show "launch_view db' h = ((launch_view db)(cl_LaunchSpecHash c \<mapsto> (cl_gen c, stage db c + 1))) h"
    proof (cases "h = cl_LaunchSpecHash c")
      case False
      then have "cl_id x \<noteq> cl_id c" if "active_claim db h = Some x" for x
        using that by (auto simp: active_claim_Some [OF launch_invD(4) [OF inv]] cl_id_def)
      then show ?thesis using False by (cases "active_claim db h") (simp_all add: launch_view_def same st)
    qed (simp add: launch_view_def same a st)
  qed
qed

lemma view_same:
  assumes "task_claims db' = task_claims db" "mat_ids db' = mat_ids db" "run_ids db' = run_ids db"
  shows "launch_view db' = launch_view db"
  unfolding launch_view_def [abs_def] active_claim_def generation_def stage_def assms ..

lemma view_acquire:
  assumes op: "AcquireLaunchClaim clock rnd request db = Inr (c, db')" and inv: "launch_inv db"
  shows "admission_step (launch_view db) (launch_view db')"
  using op inv
proof (rule acquire_writes)
  fix n i assume n: "new_claim db n" "cl_LaunchSpecHash n \<notin> cl_LaunchSpecHash ` set (task_claims db)"
    "db' = claimed db n (launch_claim_heads db @ [new_head n]) (outbox_row (clock 1) i n 1 LaunchOutboxPendingMaterialization)"
  have "launch_view db (cl_LaunchSpecHash n) = None" using active_None [OF inv] n(2) by (simp add: launch_view_def)
  moreover have "cl_gen n = 1" using n(1) no_claims_generation [OF n(2)] by (simp add: new_claim_def)
  ultimately show ?thesis
    using view_claimed [OF inv launch_inv_acquire [OF op inv] n(3,1)] admission_step.acquire by simp
qed

lemma view_reclaim:
  assumes op: "ReclaimLaunchClaim clock rnd request db = Inr (c, db')" and inv: "launch_inv db"
  shows "admission_step (launch_view db) (launch_view db')"
  using op inv
proof (rule reclaim_writes)
  fix old n i assume old: "old \<in> set (task_claims db)" "cl_LaunchSpecHash old = cl_LaunchSpecHash n" "cl_gen n = cl_gen old + 1" and n: "new_claim db n"
    "db' = claimed db n (update_where (\<lambda>h. hd_LaunchSpecHash h = cl_LaunchSpecHash n) (\<lambda>h. h\<lparr>hd_Fence := cl_Fence n\<rparr>) (launch_claim_heads db))
       (outbox_row (clock 1) i n 1 LaunchOutboxPendingMaterialization)"
  have "active_claim db (cl_LaunchSpecHash n) = Some old"
    unfolding active_claim_Some [OF launch_invD(4) [OF inv]] using old n(1) by (simp add: new_claim_def)
  then have "launch_view db (cl_LaunchSpecHash n) = Some (cl_gen old, stage db old)" by (simp add: launch_view_def)
  then show ?thesis
    using view_claimed [OF inv launch_inv_reclaim [OF op inv] n(2,1)] admission_step.reclaim old(3) by simp
qed

lemma view_materialize:
  assumes "RecordLaunchMaterializationReady clock rnd request db = Inr (m, db')" and inv: "launch_inv db"
  shows "launch_view db' = launch_view db \<or> admission_step (launch_view db) (launch_view db')"
  using assms
proof (cases rule: materialize_writes)
  case (new c d i)
  note e = launch_invD(4-6) [OF inv]
  have mid: "mz_id m = cl_id c" by (simp add: new(5) mat_row_def mz_id_def cl_id_def)
  have "cl_id c \<notin> mat_ids db" using new(5,6) by (auto simp: materialization_insertable_def list_all_iff mat_ids_def mat_row_def mz_id_def cl_id_def)
  moreover from this have "cl_id c \<notin> run_ids db" using e(3) by (auto simp: outbox_inv_def)
  moreover have ids: "mat_ids db' = insert (cl_id c) (mat_ids db)" "run_ids db' = run_ids db"
    using mid by (simp_all add: new(10) materialized_def mat_ids_def run_ids_def)
  ultimately have st: "stage db' x = (if cl_id x = cl_id c then stage db c + 1 else stage db x)" "stage db c < 3" for x
    unfolding stage_def ids by auto
  have "task_claims db' = task_claims db" by (simp add: new(10) materialized_def)
  note v = view_advance [OF inv new(1) active_generation [OF e(2) new(3,4)] this st(1)]
  show ?thesis using admission_step.advance [of "launch_view db", OF v(2) st(2)] v(1) by simp
qed simp

lemma view_run:
  assumes "CreateLaunchRunIntent clock rnd request db = Inr (r, db')" and inv: "launch_inv db"
  shows "launch_view db' = launch_view db \<or> admission_step (launch_view db) (launch_view db')"
  using assms
proof (cases rule: run_writes)
  case (new c d i)
  note e = launch_invD(4-6) [OF inv]
  have rid: "rw_id (run_row (clock 0) request c) = cl_id c" by (simp add: run_row_def rw_id_def cl_id_def)
  have "cl_id c \<notin> run_ids db" using new(6) by (auto simp: run_insertable_def list_all_iff run_ids_def run_row_def rw_id_def cl_id_def)
  moreover have "cl_id c \<in> mat_ids db" using new(6) by (force simp: run_insertable_def list_ex_iff mat_ids_def run_row_def mz_id_def cl_id_def)
  moreover have ids: "run_ids db' = insert (cl_id c) (run_ids db)" "mat_ids db' = mat_ids db"
    using rid by (simp_all add: new(8) run_created_def mat_ids_def run_ids_def)
  ultimately have st: "stage db' x = (if cl_id x = cl_id c then stage db c + 1 else stage db x)" "stage db c < 3" for x
    unfolding stage_def ids by auto
  have "task_claims db' = task_claims db" by (simp add: new(8) run_created_def)
  note v = view_advance [OF inv new(1) active_generation [OF e(2) new(3,4)] this st(1)]
  show ?thesis using admission_step.advance [of "launch_view db", OF v(2) st(2)] v(1) by simp
qed simp

lemma launch_step_view:
  assumes "launch_step db db'" and inv: "launch_inv db"
  shows "launch_view db' = launch_view db \<or> admission_step (launch_view db) (launch_view db')"
  using assms(1)
proof cases
  case (proposals pdb)
  have "launch_view db' = launch_view db" by (rule view_same) (simp_all add: proposals(1) mat_ids_def run_ids_def)
  then show ?thesis ..
next
  case store
  from this inv have "launch_view db' = launch_view db" by (cases rule: store_writes) (auto intro!: view_same simp: mat_ids_def run_ids_def)
  then show ?thesis ..
next
  case terminal
  then have "launch_view db' = launch_view db" by (cases rule: terminal_writes) (auto intro!: view_same simp: mat_ids_def run_ids_def)
  then show ?thesis ..
next
  case evidence
  then have "launch_view db' = launch_view db" by (cases rule: evidence_writes) (auto intro!: view_same simp: mat_ids_def run_ids_def)
  then show ?thesis ..
next
  case acquire
  show ?thesis by (rule disjI2) (rule view_acquire [OF acquire inv])
next
  case reclaim
  show ?thesis by (rule disjI2) (rule view_reclaim [OF reclaim inv])
next
  case materialize
  show ?thesis by (rule view_materialize [OF materialize inv])
next
  case run
  show ?thesis by (rule view_run [OF run inv])
qed

subsection \<open>Fences that are no longer active\<close>

lemma stale_forever:
  assumes inv: "launch_inv db" and c: "c \<in> set (task_claims db)" "cl_gen c < generation db (cl_LaunchSpecHash c)"
    and steps: "launch_step\<^sup>*\<^sup>* db db'" and k: "k = [] \<or> k = cl_LaunchSpecHash c"
  shows "requireActiveLaunchFence db' k (cl_Fence c) = Inl ErrLaunchStaleFence"
proof -
  have e: "launch_inv db'" "launch_evolves db db'" using launch_steps_evolve [OF steps inv] by simp_all
  have "cl_gen c < generation db' (cl_LaunchSpecHash c)" using generation_mono [OF e(2), of "cl_LaunchSpecHash c"] c(2) by simp
  then show ?thesis using fence_outcome [OF e(1) claim_kept [OF e(2) c(1)] k] by simp
qed

lemma stale_boundary:
  assumes inv: "launch_inv db" and c: "c \<in> set (task_claims db)" "cl_gen c < generation db (cl_LaunchSpecHash c)"
  shows "WithLaunchFenceAdmission db (cl_LaunchSpecHash c) (cl_Fence c) (Some invoke) = Inl ErrLaunchStaleFence"
proof -
  obtain a where a: "active_claim db (cl_LaunchSpecHash c) = Some a"
    using active_None [OF inv, of "cl_LaunchSpecHash c"] c(1) by (cases "active_claim db (cl_LaunchSpecHash c)") auto
  then have "cl_gen a = generation db (cl_LaunchSpecHash c)" by (simp add: active_claim_Some [OF launch_invD(4) [OF inv]])
  then have "cl_Fence a \<noteq> cl_Fence c" using c(2) by (auto simp: cl_gen_def)
  moreover obtain b where "loadLaunchRecoveryBoundary db (cl_LaunchSpecHash c) = Inr b" "lb_Claim b = row_claim a"
    by (rule boundary_exact [OF inv a])
  ultimately show ?thesis by (simp add: WithLaunchFenceAdmission_def require_def row_claim_def)
qed

end
