(* ===== verification/Launch_Replay.thy ===== *)
theory Launch_Replay
  imports Launch_Evolution
begin

section \<open>Repeating, retrying and finishing a launch\<close>

text \<open>
  What a stored spec reads back as, what a repeated call returns, that an active claim can always be
  reclaimed, and that the fenced work of a set of claims ends.
\<close>

subsection \<open>Stored specs\<close>

lemma load_spec_kept:
  "launch_evolves db db' \<Longrightarrow> loadLaunchSpec db h = Inr (Some s) \<Longrightarrow> loadLaunchSpec db' h = Inr (Some s)"
  using spec_kept [of db db' h] by (cases "find_spec h db") (simp_all add: loadLaunchSpec_def)

lemma eligibility_identity:
  assumes "validateLaunchApprovalEligibility pdb v aid = Inr e"
  shows "le_ProposalID e = lr_ProposalID v" "le_Revision e = lr_Revision v" "le_RevisionHash e = lr_RevisionHash v" "le_ApprovalID e = aid"
proof -
  from assms have "le_ProposalID e = lr_ProposalID v \<and> le_Revision e = lr_Revision v \<and> le_RevisionHash e = lr_RevisionHash v \<and> le_ApprovalID e = aid"
    by (auto simp: validateLaunchApprovalEligibility_def launch_unfold split: list.splits)
  then show "le_ProposalID e = lr_ProposalID v" "le_Revision e = lr_Revision v" "le_RevisionHash e = lr_RevisionHash v" "le_ApprovalID e = aid"
    by simp_all
qed

lemma launch_msg_Inr: "launch_msg r = Inr x \<longleftrightarrow> r = Inr x"
  by (simp add: launch_msg_def split: sum.split)

lemma store_result:
  assumes op: "StoreLaunchSpec now request db = Inr (s, db')" and inv: "launch_inv db"
  shows "loadLaunchSpec db' (la_LaunchSpecHash request) = Inr (Some s)" "ss_Spec s = la_Spec request"
    "le_ApprovalID (ss_Approval s) = la_ApprovalID request"
proof -
  let ?h = "la_LaunchSpecHash request"
  from op obtain canonical existing where r: "HashLaunchSpec (la_Spec request) = Inr ?h"
    "canonicalJSON (launchSpecCanonicalValue (la_Spec request)) = Inr canonical" "loadLaunchSpec db ?h = Inr existing"
    and rest: "(case existing of
       Some e \<Rightarrow>
         (if le_ApprovalID (ss_Approval e) \<noteq> la_ApprovalID request \<or> ss_Spec e \<noteq> la_Spec request then Inl ErrLaunchSpecConflict
          else Inr (e, db))
     | None \<Rightarrow>
         andThen (validateLaunchApprovalEligibility (ld_proposals db) (lp_Revision (la_Spec request)) (la_ApprovalID request)) (\<lambda>e.
         let n = spec_row now request e canonical in
         andThen (ensure (spec_insertable n db) ErrLaunchConstraint) (\<lambda>_.
         Inr (\<lparr>ss_Spec = la_Spec request, ss_LaunchSpecHash = ?h, ss_Approval = e, ss_CreatedAt = now\<rparr>,
           db\<lparr>launch_specs := launch_specs db @ [n]\<rparr>)))) = Inr (s, db')"
    unfolding StoreLaunchSpec_def andThen_Inr ensure_Inr launch_msg_Inr by blast
  have "loadLaunchSpec db' ?h = Inr (Some s) \<and> ss_Spec s = la_Spec request \<and> le_ApprovalID (ss_Approval s) = la_ApprovalID request"
  proof (cases existing)
    case (Some e)
    then show ?thesis using rest r(3) by (auto split: if_splits)
  next
    case None
    then obtain e where new: "validateLaunchApprovalEligibility (ld_proposals db) (lp_Revision (la_Spec request)) (la_ApprovalID request) = Inr e"
      "db' = db\<lparr>launch_specs := launch_specs db @ [spec_row now request e canonical]\<rparr>"
      "s = \<lparr>ss_Spec = la_Spec request, ss_LaunchSpecHash = ?h, ss_Approval = e, ss_CreatedAt = now\<rparr>"
      using rest by (auto simp: andThen_Inr Let_def)
    let ?n = "spec_row now request e canonical"
    have "find_spec ?h db = None"
      using r(3) None by (cases "find_spec ?h db") (auto elim!: load_spec [OF inv])
    then have f: "find_spec ?h db' = Some ?n" by (simp add: new(2) find_spec_def find_append spec_row_def)
    have inv': "launch_inv db'" by (rule launch_step_inv [OF launch_step.store [OF op] inv])
    obtain s' where s': "loadLaunchSpec db' ?h = Inr (Some s')" "ss_LaunchSpecHash s' = ?h" "ss_Approval s' = row_approval ?n"
      "ss_CreatedAt s' = sr_CreatedAt ?n" "canonicalJSON (launchSpecCanonicalValue (ss_Spec s')) = Inr (sr_SpecJSON ?n)"
      by (rule load_spec [OF inv' f])
    have "ss_Spec s' = la_Spec request"
      using decode_stored_spec [OF s'(5)] decode_stored_spec [OF r(2)] by (simp add: spec_row_def)
    moreover have "row_approval ?n = e" using eligibility_identity [OF new(1)] by (simp add: row_approval_def spec_row_def)
    ultimately have "s' = s" using s' new(3) by (simp add: spec_row_def)
    then show ?thesis using s'(1) new(3) eligibility_identity(4) [OF new(1)] by simp
  qed
  then show "loadLaunchSpec db' ?h = Inr (Some s)" "ss_Spec s = la_Spec request" "le_ApprovalID (ss_Approval s) = la_ApprovalID request" by simp_all
qed

subsection \<open>Retries under an active fence\<close>

lemma fence_owner:
  assumes "claims_inv db" "c \<in> set (task_claims db)" "c' \<in> set (task_claims db)" "cl_Fence c = cl_Fence c'"
  shows "c = c'"
  using assms unique_rows [of "lf_ClaimID \<circ> cl_Fence" "task_claims db" c c'] by (simp add: claims_inv_def)

text \<open>The active claim of a fence, and the owner of a fact that carries the fence.\<close>

lemma active_fence:
  assumes inv: "launch_inv db" and a: "requireActiveLaunchFence db [] f = Inr a"
  obtains c where "c \<in> set (task_claims db)" "a = row_claim c" "cl_Fence c = f"
    "\<And>x. x \<in> claim_ids db \<Longrightarrow> snd x = f \<Longrightarrow> x = cl_id c"
proof -
  obtain c d where c: "c \<in> set (task_claims db)" "a = row_claim c" "cl_Fence c = f" by (rule fence_active [OF a]) (rule that)
  have "x = cl_id c" if "x \<in> claim_ids db" "snd x = f" for x
  proof -
    obtain c' where "c' \<in> set (task_claims db)" "x = cl_id c'" using \<open>x \<in> claim_ids db\<close> by (auto simp: claim_ids_def)
    then show ?thesis using fence_owner [OF launch_invD(4) [OF inv] _ c(1)] that(2) c(3) by (auto simp: cl_id_def)
  qed
  then show ?thesis using that c by blast
qed

lemma materialize_request:
  assumes "RecordLaunchMaterializationReady clock rnd request db = Inr (m, db')"
  shows "validateLaunchMaterializationRequest request = Inr ()"
    and "\<exists>a s. requireActiveLaunchFence db [] (mq_Fence request) = Inr a \<and> loadLaunchSpec db (tk_LaunchSpecHash a) = Inr (Some s)
      \<and> lp_SealedContract (ss_Spec s) = \<lparr>sc_MaterializationHash = mq_MaterializationHash request, sc_Nonce = mq_Nonce request\<rparr>"
  using assms by (auto simp: RecordLaunchMaterializationReady_def launch_unfold intro!: LaunchSealedContract.equality)

lemma replay_materialize:
  assumes op: "RecordLaunchMaterializationReady clock rnd request db = Inr (m, db1)" and inv: "launch_inv db"
    and steps: "launch_step\<^sup>*\<^sup>* db1 db2" and a: "requireActiveLaunchFence db2 [] (mq_Fence request) = Inr a"
  shows "RecordLaunchMaterializationReady clock' rnd' request db2 = Inr (m, db2)"
proof -
  have inv1: "launch_inv db1" by (rule launch_inv_materialize [OF op inv])
  have e: "launch_inv db2" "launch_evolves db1 db2" using launch_steps_evolve [OF steps inv1] by simp_all
  have m1: "m \<in> set (launch_materializations db1) \<and> mz_LaunchFence m = mq_Fence request \<and> mz_MaterializationID m = mq_MaterializationID request"
    using op inv by (cases rule: materialize_writes) (auto simp: materialized_def mat_row_def)
  then have m: "m \<in> set (launch_materializations db2)" using e(2) by (auto simp: launch_evolves_def prefix_def)
  obtain c where c: "c \<in> set (task_claims db2)" "a = row_claim c" "\<And>x. x \<in> claim_ids db2 \<Longrightarrow> snd x = mq_Fence request \<Longrightarrow> x = cl_id c"
    by (rule active_fence [OF e(1) a]) (rule that)
  have "mz_id m \<in> claim_ids db2" using launch_invD(6) [OF e(1)] m by (auto simp: outbox_inv_def mat_ids_def)
  then have mid: "mz_id m = cl_id c" using c(3) m1 by (simp add: mz_id_def)
  obtain a0 s where s: "requireActiveLaunchFence db [] (mq_Fence request) = Inr a0" "loadLaunchSpec db (tk_LaunchSpecHash a0) = Inr (Some s)"
    "lp_SealedContract (ss_Spec s) = \<lparr>sc_MaterializationHash = mq_MaterializationHash request, sc_Nonce = mq_Nonce request\<rparr>"
    using materialize_request(2) [OF op] by blast
  obtain c0 where c0: "c0 \<in> set (task_claims db)" "a0 = row_claim c0" "cl_Fence c0 = mq_Fence request" by (rule active_fence [OF inv s(1)]) (rule that)
  have ev: "launch_evolves db db2" using launch_evolves_trans [OF launch_step_evolves [OF launch_step.materialize [OF op] inv] e(2)] .
  have "cl_id c0 = cl_id c" using claim_kept [OF ev c0(1)] c0(3) by (intro c(3)) (auto simp: claim_ids_def cl_id_def)
  then have load: "loadLaunchSpec db2 (cl_LaunchSpecHash c) = Inr (Some s)"
    using load_spec_kept [OF ev s(2)] c0(2) by (simp add: row_claim_def cl_id_def)
  have "mz_MaterializationHash m = mq_MaterializationHash request" "mz_Nonce m = mq_Nonce request"
    using launch_invD(7) [OF e(1)] m load_spec_Some [OF load] mid s(3) by (auto simp: mats_inv_def mz_id_def cl_id_def)
  then show ?thesis
    using materialize_request(1) [OF op] a load load_materialization(2) [OF e(1) c(1) m mid] s(3) m1
    by (simp add: RecordLaunchMaterializationReady_def c(2) row_claim_def require_def cl_gen_def validatePersistedLaunchMaterialization_def Let_def)
qed

text \<open>A run intent, once read, reads the same ever after.\<close>

lemma load_run_kept:
  assumes "launch_evolves db db'" "loadLaunchRunIntent db k = Inr (Some e)"
  shows "loadLaunchRunIntent db' k = Inr (Some e)"
proof -
  have pre: "prefix (launch_run_intents db) (launch_run_intents db')" "prefix (launch_run_state_facts db) (launch_run_state_facts db')"
    using assms(1) by (simp_all add: launch_evolves_def)
  from assms(2) show ?thesis
    using find_prefix [OF pre(1)] find_prefix [OF pre(2)]
    by (auto simp: loadLaunchRunIntent_def andThen_Inr split: option.splits)
qed

lemma run_fence_kept:
  assumes inv: "launch_inv db2" and ev: "launch_evolves db db2"
    and old: "requireActiveLaunchFence db [] f = Inr a0" "requireLaunchRunIntentFence db k a0 = Inr ()"
    and a: "requireActiveLaunchFence db2 [] f = Inr a"
  shows "requireLaunchRunIntentFence db2 k a = Inr ()"
proof -
  obtain c where c: "a = row_claim c" "cl_Fence c = f" "\<And>x. x \<in> claim_ids db2 \<Longrightarrow> snd x = f \<Longrightarrow> x = cl_id c"
    by (rule active_fence [OF inv a]) (rule that)
  obtain c0 d0 where c0: "c0 \<in> set (task_claims db)" "a0 = row_claim c0" "cl_Fence c0 = f" by (rule fence_active [OF old(1)]) (rule that)
  have same: "cl_id c0 = cl_id c" using claim_kept [OF ev c0(1)] c0(3) by (intro c(3)) (auto simp: claim_ids_def cl_id_def)
  obtain e where e: "loadLaunchRunIntent db k = Inr (Some e)" "ri_LaunchFence e = cl_Fence c0" "ri_LaunchSpecHash e = cl_LaunchSpecHash c0"
    using old(2) c0(2) by (auto simp: requireLaunchRunIntentFence_def launch_unfold row_claim_def)
  then show ?thesis
    using load_run_kept [OF ev e(1)] same c(1) by (simp add: requireLaunchRunIntentFence_def require_def row_claim_def cl_id_def)
qed

lemma replay_terminal:
  assumes op: "AppendLaunchTerminalIntent now request db = Inr (t, db1)" and inv: "launch_inv db"
    and steps: "launch_step\<^sup>*\<^sup>* db1 db2" and a: "requireActiveLaunchFence db2 [] (tq_Fence request) = Inr a"
  shows "AppendLaunchTerminalIntent now' request db2 = Inr (t, db2)"
proof -
  have e: "launch_inv db2" "launch_evolves db1 db2" using launch_steps_evolve [OF steps launch_inv_terminal [OF op inv]] by simp_all
  have ev: "launch_evolves db db2" using launch_evolves_trans [OF launch_step_evolves [OF launch_step.terminal [OF op] inv] e(2)] .
  obtain a0 where o: "validateLaunchIntentRequest (tq_Fence request) (tq_RunID request) (tq_IntentID request) = Inr ()"
    "requireActiveLaunchFence db [] (tq_Fence request) = Inr a0" "requireLaunchRunIntentFence db (tq_RunID request) a0 = Inr ()"
    using op by (auto simp: AppendLaunchTerminalIntent_def andThen_Inr)
  have t: "t \<in> set (launch_terminal_intents db1) \<and> ti_RunID t = tq_RunID request \<and> ti_LaunchFence t = tq_Fence request \<and> ti_IntentID t = tq_IntentID request"
    using op by (cases rule: terminal_writes) auto
  then have "t \<in> set (launch_terminal_intents db2)" using e(2) by (auto simp: launch_evolves_def prefix_def)
  then have "loadLaunchTerminalIntent db2 (tq_RunID request) = Some t" using t load_terminal [OF launch_invD(9) [OF e(1)]] by simp
  then show ?thesis using o(1) a run_fence_kept [OF e(1) ev o(2,3) a] t by (simp add: AppendLaunchTerminalIntent_def)
qed

lemma replay_evidence:
  assumes op: "SettleLaunchEvidenceIntent now request db = Inr (t, db1)" and inv: "launch_inv db"
    and steps: "launch_step\<^sup>*\<^sup>* db1 db2" and a: "requireActiveLaunchFence db2 [] (eq_Fence request) = Inr a"
  shows "SettleLaunchEvidenceIntent now' request db2 = Inr (t, db2)"
proof -
  have e: "launch_inv db2" "launch_evolves db1 db2" using launch_steps_evolve [OF steps launch_inv_evidence [OF op inv]] by simp_all
  have ev: "launch_evolves db db2" using launch_evolves_trans [OF launch_step_evolves [OF launch_step.evidence [OF op] inv] e(2)] .
  obtain a0 where o: "validateLaunchIntentRequest (eq_Fence request) (eq_RunID request) (eq_IntentID request) = Inr ()"
    "requireActiveLaunchFence db [] (eq_Fence request) = Inr a0" "requireLaunchRunIntentFence db (eq_RunID request) a0 = Inr ()"
    using op by (auto simp: SettleLaunchEvidenceIntent_def andThen_Inr)
  have t: "t \<in> set (launch_evidence_intents db1) \<and> ei_RunID t = eq_RunID request \<and> ei_LaunchFence t = eq_Fence request \<and> ei_IntentID t = eq_IntentID request"
    using op by (cases rule: evidence_writes) auto
  then have m: "t \<in> set (launch_evidence_intents db2)" using e(2) by (auto simp: launch_evolves_def prefix_def)
  have "unique_key ei_RunID (launch_evidence_intents db2)" using launch_invD(9) [OF e(1)] by (simp add: intents_inv_def)
  then have "loadLaunchEvidenceIntent db2 (eq_RunID request) = Inr (Some t)"
    using m t load_evidence [OF launch_invD(9) [OF e(1)]] by (simp add: find_key_Some)
  then show ?thesis using o(1) a run_fence_kept [OF e(1) ev o(2,3) a] t by (simp add: SettleLaunchEvidenceIntent_def)
qed

lemma run_result:
  assumes op: "CreateLaunchRunIntent clock rnd request db = Inr (e, db1)" and inv: "launch_inv db"
  shows "loadLaunchRunIntent db1 (iq_RunID request) = Inr (Some e) \<and> ri_LaunchFence e = iq_Fence request
    \<and> ri_MaterializationID e = iq_MaterializationID request \<and> ri_Attempt e = iq_Attempt request"
  using op inv
proof (cases rule: run_writes)
  case (replay r f)
  then show ?thesis by (simp add: row_intent_def)
next
  case (new c d i)
  let ?n = "run_row (clock 0) request c" and ?f = "created_fact (clock 0) c"
  have "find (\<lambda>r. rw_RunID r = iq_RunID request) (launch_run_intents db) = None"
    "find (\<lambda>f. rf_RunID f = iq_RunID request \<and> sf_Sequence (rf_Fact f) = 1) (launch_run_state_facts db) = None" "1 \<le> rw_Attempt ?n"
    using new(6) by (auto simp: run_insertable_def find_None_iff_set list_all_iff run_row_def)
  then show ?thesis
    by (simp add: new(7,8) run_created_def loadLaunchRunIntent_def find_append run_row_def created_fact_def require_def)
      (simp add: row_intent_def new(2))
qed

lemma replay_run:
  assumes op: "CreateLaunchRunIntent clock rnd request db = Inr (e, db1)" and inv: "launch_inv db"
    and steps: "launch_step\<^sup>*\<^sup>* db1 db2" and a: "requireActiveLaunchFence db2 [] (iq_Fence request) = Inr a"
  shows "CreateLaunchRunIntent clock' rnd' request db2 = Inr (e, db2)"
proof -
  have i: "launch_inv db2" "launch_evolves db1 db2" using launch_steps_evolve [OF steps launch_inv_run [OF op inv]] by simp_all
  have e: "loadLaunchRunIntent db2 (iq_RunID request) = Inr (Some e)" "ri_LaunchFence e = iq_Fence request"
    "ri_MaterializationID e = iq_MaterializationID request" "ri_Attempt e = iq_Attempt request"
    using run_result [OF op inv] load_run_kept [OF i(2)] by auto
  obtain r f where r: "r \<in> set (launch_run_intents db2)" "e = row_intent r f" by (rule load_run_Some [OF e(1)]) (rule that)
  obtain c where c: "c \<in> set (task_claims db2)" "a = row_claim c" "cl_Fence c = iq_Fence request"
    "\<And>x. x \<in> claim_ids db2 \<Longrightarrow> snd x = iq_Fence request \<Longrightarrow> x = cl_id c"
    by (rule active_fence [OF i(1) a]) (rule that)
  have "rw_id r \<in> claim_ids db2" using launch_invD(6) [OF i(1)] r(1) by (auto simp: outbox_inv_def run_ids_def)
  then have rid: "rw_id r = cl_id c" using c(4) e(2) r(2) by (simp add: rw_id_def row_intent_def)
  obtain m c' where m: "m \<in> set (launch_materializations db2)" "mz_id m = cl_id c" "mz_MaterializationID m = iq_MaterializationID request"
    and c': "c' \<in> set (task_claims db2)" "cl_id c' = cl_id c" "cl_Attempt c' = iq_Attempt request"
    using launch_invD(8) [OF i(1)] r rid e(3,4) by (auto simp: runs_inv_def row_intent_def)
  have "c' = c" using fence_owner [OF launch_invD(4) [OF i(1)] c'(1) c(1)] c'(2) by (simp add: cl_id_def)
  then have att: "iq_Attempt request = tk_Attempt a" using c'(3) c(2) by (simp add: row_claim_def)
  obtain q where "find_spec (cl_LaunchSpecHash c) db2 = Some q" using launch_invD(4) [OF i(1)] c(1) by (auto simp: claims_inv_def)
  then obtain s where s: "loadLaunchSpec db2 (cl_LaunchSpecHash c) = Inr (Some s)" by (rule load_spec [OF i(1)]) (rule that)
  have "validatePersistedLaunchMaterialization s m = Inr ()"
    using launch_invD(7) [OF i(1)] m load_spec_Some [OF s] by (auto simp: mats_inv_def mz_id_def cl_id_def validatePersistedLaunchMaterialization_def Let_def)
  moreover have "validateLaunchRunIntentRequest request = Inr ()" using op by (auto simp: CreateLaunchRunIntent_def andThen_Inr)
  ultimately show ?thesis
    using a att s e m(2,3) load_materialization(2) [OF i(1) c(1) m(1,2)] c(2)
    by (simp add: CreateLaunchRunIntent_def require_def row_claim_def cl_gen_def mz_id_def cl_id_def)
qed

subsection \<open>Reclaiming\<close>

lemma reclaim_succeeds:
  assumes inv: "launch_inv db" and c: "active_claim db (cq_LaunchSpecHash r) = Some c" and r: "validateLaunchClaimRequest r = Inr ()"
    and fresh: "cq_ClaimID r \<notin> (lf_ClaimID \<circ> cl_Fence) ` set (task_claims db)"
      "''launch_outbox_'' @ hex_encode bytes \<notin> lo_OutboxID ` set (launch_admission_outbox db)"
  shows "\<exists>db'. ReclaimLaunchClaim clock (Some bytes) \<lparr>rq_ExpectedFence = cl_Fence c, rq_Claim = r\<rparr> db =
    Inr (row_claim (claim_row (clock 0) r (cl_gen c + 1)), db')"
proof -
  let ?h = "cq_LaunchSpecHash r" let ?n = "claim_row (clock 0) r (cl_gen c + 1)"
  note e = launch_invD(4,6) [OF inv]
  have cc: "c \<in> set (task_claims db)" "cl_LaunchSpecHash c = ?h" "cl_gen c = generation db ?h" using c by (simp_all add: active_claim_Some [OF e(1)])
  have wf: "fence_well_formed (cl_Fence c)" "find_spec ?h db \<noteq> None" using e(1) cc by (auto simp: claims_inv_def)
  have act: "requireActiveLaunchFence db ?h (cl_Fence c) = Inr (row_claim c)" using fence_outcome [OF inv cc(1), of ?h] cc by simp
  have below: "lf_FenceGeneration (snd x) \<le> cl_gen c" if "x \<in> claim_ids db" "fst x = ?h" for x
  proof -
    obtain y where "y \<in> set (task_claims db)" "x = cl_id y" using \<open>x \<in> claim_ids db\<close> by (auto simp: claim_ids_def)
    then show ?thesis using claim_bounds(2) [OF e(1), of y] that(2) cc(3) by (simp add: cl_id_def cl_gen_def)
  qed
  have "claim_insertable ?n db"
    using r fresh(1) wf claim_bounds(1) [OF e(1) cc(1)] below
    by (force simp: claim_insertable_def claim_row_def request_fence_def list_all_iff validateLaunchClaimRequest_def claim_ids_def cl_id_def)
  moreover have "lo_OutboxID o' \<noteq> ''launch_outbox_'' @ hex_encode bytes
      \<and> \<not> (lo_LaunchSpecHash o' = ?h \<and> lf_FenceGeneration (lo_LaunchFence o') = cl_gen c + 1 \<and> lo_Sequence o' = 1)"
    if "o' \<in> set (launch_admission_outbox db)" for o'
    using imageI [OF that, of lo_OutboxID] fresh(2) below [OF stage_owner [OF e(2) that]] by (auto simp: lo_id_def simp del: imageI)
  moreover have "?h \<noteq> []" using r by (auto simp: validateLaunchClaimRequest_def launchHashPattern_def)
  ultimately show ?thesis
    using r act wf(1) claim_bounds(1) [OF e(1) cc(1)]
    by (auto simp: ReclaimLaunchClaim_def andThen_Inr fence_well_formed_def insertLaunchClaim_def row_claim_def cl_gen_def claim_row_def
        request_fence_def insertLaunchOutbox_def newProposalIdentifier_def list_all_iff validLaunchOutboxStage_def claim_exists_def Let_def
        launchHashPattern_def)
qed

lemma reclaim_boundary:
  assumes op: "ReclaimLaunchClaim clock rnd request db = Inr (c, db')" and inv: "launch_inv db"
  obtains b where "GetLaunchRecoveryBoundary db' (cq_LaunchSpecHash (rq_Claim request)) = Inr b" "lb_Claim b = c"
    "lb_Action b = LaunchRecoveryRetryMaterialization"
  using op inv
proof (rule reclaim_writes)
  fix old n i assume n: "c = row_claim n" "new_claim db n" "cl_LaunchSpecHash n = cq_LaunchSpecHash (rq_Claim request)"
    and db': "db' = claimed db n (update_where (\<lambda>h. hd_LaunchSpecHash h = cl_LaunchSpecHash n) (\<lambda>h. h\<lparr>hd_Fence := cl_Fence n\<rparr>) (launch_claim_heads db))
       (outbox_row (clock 1) i n 1 LaunchOutboxPendingMaterialization)"
  have inv': "launch_inv db'" by (rule launch_inv_reclaim [OF op inv])
  have act: "active_claim db' (cl_LaunchSpecHash n) = Some n" using active_claimed(1) [OF inv' db'] n(2) by (simp add: new_claim_def)
  have "launch_view db' (cl_LaunchSpecHash n) = Some (cl_gen n, 1)" using view_claimed [OF inv inv' db' n(2)] by simp
  then have "stage db' n = 1" using act by (simp add: launch_view_def)
  moreover obtain b where b: "loadLaunchRecoveryBoundary db' (cl_LaunchSpecHash n) = Inr b" "lb_Claim b = row_claim n"
    "lb_Action b = stage_action (stage db' n)"
    by (rule boundary_exact [OF inv' act])
  ultimately show thesis using that n(1,3) by (simp add: GetLaunchRecoveryBoundary_def stage_action_def)
qed

subsection \<open>Fenced work ends\<close>

inductive fenced_progress :: "LaunchDB \<Rightarrow> LaunchDB \<Rightarrow> bool" where
  materialize: "RecordLaunchMaterializationReady clock rnd mat_request db = Inr (m, db') \<Longrightarrow> db' \<noteq> db \<Longrightarrow> fenced_progress db db'"
| run: "CreateLaunchRunIntent clock rnd run_request db = Inr (r, db') \<Longrightarrow> db' \<noteq> db \<Longrightarrow> fenced_progress db db'"
| terminal: "AppendLaunchTerminalIntent now terminal_request db = Inr (t, db') \<Longrightarrow> db' \<noteq> db \<Longrightarrow> fenced_progress db db'"
| evidence: "SettleLaunchEvidenceIntent now evidence_request db = Inr (e, db') \<Longrightarrow> db' \<noteq> db \<Longrightarrow> fenced_progress db db'"

definition work_done :: "LaunchDB \<Rightarrow> nat" where
  "work_done db = length (launch_materializations db) + length (launch_run_intents db) + length (launch_terminal_intents db)
     + length (launch_evidence_intents db)"

lemma fenced_progress_work:
  assumes "fenced_progress db db'" "launch_inv db"
  shows "work_done db' = work_done db + 1" "task_claims db' = task_claims db" "launch_inv db'"
proof -
  from assms(1) have "work_done db' = work_done db + 1 \<and> task_claims db' = task_claims db \<and> launch_inv db'"
  proof cases
    case materialize
    then show ?thesis using launch_inv_materialize [OF materialize(1) assms(2)]
      by (cases rule: materialize_writes [OF _ assms(2)]) (auto simp: work_done_def materialized_def)
  next
    case run
    then show ?thesis using launch_inv_run [OF run(1) assms(2)]
      by (cases rule: run_writes [OF _ assms(2)]) (auto simp: work_done_def run_created_def)
  next
    case terminal
    then show ?thesis using launch_inv_terminal [OF terminal(1) assms(2)] by (cases rule: terminal_writes) (auto simp: work_done_def)
  next
    case evidence
    then show ?thesis using launch_inv_evidence [OF evidence(1) assms(2)] by (cases rule: evidence_writes) (auto simp: work_done_def)
  qed
  then show "work_done db' = work_done db + 1" "task_claims db' = task_claims db" "launch_inv db'" by simp_all
qed

lemma length_keys: "unique_key f t \<Longrightarrow> f ` set t \<subseteq> g ` set u \<Longrightarrow> length t \<le> length u"
proof -
  assume u: "unique_key f t" and sub: "f ` set t \<subseteq> g ` set u"
  have "length t = card (f ` set t)" using u by (simp add: unique_key_def distinct_map card_image distinct_card)
  also have "\<dots> \<le> card (g ` set u)" using sub by (simp add: card_mono)
  also have "\<dots> \<le> length u" using card_image_le [of "set u" g] card_length [of u] by simp
  finally show ?thesis .
qed

lemma work_bounded:
  assumes "launch_inv db"
  shows "work_done db \<le> 4 * length (task_claims db)"
proof -
  note e = launch_invD(6-9) [OF assms]
  have m: "length (launch_materializations db) \<le> length (task_claims db)"
    by (rule length_keys [of mz_id _ cl_id]) (use e in \<open>simp_all add: mats_inv_def outbox_inv_def mat_ids_def claim_ids_def\<close>)
  have r: "length (launch_run_intents db) \<le> length (launch_materializations db)"
    by (rule length_keys [of rw_id _ mz_id]) (use e in \<open>simp_all add: runs_inv_def outbox_inv_def mat_ids_def run_ids_def\<close>)
  have "length (launch_terminal_intents db) \<le> length (launch_run_intents db)"
    by (rule length_keys [of ti_RunID _ rw_RunID]) (use e(4) in \<open>auto simp: intents_inv_def\<close>)
  moreover have "length (launch_evidence_intents db) \<le> length (launch_run_intents db)"
    by (rule length_keys [of ei_RunID _ rw_RunID]) (use e(4) in \<open>auto simp: intents_inv_def\<close>)
  ultimately show ?thesis using m r by (simp add: work_done_def)
qed

lemma progress_chain:
  assumes "(fenced_progress ^^ n) db db'" "launch_inv db"
  shows "work_done db' = work_done db + n \<and> task_claims db' = task_claims db \<and> launch_inv db'"
  using assms
proof (induction n arbitrary: db')
  case (Suc n)
  then obtain x where x: "(fenced_progress ^^ n) db x" "fenced_progress x db'" by auto
  from Suc.IH [OF x(1) Suc.prems(2)] have "work_done x = work_done db + n" "task_claims x = task_claims db" "launch_inv x" by simp_all
  then show ?case using fenced_progress_work [OF x(2)] by simp
qed simp

subsection \<open>The recovery listing\<close>

lemma listing_keys:
  "map lx_LaunchSpecHash (ListLaunchRecoveryBoundaries db) =
     map hd_LaunchSpecHash (order_by (head_created db) (order_by hd_LaunchSpecHash (launch_claim_heads db)))"
  by (auto simp: ListLaunchRecoveryBoundaries_def split: sum.split)

lemma listing_hashes:
  assumes "launch_inv db"
  shows "distinct (map lx_LaunchSpecHash (ListLaunchRecoveryBoundaries db))"
    "set (map lx_LaunchSpecHash (ListLaunchRecoveryBoundaries db)) = cl_LaunchSpecHash ` set (task_claims db)"
proof -
  note e = launch_invD(5) [OF assms]
  have "distinct (map hd_LaunchSpecHash (launch_claim_heads db))" using e by (simp add: heads_inv_def unique_key_def)
  then show "distinct (map lx_LaunchSpecHash (ListLaunchRecoveryBoundaries db))" unfolding listing_keys by (simp add: order_by_def distinct_map)
  show "set (map lx_LaunchSpecHash (ListLaunchRecoveryBoundaries db)) = cl_LaunchSpecHash ` set (task_claims db)"
    unfolding listing_keys using e by (simp add: heads_inv_def)
qed

lemma listing_boundaries:
  assumes inv: "launch_inv db" and x: "x \<in> set (ListLaunchRecoveryBoundaries db)"
  shows "lx_Cause x = None \<and> (\<exists>b. lx_Boundary x = Some b \<and> loadLaunchRecoveryBoundary db (lx_LaunchSpecHash x) = Inr b)"
proof -
  from x obtain h where h: "h \<in> set (launch_claim_heads db)" "x = (case GetLaunchRecoveryBoundary db (hd_LaunchSpecHash h) of
         Inl e \<Rightarrow> \<lparr>lx_LaunchSpecHash = hd_LaunchSpecHash h, lx_Boundary = None, lx_Cause = Some e\<rparr>
       | Inr b \<Rightarrow> \<lparr>lx_LaunchSpecHash = hd_LaunchSpecHash h, lx_Boundary = Some b, lx_Cause = None\<rparr>)"
    by (auto simp: ListLaunchRecoveryBoundaries_def)
  have "hd_LaunchSpecHash h \<in> cl_LaunchSpecHash ` set (task_claims db)" using launch_invD(5) [OF inv] h(1) by (auto simp: heads_inv_def)
  then obtain c where "active_claim db (hd_LaunchSpecHash h) = Some c" using active_None [OF inv] by blast
  then obtain b where "loadLaunchRecoveryBoundary db (hd_LaunchSpecHash h) = Inr b" by (rule boundary_exact [OF inv]) (rule that)
  then show ?thesis using h(2) by (simp add: GetLaunchRecoveryBoundary_def)
qed

end
