(* ===== verification/Launch_Demo.thy ===== *)
theory Launch_Demo
  imports Launch_Evolution Proposal_Demo
begin

section \<open>A concrete launch\<close>

text \<open>
  The proposal of the demonstration store, approved; a launch spec for its revision, stored, claimed,
  materialized, admitted and finally reclaimed.  Hashes stay symbolic.
\<close>

definition demo_approve :: DecideProposalApprovalRequest where
  "demo_approve = demo_decision ApprovalStateApproved"

definition demo_approval :: Approval where
  "demo_approval = (pending_approval demo_now demo_aid demo_pid 1 demo_hash)
     \<lparr>ap_State := ApprovalStateApproved, ap_DecidedAt := Some demo_now, ap_DecidedBy := Some localGUIOperator,
      ap_DecisionIdempotencyKey := Some ''key_decide'', ap_Reason := Some ''reviewed''\<rparr>"

definition demo_approved_db :: ProposalDB where
  "demo_approved_db =
     \<lparr>task_proposals = [(created_proposal demo_now demo_pid demo_create demo_hash)\<lparr>pr_State := ProposalStateApproved\<rparr>],
      task_proposal_revisions = task_proposal_revisions demo_created_db,
      task_proposal_approvals = [demo_approval],
      task_proposal_revision_lifecycles = [(pending_lifecycle demo_now demo_aid demo_pid 1 demo_hash)
        \<lparr>lc_State := RevisionLifecycleStateApproved, lc_UpdatedAt := demo_now, lc_Version := 2\<rparr>],
      task_proposal_activity = task_proposal_activity demo_created_db @
        [activity_row demo_created_db ''decide_approval'' demo_now demo_mutation],
      task_proposal_idempotency = task_proposal_idempotency demo_created_db @
        [idem_row ''decide_approval'' demo_aid ''key_decide'' (body_hash (decisionRequestBody demo_approve)) demo_mutation]\<rparr>"

lemma demo_approved: "DecideProposalApproval demo_now demo_approve demo_created_db = Inr (demo_mutation, demo_approved_db)"
  unfolding DecideProposalApproval_def demo_approve_def body_hash [OF demo_decision_ok(1)]
  by (simp add: demo_decision_ok canonical_error_def, simp add: lookupProposalIdempotency_def find_idempotency_def
      demo_created_db_def demo_decision_def record_mutation_def insertProposalIdempotency_def
      validateProposalMutationIdentity_def rv_ident_def lc_ident_def ap_ident_def mu_ident_def pending_approval_def
      pending_lifecycle_def appendProposalActivity_def created_proposal_def activity_row_def activity_seqs_def idem_row_def
      demo_mutation_def demo_approved_db_def demo_approve_def demo_approval_def decided_pair_def decide_lifecycle_def decide_approval_def
      close_proposal_def find_approval_def find_proposal_def rows_affected_def Let_def require_def)

lemma demo_real_clock: "real_clock demo_created_db" "real_clock demo_approved_db"
  by (simp_all add: real_clock_def demo_created_db_def demo_approved_db_def demo_approval_def pending_approval_def zeroTime_def demo_now_def)

subsection \<open>The spec\<close>

definition hash_of :: "char \<Rightarrow> string" where
  "hash_of c = ''sha256:'' @ replicate 64 c"

definition demo_host_base :: "string \<Rightarrow> LaunchHostSpec" where
  "demo_host_base fingerprint = \<lparr>hs_Capabilities = wantCapabilities, hs_ExecutableRouteFingerprint = hash_of (CHR ''1''),
     hs_HostSpecFingerprint = fingerprint, hs_RequiredFilesFingerprint = hash_of (CHR ''2''),
     hs_TranscriptSourceFingerprint = hash_of (CHR ''3''), hs_WorktreeLayoutFingerprint = hash_of (CHR ''4'')\<rparr>"

definition demo_host :: LaunchHostSpec where
  "demo_host = demo_host_base (body_hash (launchHostSpecCanonicalValue (demo_host_base []) False))"

definition demo_sealed :: LaunchSealedContract where
  "demo_sealed = \<lparr>sc_MaterializationHash = hash_of (CHR ''5''), sc_Nonce = ''nonce:'' @ replicate 64 (CHR ''6'')\<rparr>"

definition demo_spec :: LaunchSpec where
  "demo_spec = \<lparr>lp_SchemaVersion = launchSpecSchemaVersion,
     lp_Revision = \<lparr>lr_ProposalID = demo_pid, lr_Revision = 1, lr_RevisionHash = demo_hash\<rparr>,
     lp_Model = \<lparr>lm_Provider = ''provider'', lm_Model = ''model''\<rparr>, lp_Deadline = ''2026-01-02T03:04:05Z'', lp_AttemptCap = 3,
     lp_ReadOnlyScope = \<lparr>ls_Access = ''read_only'', ls_Retrieval = ''sealed_contract_only'', ls_ScopeFingerprint = hash_of (CHR ''7''),
       ls_Writes = ''forbidden''\<rparr>, lp_SealedContract = demo_sealed, lp_HostSpec = demo_host,
     lp_Transcript = \<lparr>lt_Dialect = ''omp_shape_v1'', lt_DialectFingerprint = hash_of (CHR ''8''), lt_Parse = ''shape_only''\<rparr>,
     lp_Verification = \<lparr>lv_Kind = ''read_only'', lv_VerificationCommandFingerprint = hash_of (CHR ''9'')\<rparr>\<rparr>"

definition demo_text :: string where
  "demo_text = enc (canon (launchSpecCanonicalValue demo_spec))"

definition demo_lhash :: string where
  "demo_lhash = body_hash (launchSpecCanonicalValue demo_spec)"

definition demo_admission :: LaunchAdmissionRequest where
  "demo_admission = \<lparr>la_Spec = demo_spec, la_LaunchSpecHash = demo_lhash, la_ApprovalID = demo_aid\<rparr>"

lemma body_hash_pattern: "launchHashPattern (body_hash v)"
  by (simp add: body_hash_def launchHashPattern_def HasPrefix_def length_hex_encode hex_encode_lower)

lemma demo_hash_pattern: "launchHashPattern demo_hash"
  by (simp add: demo_hash_def launchHashPattern_def HasPrefix_def length_hex_encode hex_encode_lower)

lemma hash_of_pattern: "is_lower_hex c \<Longrightarrow> launchHashPattern (hash_of c)"
  by (simp add: hash_of_def launchHashPattern_def HasPrefix_def list_all_iff)

lemma nonce_pattern: "launchNoncePattern (''nonce:'' @ replicate 64 (CHR ''6''))"
  by (simp add: launchNoncePattern_def HasPrefix_def list_all_iff is_lower_hex_def is_digit_def byte_of_def)

lemma nonce_valid: "ValidString (''nonce:'' @ replicate 64 (CHR ''6''))"
  by (rule ValidString_ascii) (simp add: list_all_iff byte_of_def)

lemma hash_pattern_valid: "launchHashPattern s \<Longrightarrow> ValidString s"
proof (rule ValidString_ascii)
  assume h: "launchHashPattern s"
  then have "take 7 s = ''sha256:''" by (simp add: launchHashPattern_def HasPrefix_def numeral_eq_Suc)
  then obtain t where "s = ''sha256:'' @ t" by (metis append_take_drop_id)
  with h show "list_all (\<lambda>c. byte_of c < 128) s"
    by (auto simp: launchHashPattern_def list_all_iff is_lower_hex_def is_digit_def byte_of_def)
qed

lemma hex_digits: "is_lower_hex (CHR ''1'')" "is_lower_hex (CHR ''2'')" "is_lower_hex (CHR ''3'')" "is_lower_hex (CHR ''4'')" "is_lower_hex (CHR ''5'')"
  "is_lower_hex (CHR ''7'')" "is_lower_hex (CHR ''8'')" "is_lower_hex (CHR ''9'')" "is_lower_hex (CHR ''a'')" "is_lower_hex (CHR ''b'')"
  by (simp_all add: is_lower_hex_def is_digit_def byte_of_def)

lemmas demo_hashes = hash_of_pattern [OF hex_digits(1)] hash_of_pattern [OF hex_digits(2)] hash_of_pattern [OF hex_digits(3)]
  hash_of_pattern [OF hex_digits(4)] hash_of_pattern [OF hex_digits(5)] hash_of_pattern [OF hex_digits(6)] hash_of_pattern [OF hex_digits(7)]
  hash_of_pattern [OF hex_digits(8)] hash_of_pattern [OF hex_digits(9)] hash_of_pattern [OF hex_digits(10)] body_hash_pattern demo_hash_pattern

lemma demo_host_ok: "json_ok (launchHostSpecCanonicalValue (demo_host_base fp) False)" "host_fingerprint_bound demo_host"
proof -
  show ok: "json_ok (launchHostSpecCanonicalValue (demo_host_base fp) False)" for fp
    by (simp add: launchHostSpecCanonicalValue_def demo_host_base_def jstrings_def wantCapabilities_def hash_pattern_valid demo_hashes ascii_simps)
  let ?v = "launchHostSpecCanonicalValue (demo_host_base []) False"
  have "launchHostSpecCanonicalValue demo_host False = ?v"
    by (simp add: launchHostSpecCanonicalValue_def demo_host_def demo_host_base_def)
  moreover have "hs_HostSpecFingerprint demo_host = body_hash ?v" unfolding demo_host_def by (simp add: demo_host_base_def)
  ultimately show "host_fingerprint_bound demo_host"
    using body_hash [OF ok, of "[]"] body_hash_pattern [of ?v] by (simp add: host_fingerprint_bound_def)
qed

lemma demo_spec_json: "json_ok (launchSpecCanonicalValue demo_spec)"
  by (simp add: launchSpecCanonicalValue_def demo_spec_def launchHostSpecCanonicalValue_def demo_host_def demo_host_base_def jstrings_def
      wantCapabilities_def demo_sealed_def demo_pid_def launchSpecSchemaVersion_def hash_pattern_valid demo_hashes
      nonce_valid [simplified])
    (simp add: ascii_simps)

lemma demo_deadline: "launchTimestampPattern ''2026-01-02T03:04:05Z''" "timeParses ''2026-01-02T03:04:05Z''"
  by code_simp+

lemma demo_spec_valid: "validateLaunchSpec demo_spec = Inr ()"
  using demo_host_ok(2) demo_deadline demo_hashes nonce_pattern
  by (simp add: validateLaunchSpec_def demo_spec_def Let_def demo_sealed_def) (simp add: demo_host_def demo_host_base_def demo_pid_def ident_simps)

lemma demo_spec_stored: "canonicalJSON (launchSpecCanonicalValue demo_spec) = Inr demo_text" "HashLaunchSpec demo_spec = Inr demo_lhash"
  by (simp_all add: canonicalJSON_eq demo_spec_json demo_text_def HashLaunchSpec_def demo_spec_valid launch_msg_def body_hash demo_lhash_def)

subsection \<open>The history\<close>

definition demo_spec_row :: LaunchSpecRow where
  "demo_spec_row = \<lparr>sr_LaunchSpecHash = demo_lhash, sr_ProposalID = demo_pid, sr_Revision = 1, sr_RevisionHash = demo_hash, sr_ApprovalID = demo_aid,
     sr_ApprovedAt = demo_now, sr_ApprovedBy = localGUIOperator, sr_ApprovalState = ApprovalStateApproved, sr_SpecJSON = demo_text,
     sr_CreatedAt = demo_now\<rparr>"

definition demo_stored :: StoredLaunchSpec where
  "demo_stored = \<lparr>ss_Spec = demo_spec, ss_LaunchSpecHash = demo_lhash, ss_Approval = row_approval demo_spec_row, ss_CreatedAt = demo_now\<rparr>"

definition pending_launch_db :: LaunchDB where
  "pending_launch_db = emptyLaunch\<lparr>ld_proposals := demo_created_db\<rparr>"

definition approved_launch_db :: LaunchDB where
  "approved_launch_db = emptyLaunch\<lparr>ld_proposals := demo_approved_db\<rparr>"

definition stored_db :: LaunchDB where
  "stored_db = approved_launch_db\<lparr>launch_specs := [demo_spec_row]\<rparr>"

lemma demo_stamp: "parse_stamp (stamp_text (re_CreatedAt demo_revision)) = Some (re_CreatedAt demo_revision)"
proof -
  have "parse_stamp (stamp_text demo_now) = Some demo_now" by code_simp
  then show ?thesis by (simp add: demo_revision_def root_revision_def)
qed

lemma demo_snapshot_decodes: "Option.bind (decodeJSON demo_snapshot) decodeRevision = Some demo_revision"
  by (simp add: demo_snapshot_def decodeJSON_enc decodeRevision_canon demo_stamp)

lemma demo_revision_ident: "re_ProposalID demo_revision = demo_pid" "re_Revision demo_revision = 1"
  by (simp_all add: demo_revision_def root_revision_def)

lemma demo_aid_ident: "ident_pattern 63 demo_aid"
  by (simp add: demo_aid_def ident_simps)

lemma demo_eligible:
  "validateLaunchApprovalEligibility demo_approved_db (lp_Revision demo_spec) demo_aid = Inr (row_approval demo_spec_row)"
  using demo_snapshot_decodes
  by (simp add: validateLaunchApprovalEligibility_def demo_approved_db_def demo_created_db_def rv_ident_def demo_spec_def demo_revision_ident
      require_def eligibility_rows_def created_proposal_def pending_lifecycle_def demo_approval_def pending_approval_def row_approval_def
      demo_spec_row_def)

lemma demo_store: "StoreLaunchSpec demo_now demo_admission approved_launch_db = Inr (demo_stored, stored_db)"
  using demo_eligible demo_spec_stored demo_aid_ident
  by (simp add: StoreLaunchSpec_def demo_admission_def launch_msg_def loadLaunchSpec_def find_spec_def approved_launch_db_def emptyLaunch_def
      spec_insertable_def Let_def spec_row_def)
    (simp add: stored_db_def approved_launch_db_def emptyLaunch_def demo_stored_def demo_spec_row_def row_approval_def demo_spec_def
      demo_approved_db_def demo_created_db_def pending_lifecycle_def rv_ident_def)

lemma demo_launch_reachable: "launch_reachable pending_launch_db" "launch_reachable approved_launch_db" "launch_reachable stored_db"
proof -
  have "launch_step emptyLaunch (emptyLaunch\<lparr>ld_proposals := demo_created_db\<rparr>)"
    by (rule launch_step.proposals [OF _ demo_real_clock(1)]) (simp add: emptyLaunch_def proposal_step.create [OF demo_created])
  then show p: "launch_reachable pending_launch_db" by (simp add: pending_launch_db_def r_into_rtranclp)
  have "launch_step pending_launch_db (pending_launch_db\<lparr>ld_proposals := demo_approved_db\<rparr>)"
    by (rule launch_step.proposals [OF _ demo_real_clock(2)]) (simp add: pending_launch_db_def proposal_step.decide [OF demo_approved])
  then have "launch_step pending_launch_db approved_launch_db" by (simp add: pending_launch_db_def approved_launch_db_def)
  then show "launch_reachable approved_launch_db" using p by simp
  then show "launch_reachable stored_db" using launch_step.store [OF demo_store] by simp
qed

lemma demo_load: "launch_specs db = [demo_spec_row] \<Longrightarrow> loadLaunchSpec db demo_lhash = Inr (Some demo_stored)"
  using demo_spec_stored decode_stored_spec [OF demo_spec_stored(1)]
  by (simp add: loadLaunchSpec_def find_spec_def demo_spec_row_def)
    (simp add: require_def row_revision_def demo_spec_def demo_stored_def demo_spec_row_def zeroTime_def demo_now_def)

definition demo_clock :: "nat \<Rightarrow> stamp" where
  "demo_clock n = demo_now"

definition demo_claim_request :: "string \<Rightarrow> char \<Rightarrow> LaunchClaimRequest" where
  "demo_claim_request i c = \<lparr>cq_LaunchSpecHash = demo_lhash, cq_ClaimID = i, cq_ClaimTokenHash = hash_of c, cq_OwnerID = ''owner'', cq_Attempt = 1\<rparr>"

definition first_claim :: TaskClaimRow where
  "first_claim = claim_row demo_now (demo_claim_request ''claim_one'' (CHR ''a'')) 1"

definition second_claim :: TaskClaimRow where
  "second_claim = claim_row demo_now (demo_claim_request ''claim_two'' (CHR ''b'')) 2"

definition demo_outbox :: "string \<Rightarrow> TaskClaimRow \<Rightarrow> int \<Rightarrow> LaunchOutboxState \<Rightarrow> LaunchOutbox" where
  "demo_outbox r c n state = outbox_row demo_now (''launch_outbox_'' @ hex_encode r) c n state"

definition claimed_db :: LaunchDB where
  "claimed_db = claimed stored_db first_claim [new_head first_claim] (demo_outbox ''aa'' first_claim 1 LaunchOutboxPendingMaterialization)"

definition demo_mat_request :: LaunchMaterializationRequest where
  "demo_mat_request = \<lparr>mq_Fence = cl_Fence first_claim, mq_MaterializationID = ''mat_one'', mq_MaterializationHash = sc_MaterializationHash demo_sealed,
     mq_Nonce = sc_Nonce demo_sealed\<rparr>"

definition demo_mat :: LaunchMaterialization where
  "demo_mat = mat_row demo_now demo_mat_request first_claim"

definition materialized_db :: LaunchDB where
  "materialized_db = materialized claimed_db demo_mat (demo_outbox ''bb'' first_claim 2 LaunchOutboxPendingRunAdmission)"

definition demo_run_request :: LaunchRunIntentRequest where
  "demo_run_request = \<lparr>iq_Fence = cl_Fence first_claim, iq_MaterializationID = ''mat_one'', iq_RunID = ''run_one'', iq_Attempt = 1\<rparr>"

definition run_db :: LaunchDB where
  "run_db = run_created materialized_db (run_row demo_now demo_run_request first_claim) (created_fact demo_now first_claim)
     (demo_outbox ''cc'' first_claim 3 LaunchOutboxPendingProcessAdmission)"

definition demo_terminal_request :: LaunchTerminalIntentRequest where
  "demo_terminal_request = \<lparr>tq_Fence = cl_Fence first_claim, tq_RunID = ''run_one'', tq_IntentID = ''terminal_one''\<rparr>"

definition demo_terminal :: LaunchTerminalIntent where
  "demo_terminal = \<lparr>ti_LaunchFence = cl_Fence first_claim, ti_RunID = ''run_one'', ti_IntentID = ''terminal_one'', ti_CreatedAt = demo_now\<rparr>"

definition terminal_db :: LaunchDB where
  "terminal_db = run_db\<lparr>launch_terminal_intents := [demo_terminal]\<rparr>"

definition demo_reclaim :: LaunchClaimReclaimRequest where
  "demo_reclaim = \<lparr>rq_ExpectedFence = cl_Fence first_claim, rq_Claim = demo_claim_request ''claim_two'' (CHR ''b'')\<rparr>"

definition reclaimed_db :: LaunchDB where
  "reclaimed_db = claimed terminal_db second_claim [new_head second_claim] (demo_outbox ''dd'' second_claim 1 LaunchOutboxPendingMaterialization)"

lemmas demo_db_defs = approved_launch_db_def stored_db_def claimed_db_def materialized_db_def run_db_def terminal_db_def reclaimed_db_def
  emptyLaunch_def claimed_def materialized_def run_created_def

lemmas demo_row_defs = first_claim_def second_claim_def claim_row_def demo_claim_request_def request_fence_def new_head_def demo_outbox_def
  outbox_row_def demo_mat_def mat_row_def demo_mat_request_def run_row_def demo_run_request_def created_fact_def demo_terminal_def
  demo_terminal_request_def demo_reclaim_def demo_clock_def row_claim_def row_intent_def

lemma hex_distinct: "hex_encode ''aa'' = ''6161''" "hex_encode ''bb'' = ''6262''" "hex_encode ''cc'' = ''6363''" "hex_encode ''dd'' = ''6464''"
  by code_simp+

lemma demo_ident_ok: "ident_pattern 63 ''claim_one''" "ident_pattern 63 ''claim_two''" "ident_pattern 63 ''owner''" "ident_pattern 63 ''mat_one''"
  "ident_pattern 63 ''run_one''" "ident_pattern 63 ''terminal_one''"
  by (simp_all add: ident_simps)

lemma demo_claims_ok: "validateLaunchClaimRequest (demo_claim_request ''claim_one'' (CHR ''a'')) = Inr ()"
  "validateLaunchClaimRequest (demo_claim_request ''claim_two'' (CHR ''b'')) = Inr ()"
  using demo_hashes demo_ident_ok by (simp_all add: validateLaunchClaimRequest_def demo_claim_request_def demo_lhash_def)

lemma demo_acquired: "AcquireLaunchClaim demo_clock (Some ''aa'') (demo_claim_request ''claim_one'' (CHR ''a'')) stored_db = Inr (row_claim first_claim, claimed_db)"
  unfolding AcquireLaunchClaim_def demo_claims_ok
  using demo_load [of stored_db]
  by (simp add: demo_db_defs demo_row_defs loadActiveLaunchClaim_def insertLaunchClaim_def claim_insertable_def find_spec_def
      demo_spec_row_def insertLaunchOutbox_def newProposalIdentifier_def validLaunchOutboxStage_def claim_exists_def Let_def)

lemma demo_fence: "fence_well_formed (cl_Fence first_claim)"
  using demo_hashes by (simp add: fence_well_formed_def demo_row_defs)

lemma demo_requests_ok: "validateLaunchMaterializationRequest demo_mat_request = Inr ()" "validateLaunchRunIntentRequest demo_run_request = Inr ()"
  "validateLaunchIntentRequest (tq_Fence demo_terminal_request) (tq_RunID demo_terminal_request) (tq_IntentID demo_terminal_request) = Inr ()"
  using demo_fence demo_ident_ok demo_hashes nonce_pattern
  by (simp_all add: validateLaunchMaterializationRequest_def demo_mat_request_def demo_sealed_def validateLaunchRunIntentRequest_def
      demo_run_request_def validateLaunchIntentRequest_def demo_terminal_request_def)

text \<open>The first claim is active until it is reclaimed.\<close>

lemma demo_fence_active:
  assumes "task_claims db = [first_claim]" "launch_claim_heads db = [new_head first_claim]" "k = [] \<or> k = demo_lhash"
  shows "requireActiveLaunchFence db k (cl_Fence first_claim) = Inr (row_claim first_claim)"
  using assms by (auto simp: requireActiveLaunchFence_def launchSpecHashForClaim_def loadActiveLaunchClaim_def require_def demo_row_defs)

lemma demo_materialized: "RecordLaunchMaterializationReady demo_clock (Some ''bb'') demo_mat_request claimed_db = Inr (demo_mat, materialized_db)"
proof -
  have "requireActiveLaunchFence claimed_db [] (mq_Fence demo_mat_request) = Inr (row_claim first_claim)"
    using demo_fence_active [of claimed_db "[]"] by (simp add: claimed_db_def claimed_def stored_db_def approved_launch_db_def emptyLaunch_def demo_mat_request_def)
  moreover have "loadLaunchSpec claimed_db demo_lhash = Inr (Some demo_stored)" by (rule demo_load) (simp add: demo_db_defs)
  ultimately show ?thesis
    unfolding RecordLaunchMaterializationReady_def demo_requests_ok
    by (simp add: demo_row_defs) (simp add: demo_db_defs demo_row_defs demo_stored_def demo_spec_def loadLaunchMaterialization_def
        materialization_insertable_def claim_exists_def insertLaunchOutbox_def newProposalIdentifier_def validLaunchOutboxStage_def Let_def
        require_def hex_distinct)
qed

lemma demo_run: "CreateLaunchRunIntent demo_clock (Some ''cc'') demo_run_request materialized_db =
  Inr (row_intent (run_row demo_now demo_run_request first_claim) (created_fact demo_now first_claim), run_db)"
proof -
  have "requireActiveLaunchFence materialized_db [] (iq_Fence demo_run_request) = Inr (row_claim first_claim)"
    using demo_fence_active [of materialized_db "[]"] by (simp add: demo_db_defs demo_run_request_def)
  moreover have "loadLaunchSpec materialized_db demo_lhash = Inr (Some demo_stored)" by (rule demo_load) (simp add: demo_db_defs)
  ultimately show ?thesis
    unfolding CreateLaunchRunIntent_def demo_requests_ok
    using demo_hashes nonce_pattern
    by (simp add: demo_row_defs) (simp add: demo_db_defs demo_row_defs demo_stored_def demo_spec_def demo_sealed_def loadLaunchMaterialization_def
        validatePersistedLaunchMaterialization_def loadLaunchRunIntent_def loadLaunchRunIntentByGeneration_def insert_run_intent_def
        run_insertable_def claim_exists_def insertLaunchOutbox_def newProposalIdentifier_def validLaunchOutboxStage_def Let_def
        require_def hex_distinct)
qed

lemma demo_terminated: "AppendLaunchTerminalIntent demo_now demo_terminal_request run_db = Inr (demo_terminal, terminal_db)"
proof -
  have "requireActiveLaunchFence run_db [] (tq_Fence demo_terminal_request) = Inr (row_claim first_claim)"
    using demo_fence_active [of run_db "[]"] by (simp add: demo_db_defs demo_terminal_request_def)
  then show ?thesis
    unfolding AppendLaunchTerminalIntent_def demo_requests_ok
    by (simp add: demo_row_defs) (simp add: demo_db_defs demo_row_defs requireLaunchRunIntentFence_def loadLaunchRunIntent_def
        loadLaunchTerminalIntent_def intent_insertable_def Let_def require_def)
qed

lemma demo_reclaimed: "ReclaimLaunchClaim demo_clock (Some ''dd'') demo_reclaim terminal_db = Inr (row_claim second_claim, reclaimed_db)"
proof -
  have "requireActiveLaunchFence terminal_db demo_lhash (cl_Fence first_claim) = Inr (row_claim first_claim)"
    by (rule demo_fence_active) (simp_all add: demo_db_defs)
  moreover have "demo_lhash \<noteq> []" by (simp add: demo_lhash_def body_hash_def)
  ultimately show ?thesis
    unfolding ReclaimLaunchClaim_def using demo_claims_ok(2) demo_fence
    by (simp add: demo_reclaim_def demo_claim_request_def) (simp add: demo_db_defs demo_row_defs insertLaunchClaim_def claim_insertable_def find_spec_def demo_spec_row_def
        insertLaunchOutbox_def newProposalIdentifier_def validLaunchOutboxStage_def claim_exists_def Let_def hash_of_def hex_distinct)
qed

lemma demo_history:
  "launch_reachable claimed_db" "launch_reachable materialized_db" "launch_reachable run_db" "launch_reachable terminal_db"
  "launch_reachable reclaimed_db"
proof -
  show a: "launch_reachable claimed_db" using demo_launch_reachable(3) launch_step.acquire [OF demo_acquired] by simp
  show b: "launch_reachable materialized_db" using a launch_step.materialize [OF demo_materialized] by simp
  show c: "launch_reachable run_db" using b launch_step.run [OF demo_run] by simp
  show d: "launch_reachable terminal_db" using c launch_step.terminal [OF demo_terminated] by simp
  show "launch_reachable reclaimed_db" using d launch_step.reclaim [OF demo_reclaimed] by simp
qed

end
