(* ===== verification/Go_Stamp.thy ===== *)
theory Go_Stamp
  imports Launch_Decode
begin

section \<open>Printed times read back\<close>

text \<open>
  A calendar time printed by \<open>stamp_text\<close> (\<open>RFC3339Nano\<close>) is read by \<open>parse_stamp\<close> as the same time.
\<close>

definition calendar :: "stamp \<Rightarrow> bool" where
  "calendar t \<longleftrightarrow> st_year t < 10000 \<and> 1 \<le> st_month t \<and> st_month t \<le> 12 \<and> 1 \<le> st_day t \<and> st_day t \<le> daysIn (st_year t) (st_month t)
     \<and> st_hour t < 24 \<and> st_minute t < 60 \<and> st_second t < 60 \<and> st_nanos t < 10 ^ 9"

lemma digit_char_value: "n < 10 \<Longrightarrow> is_digit (digit_char n) \<and> byte_of (digit_char n) - 48 = n"
  by (auto simp: digit_char_def is_digit_def)

lemma length_pad [simp]: "length (pad w n) = w"
  by (induction w arbitrary: n) simp_all

lemma pad_digits: "list_all is_digit (pad w n)"
  by (induction w arbitrary: n) (simp_all add: digit_char_value)

lemma pad_value: "foldl (\<lambda>v c. v * 10 + (byte_of c - 48)) 0 (pad w n) = n mod 10 ^ w"
proof (induction w arbitrary: n)
  case (Suc w)
  then show ?case using digit_char_value [of "n mod 10"] mod_mult2_eq [of n 10 "10 ^ w"] by (simp add: ac_simps)
qed simp

lemma number_at_pad: "number_at i w s = n mod 10 ^ w" if "take w (drop i s) = pad w n"
  using that by (simp add: number_at_def pad_value)

lemma number_at_append: "number_at (length xs) w (xs @ pad w n @ ys) = n mod 10 ^ w"
  by (rule number_at_pad) simp

lemma strip_right: "xs = rev (dropWhile (\<lambda>c. c = z) (rev xs)) @ replicate (length xs - length (dropWhile (\<lambda>c. c = z) (rev xs))) z"
proof -
  let ?d = "dropWhile (\<lambda>c. c = z) (rev xs)" and ?t = "takeWhile (\<lambda>c. c = z) (rev xs)"
  have "?t = replicate (length ?t) z" by (rule replicate_eqI [symmetric, OF refl, symmetric]) (auto dest: set_takeWhileD)
  moreover have "length xs = length ?t + length ?d" by (metis length_append length_rev takeWhile_dropWhile_id)
  moreover have "xs = rev ?d @ rev ?t" by (metis rev_append rev_rev_ident takeWhile_dropWhile_id)
  ultimately show ?thesis by (metis add_diff_cancel_right' rev_replicate)
qed

lemma fraction_reads_back:
  assumes "n < 10 ^ 9" "n \<noteq> 0"
  obtains e where "nano_fraction n = CHR ''.'' # e" "e \<noteq> []" "length e \<le> 9" "list_all is_digit e"
    "number_at 0 9 (e @ replicate (9 - length e) (CHR ''0'')) = n"
proof -
  let ?e = "rev (dropWhile (\<lambda>c. c = CHR ''0'') (rev (pad 9 n)))"
  have p: "?e @ replicate (9 - length ?e) (CHR ''0'') = pad 9 n" using strip_right [of "pad 9 n" "CHR ''0''"] by (simp del: pad_numeral)
  then have v: "number_at 0 9 (?e @ replicate (9 - length ?e) (CHR ''0'')) = n"
    using number_at_pad [of 9 0 "pad 9 n" n] assms(1) by (simp del: pad_numeral)
  have "length ?e + length (replicate (9 - length ?e) (CHR ''0'')) = 9" using arg_cong [OF p, of length] by (simp only: length_append length_pad)
  then have l: "length ?e \<le> 9" by linarith
  have "list_all is_digit (?e @ replicate (9 - length ?e) (CHR ''0''))" unfolding p by (rule pad_digits)
  then have d: "list_all is_digit ?e" by (simp del: pad_numeral)
  have "?e \<noteq> []"
  proof
    assume "?e = []"
    then have "number_at 0 9 (replicate 9 (CHR ''0'')) = n" using v by (simp only: list.size append_Nil diff_zero)
    then show False using assms(2) by (simp add: number_at_def numeral_eq_Suc byte_of_def)
  qed
  with v l d show thesis using that [of ?e] assms(2) by (simp add: nano_fraction_def del: pad_numeral)
qed

lemma stamp_fraction:
  assumes "n < 10 ^ 9"
  shows "fraction_nanos (nano_fraction n @ ''Z'') = n"
    "(let r = nano_fraction n @ ''Z'' in r = ''Z'' \<or>
       (3 \<le> length r \<and> length r \<le> 11 \<and> hd r = CHR ''.'' \<and> last r = CHR ''Z'' \<and> list_all is_digit (butlast (tl r))))"
proof -
  have z: "\<not> is_digit (CHR ''Z'')" by (simp add: is_digit_def byte_of_def)
  show "fraction_nanos (nano_fraction n @ ''Z'') = n"
  proof (cases "n = 0")
    case True
    then show ?thesis by (simp add: fraction_nanos_def nano_fraction_def number_at_def numeral_eq_Suc byte_of_def)
  next
    case False
    obtain e where e: "nano_fraction n = CHR ''.'' # e" "list_all is_digit e" "number_at 0 9 (e @ replicate (9 - length e) (CHR ''0'')) = n"
      by (rule fraction_reads_back [OF assms False]) (rule that)
    have "takeWhile is_digit (e @ ''Z'') = e" using e(2) z by (simp add: takeWhile_append list_all_iff)
    then show ?thesis using e by (simp add: fraction_nanos_def Let_def)
  qed
  show "let r = nano_fraction n @ ''Z'' in r = ''Z'' \<or>
       (3 \<le> length r \<and> length r \<le> 11 \<and> hd r = CHR ''.'' \<and> last r = CHR ''Z'' \<and> list_all is_digit (butlast (tl r)))"
  proof (cases "n = 0")
    case False
    obtain e where "nano_fraction n = CHR ''.'' # e" "e \<noteq> []" "length e \<le> 9" "list_all is_digit e"
      by (rule fraction_reads_back [OF assms False]) (rule that)
    then show ?thesis by (cases e) (simp_all add: Let_def butlast_append)
  qed (simp add: nano_fraction_def)
qed

lemma parse_stamp_text:
  assumes "calendar t"
  shows "parse_stamp (stamp_text t) = Some t"
proof -
  let ?s = "stamp_text t"
  have d: "is_digit (digit_char (k mod 10))" for k using digit_char_value [of "k mod 10"] by simp
  note c = assms [unfolded calendar_def]
  have small: "st_month t < 100" "st_day t < 100" "st_hour t < 100" "st_minute t < 100" "st_second t < 100"
    using c by (simp_all add: daysIn_def split: if_splits)
  have year: "number_at 0 4 ?s = st_year t"
    using number_at_append [of "[]" 4 "st_year t"] c by (simp add: stamp_text_def del: pad_numeral)
  have month: "number_at 5 2 ?s = st_month t"
    using number_at_append [of "pad 4 (st_year t) @ ''-''" 2 "st_month t"] small by (simp add: stamp_text_def del: pad_numeral)
  have day: "number_at 8 2 ?s = st_day t"
    using number_at_append [of "pad 4 (st_year t) @ ''-'' @ pad 2 (st_month t) @ ''-''" 2 "st_day t"] small by (simp add: stamp_text_def del: pad_numeral)
  have hour: "number_at 11 2 ?s = st_hour t"
    using number_at_append [of "pad 4 (st_year t) @ ''-'' @ pad 2 (st_month t) @ ''-'' @ pad 2 (st_day t) @ ''T''" 2 "st_hour t"] small by (simp add: stamp_text_def del: pad_numeral)
  have minute: "number_at 14 2 ?s = st_minute t"
    using number_at_append [of "pad 4 (st_year t) @ ''-'' @ pad 2 (st_month t) @ ''-'' @ pad 2 (st_day t) @ ''T'' @ pad 2 (st_hour t) @ '':''" 2 "st_minute t"] small by (simp add: stamp_text_def del: pad_numeral)
  have second: "number_at 17 2 ?s = st_second t"
    using number_at_append [of "pad 4 (st_year t) @ ''-'' @ pad 2 (st_month t) @ ''-'' @ pad 2 (st_day t) @ ''T'' @ pad 2 (st_hour t) @ '':'' @ pad 2 (st_minute t) @ '':''" 2 "st_second t"] small by (simp add: stamp_text_def del: pad_numeral)
  have r: "drop 19 ?s = nano_fraction (st_nanos t) @ ''Z''" by (simp add: stamp_text_def)
  have "grillTimestampPattern ?s"
    unfolding grillTimestampPattern_def r using stamp_fraction(2) c by (simp add: stamp_text_def layout_def d)
  then show ?thesis
    using year month day hour minute second c stamp_fraction(1) [of "st_nanos t"] by (simp add: parse_stamp_def timeParses_def r)
qed

end
