(* ===== verification/Launch_Properties.thy ===== *)
theory Launch_Properties
  imports Launch_Replay Launch_Demo Go_Stamp
begin

section \<open>Properties of launch admission\<close>

text \<open>
  The theorems about \<^verbatim>\<open>src/internal/store/launch_admission.go\<close>, over every database its mutations and
  those of the proposals produce, with applications to the launch of \<^verbatim>\<open>Launch_Demo\<close>.
\<close>

subsection \<open>The tables\<close>

text \<open>C3: Every reachable database is consistent: generations of a spec are \<open>1, 2, ...\<close> without a gap and the head
  names the last, the outbox rows of stage 1, 2 and 3 are exactly those of the claims, materializations and
  run intents, every materialization carries the hash and nonce of its sealed spec, every fact belongs to the
  claim it names, and every stored spec is approved.\<close>

theorem launch_invariant:
  assumes "launch_reachable db"
  shows "launch_inv db"
  by (rule launch_reachable_inv [OF assms])

theorem launch_invariant_witness: "launch_inv reclaimed_db \<and> length (task_claims reclaimed_db) = 2"
  using launch_invariant [OF demo_history(5)] by (simp add: demo_db_defs)

lemma launch_view_empty: "launch_view emptyLaunch = Map.empty"
  by (rule ext) (simp add: launch_view_def active_claim_def emptyLaunch_def)

lemma views_reachable: "launch_reachable db \<Longrightarrow> admission_step\<^sup>*\<^sup>* Map.empty (launch_view db)"
proof (induction rule: rtranclp_induct)
  case (step db db')
  then show ?case using launch_step_view [OF step(2) launch_reachable_inv [OF step(1)]] by (auto intro: rtranclp.rtrancl_into_rtrancl)
qed (simp add: launch_view_empty)

text \<open>C5: Admission refines the machine of generations and stages: seen as the current generation and stage of
  each spec, every database is reached from nothing by claiming at generation 1, starting the next
  generation at stage 1 and advancing by one stage, and each step of the store is one such step or changes
  neither.\<close>

theorem admission_refines_stages:
  assumes "launch_reachable db" "launch_step db db'"
  shows "admission_step\<^sup>*\<^sup>* Map.empty (launch_view db)
    \<and> (launch_view db' = launch_view db \<or> admission_step (launch_view db) (launch_view db'))"
  using views_reachable [OF assms(1)] launch_step_view [OF assms(2) launch_reachable_inv [OF assms(1)]] by blast

theorem admission_refines_stages_witness:
  "launch_view reclaimed_db = launch_view terminal_db \<or> admission_step (launch_view terminal_db) (launch_view reclaimed_db)"
  using admission_refines_stages [OF demo_history(4) launch_step.reclaim [OF demo_reclaimed]] by blast

subsection \<open>Fences\<close>

text \<open>C4: Once a claim has been replaced its fence is refused for ever: in every later database a materialization, a
  run intent, a terminal or evidence intent, a reclaim and a guarded invocation that present it all fail
  with \<open>ErrLaunchStaleFence\<close>, and the caller's function is not called.\<close>

theorem stale_fence_refused:
  assumes "launch_reachable db" "c \<in> set (task_claims db)" "cl_gen c < generation db (cl_LaunchSpecHash c)" "launch_step\<^sup>*\<^sup>* db db'"
  shows "WithLaunchFenceAdmission db' (cl_LaunchSpecHash c) (cl_Fence c) (Some invoke) = Inl ErrLaunchStaleFence
    \<and> (validateLaunchMaterializationRequest m = Inr () \<and> mq_Fence m = cl_Fence c
        \<longrightarrow> RecordLaunchMaterializationReady clock rnd m db' = Inl ErrLaunchStaleFence)
    \<and> (validateLaunchRunIntentRequest r = Inr () \<and> iq_Fence r = cl_Fence c
        \<longrightarrow> CreateLaunchRunIntent clock rnd r db' = Inl ErrLaunchStaleFence)
    \<and> (validateLaunchIntentRequest (tq_Fence t) (tq_RunID t) (tq_IntentID t) = Inr () \<and> tq_Fence t = cl_Fence c
        \<longrightarrow> AppendLaunchTerminalIntent now t db' = Inl ErrLaunchStaleFence)
    \<and> (validateLaunchIntentRequest (eq_Fence e) (eq_RunID e) (eq_IntentID e) = Inr () \<and> eq_Fence e = cl_Fence c
        \<longrightarrow> SettleLaunchEvidenceIntent now e db' = Inl ErrLaunchStaleFence)
    \<and> (validateLaunchClaimRequest q = Inr () \<and> cq_LaunchSpecHash q = cl_LaunchSpecHash c
        \<longrightarrow> ReclaimLaunchClaim clock rnd \<lparr>rq_ExpectedFence = cl_Fence c, rq_Claim = q\<rparr> db' = Inl ErrLaunchStaleFence)"
proof -
  have inv: "launch_inv db" by (rule launch_reachable_inv [OF assms(1)])
  have ev: "launch_inv db'" "launch_evolves db db'" using launch_steps_evolve [OF assms(4) inv] by simp_all
  have c: "c \<in> set (task_claims db')" "cl_gen c < generation db' (cl_LaunchSpecHash c)"
    using claim_kept [OF ev(2) assms(2)] generation_mono [OF ev(2), of "cl_LaunchSpecHash c"] assms(3) by simp_all
  have stale: "requireActiveLaunchFence db' k (cl_Fence c) = Inl ErrLaunchStaleFence" if "k = [] \<or> k = cl_LaunchSpecHash c" for k
    by (rule stale_forever [OF inv assms(2,3,4) that])
  have "fence_well_formed (cl_Fence c)" using launch_invD(4) [OF inv] assms(2) by (simp add: claims_inv_def)
  then have "ReclaimLaunchClaim clock rnd \<lparr>rq_ExpectedFence = cl_Fence c, rq_Claim = q\<rparr> db' = Inl ErrLaunchStaleFence"
    if "validateLaunchClaimRequest q = Inr ()" "cq_LaunchSpecHash q = cl_LaunchSpecHash c"
    using that stale [of "cl_LaunchSpecHash c"]
    by (auto simp: ReclaimLaunchClaim_def fence_well_formed_def launchHashPattern_def validateLaunchClaimRequest_def andThen_Inl andThen_Inr)
  then show ?thesis
    using stale_boundary [OF ev(1) c, of invoke] stale [of "[]"]
    by (auto simp: RecordLaunchMaterializationReady_def CreateLaunchRunIntent_def AppendLaunchTerminalIntent_def SettleLaunchEvidenceIntent_def)
qed

theorem stale_fence_refused_witness:
  "RecordLaunchMaterializationReady demo_clock None demo_mat_request reclaimed_db = Inl ErrLaunchStaleFence
   \<and> CreateLaunchRunIntent demo_clock None demo_run_request reclaimed_db = Inl ErrLaunchStaleFence
   \<and> AppendLaunchTerminalIntent demo_now demo_terminal_request reclaimed_db = Inl ErrLaunchStaleFence
   \<and> WithLaunchFenceAdmission reclaimed_db demo_lhash (cl_Fence first_claim) (Some (\<lambda>_. Inr ())) = Inl ErrLaunchStaleFence"
proof -
  have c: "first_claim \<in> set (task_claims reclaimed_db)" "cl_LaunchSpecHash first_claim = demo_lhash"
    by (simp_all add: demo_db_defs demo_row_defs)
  have g: "cl_gen first_claim < generation reclaimed_db (cl_LaunchSpecHash first_claim)"
    by (simp add: generation_def log_seqs_def demo_db_defs) (simp add: demo_row_defs cl_gen_def)
  have f: "mq_Fence demo_mat_request = cl_Fence first_claim" "iq_Fence demo_run_request = cl_Fence first_claim"
    "tq_Fence demo_terminal_request = cl_Fence first_claim"
    by (simp_all add: demo_mat_request_def demo_run_request_def demo_terminal_request_def)
  show ?thesis
    using stale_fence_refused [OF demo_history(5) c(1) g rtranclp.rtrancl_refl, where m = demo_mat_request and r = demo_run_request
        and t = demo_terminal_request and clock = demo_clock and rnd = None and now = demo_now and invoke = "\<lambda>_. Inr ()"]
      demo_requests_ok f c(2) by simp
qed

text \<open>C35: A call whose reply was lost can be repeated while its fence is active: after any further steps the same
  materialization, run, terminal or evidence request returns the result of the first call and changes nothing.\<close>

theorem fenced_calls_repeat:
  assumes "launch_reachable db" "launch_step\<^sup>*\<^sup>* db1 db2" "requireActiveLaunchFence db2 [] f = Inr a"
  shows "(RecordLaunchMaterializationReady clock rnd m db = Inr (x, db1) \<and> mq_Fence m = f
        \<longrightarrow> RecordLaunchMaterializationReady clock' rnd' m db2 = Inr (x, db2))
    \<and> (CreateLaunchRunIntent clock rnd r db = Inr (y, db1) \<and> iq_Fence r = f \<longrightarrow> CreateLaunchRunIntent clock' rnd' r db2 = Inr (y, db2))
    \<and> (AppendLaunchTerminalIntent now t db = Inr (z, db1) \<and> tq_Fence t = f \<longrightarrow> AppendLaunchTerminalIntent now' t db2 = Inr (z, db2))
    \<and> (SettleLaunchEvidenceIntent now e db = Inr (w, db1) \<and> eq_Fence e = f \<longrightarrow> SettleLaunchEvidenceIntent now' e db2 = Inr (w, db2))"
proof -
  have inv: "launch_inv db" by (rule launch_reachable_inv [OF assms(1)])
  show ?thesis
    using replay_materialize [OF _ inv assms(2), of _ _ m] replay_run [OF _ inv assms(2), of _ _ r]
      replay_terminal [OF _ inv assms(2), of _ t] replay_evidence [OF _ inv assms(2), of _ e] assms(3) by blast
qed

theorem fenced_calls_repeat_witness:
  "RecordLaunchMaterializationReady demo_clock None demo_mat_request terminal_db = Inr (demo_mat, terminal_db)"
proof -
  have "requireActiveLaunchFence terminal_db [] (cl_Fence first_claim) = Inr (row_claim first_claim)"
    by (rule demo_fence_active) (simp_all add: demo_db_defs)
  moreover have "launch_step\<^sup>*\<^sup>* materialized_db terminal_db"
    using launch_step.run [OF demo_run] launch_step.terminal [OF demo_terminated] by (meson rtranclp.simps)
  moreover have "mq_Fence demo_mat_request = cl_Fence first_claim" by (simp add: demo_mat_request_def)
  ultimately show ?thesis
    using fenced_calls_repeat [OF demo_history(1), where m = demo_mat_request and clock' = demo_clock and rnd' = None] demo_materialized by blast
qed

text \<open>C37: Work under a fixed set of claims ends: from any reachable database, calls under fences that change
  anything can be made at most four times per claim before every further call is a repetition or an error.\<close>

theorem fenced_work_terminates:
  assumes "launch_reachable db" "(fenced_progress ^^ n) db db'"
  shows "n \<le> 4 * length (task_claims db)"
  using progress_chain [OF assms(2) launch_reachable_inv [OF assms(1)]] work_bounded [of db'] by simp

theorem fenced_work_terminates_witness:
  "(fenced_progress ^^ 3) claimed_db terminal_db \<and> 3 \<le> 4 * length (task_claims claimed_db)"
proof -
  have neq: "materialized_db \<noteq> claimed_db" "run_db \<noteq> materialized_db" "terminal_db \<noteq> run_db"
    by (simp_all add: materialized_db_def materialized_def run_db_def run_created_def terminal_db_def demo_db_defs
        LaunchDB.select_convs)
  have "fenced_progress claimed_db materialized_db" "fenced_progress materialized_db run_db" "fenced_progress run_db terminal_db"
    using fenced_progress.materialize [OF demo_materialized neq(1)] fenced_progress.run [OF demo_run neq(2)]
      fenced_progress.terminal [OF demo_terminated neq(3)] by blast+
  then have chain: "(fenced_progress ^^ 3) claimed_db terminal_db" by (auto simp: numeral_3_eq_3)
  then show ?thesis using fenced_work_terminates [OF demo_history(1) chain] by blast
qed

text \<open>C36: An active claim can always be taken over: a valid request with a claim id and an outbox id not used
  before, presenting the active fence, succeeds; the new claim has the next generation, and recovery then
  finds it at its first stage.\<close>

theorem active_claim_reclaimable:
  assumes "launch_reachable db" "active_claim db (cq_LaunchSpecHash r) = Some c" "validateLaunchClaimRequest r = Inr ()"
    and "cq_ClaimID r \<notin> (lf_ClaimID \<circ> cl_Fence) ` set (task_claims db)"
    and "''launch_outbox_'' @ hex_encode bytes \<notin> lo_OutboxID ` set (launch_admission_outbox db)"
  shows "\<exists>claim db' b. ReclaimLaunchClaim clock (Some bytes) \<lparr>rq_ExpectedFence = cl_Fence c, rq_Claim = r\<rparr> db = Inr (claim, db')
    \<and> lf_FenceGeneration (tk_LaunchFence claim) = lf_FenceGeneration (cl_Fence c) + 1
    \<and> GetLaunchRecoveryBoundary db' (cq_LaunchSpecHash r) = Inr b \<and> lb_Claim b = claim \<and> lb_Action b = LaunchRecoveryRetryMaterialization"
proof -
  have inv: "launch_inv db" by (rule launch_reachable_inv [OF assms(1)])
  let ?q = "\<lparr>rq_ExpectedFence = cl_Fence c, rq_Claim = r\<rparr>" let ?c = "row_claim (claim_row (clock 0) r (cl_gen c + 1))"
  obtain db' where op: "ReclaimLaunchClaim clock (Some bytes) ?q db = Inr (?c, db')" using reclaim_succeeds [OF inv assms(2-5)] by blast
  obtain b where "GetLaunchRecoveryBoundary db' (cq_LaunchSpecHash r) = Inr b" "lb_Claim b = ?c" "lb_Action b = LaunchRecoveryRetryMaterialization"
    by (rule reclaim_boundary [OF op inv]) (use that in simp)
  moreover have "lf_FenceGeneration (tk_LaunchFence ?c) = lf_FenceGeneration (cl_Fence c) + 1"
    by (simp add: row_claim_def claim_row_def request_fence_def cl_gen_def)
  ultimately show ?thesis using op by blast
qed

theorem active_claim_reclaimable_witness:
  "\<exists>claim db'. ReclaimLaunchClaim demo_clock (Some ''dd'') demo_reclaim terminal_db = Inr (claim, db')
    \<and> lf_FenceGeneration (tk_LaunchFence claim) = 2"
proof -
  let ?r = "demo_claim_request ''claim_two'' (CHR ''b'')"
  have "active_claim terminal_db (cq_LaunchSpecHash ?r) = Some first_claim"
    by (simp add: active_claim_def generation_def log_seqs_def demo_db_defs) (simp add: demo_row_defs cl_gen_def)
  moreover have "cq_ClaimID ?r \<notin> (lf_ClaimID \<circ> cl_Fence) ` set (task_claims terminal_db)"
    by (simp add: demo_db_defs) (simp add: demo_row_defs)
  moreover have "''launch_outbox_'' @ hex_encode ''dd'' \<notin> lo_OutboxID ` set (launch_admission_outbox terminal_db)"
    by (simp add: demo_db_defs) (simp add: demo_outbox_def outbox_row_def hex_distinct)
  moreover have "lf_FenceGeneration (cl_Fence first_claim) = 1" by (simp add: demo_row_defs)
  ultimately show ?thesis
    using active_claim_reclaimable [OF demo_history(4) _ demo_claims_ok(2), of first_claim "''dd''" demo_clock] by (auto simp: demo_reclaim_def)
qed

subsection \<open>Recovery\<close>

text \<open>C10: Recovery never meets a corrupt record: for a spec that was never claimed the boundary is
  \<open>ErrLaunchClaimNotFound\<close>, and for every other spec it is the claim of the largest generation with its
  materialization and run intent, and the action is the one of the first stage not yet done.\<close>

theorem recovery_boundary_exact:
  assumes "launch_reachable db"
  shows "case active_claim db h of
      None \<Rightarrow> h \<notin> cl_LaunchSpecHash ` set (task_claims db) \<and> GetLaunchRecoveryBoundary db h = Inl ErrLaunchClaimNotFound
    | Some c \<Rightarrow> \<exists>b. GetLaunchRecoveryBoundary db h = Inr b \<and> lb_Claim b = row_claim c \<and> lb_Materialization b = mat_of db c
        \<and> map_option ri_RunID (lb_RunIntent b) = map_option rw_RunID (intent_of db c)
        \<and> lb_Action b = (if intent_of db c \<noteq> None then LaunchRecoveryRetryProcessAdmission
            else if mat_of db c \<noteq> None then LaunchRecoveryRetryRunAdmission else LaunchRecoveryRetryMaterialization)"
proof (cases "active_claim db h")
  case None
  have inv: "launch_inv db" by (rule launch_reachable_inv [OF assms])
  show ?thesis
    using None active_None [OF inv, of h] load_active [OF inv, of h]
    by (simp add: GetLaunchRecoveryBoundary_def loadLaunchRecoveryBoundary_def require_def)
next
  case (Some c)
  have inv: "launch_inv db" by (rule launch_reachable_inv [OF assms])
  obtain b where b: "loadLaunchRecoveryBoundary db h = Inr b" "lb_Claim b = row_claim c" "lb_Materialization b = mat_of db c"
    "map_option ri_RunID (lb_RunIntent b) = map_option rw_RunID (intent_of db c)" "lb_Action b = stage_action (stage db c)"
    by (rule boundary_exact [OF inv Some])
  have "stage_action (stage db c) = (if intent_of db c \<noteq> None then LaunchRecoveryRetryProcessAdmission
            else if mat_of db c \<noteq> None then LaunchRecoveryRetryRunAdmission else LaunchRecoveryRetryMaterialization)"
    using intent_of(2) [OF launch_invD(8) [OF inv], of c] mat_of(2) [OF launch_invD(7) [OF inv], of c] by (simp add: stage_def stage_action_def)
  then show ?thesis using Some b by (simp add: GetLaunchRecoveryBoundary_def)
qed

theorem recovery_boundary_exact_witness:
  "\<exists>b. GetLaunchRecoveryBoundary run_db demo_lhash = Inr b \<and> lb_Claim b = row_claim first_claim
    \<and> lb_Action b = LaunchRecoveryRetryProcessAdmission"
proof -
  have "active_claim run_db demo_lhash = Some first_claim"
    by (simp add: active_claim_def generation_def log_seqs_def demo_db_defs) (simp add: demo_row_defs cl_gen_def)
  moreover have "intent_of run_db first_claim \<noteq> None"
    by (simp add: intent_of_def demo_db_defs) (simp add: demo_row_defs rw_id_def cl_id_def)
  ultimately show ?thesis using recovery_boundary_exact [OF demo_history(3), of demo_lhash] by auto
qed

lemma head_active:
  assumes inv: "launch_inv db" and h: "h \<in> set (launch_claim_heads db)"
  obtains c where "active_claim db (hd_LaunchSpecHash h) = Some c" "head_created db h = stamp_text (cl_CreatedAt c)"
proof -
  note e = launch_invD(4,5) [OF inv]
  obtain c where c: "c \<in> set (task_claims db)" "cl_id c = hd_id h" using e(2) h by (auto simp: heads_inv_def claim_ids_def)
  have a: "active_claim db (hd_LaunchSpecHash h) = Some c"
    using c e(2) h by (auto simp: active_claim_Some [OF e(1)] heads_inv_def cl_id_def hd_id_def cl_gen_def)
  let ?p = "\<lambda>c. cl_LaunchSpecHash c = hd_LaunchSpecHash h \<and> cl_Fence c = hd_Fence h"
  obtain x where x: "find ?p (task_claims db) = Some x"
    using c find_None_iff_set [of ?p "task_claims db"] by (auto simp: cl_id_def hd_id_def)
  have "x = c" using find_SomeD [OF x] c by (intro fence_owner [OF e(1)]) (auto simp: cl_id_def hd_id_def)
  then show ?thesis using that [OF a] x by (simp add: head_created_def)
qed

text \<open>The recovery listing is complete: it has each claimed spec exactly once, ordered by the creation text of
  its active claim, with a boundary and no cause.\<close>

theorem recovery_listing_complete:
  assumes "launch_reachable db"
  shows "distinct (map lx_LaunchSpecHash (ListLaunchRecoveryBoundaries db))
    \<and> set (map lx_LaunchSpecHash (ListLaunchRecoveryBoundaries db)) = cl_LaunchSpecHash ` set (task_claims db)
    \<and> sorted (map (\<lambda>x. stamp_text (cl_CreatedAt (the (active_claim db (lx_LaunchSpecHash x))))) (ListLaunchRecoveryBoundaries db))
    \<and> (\<forall>x \<in> set (ListLaunchRecoveryBoundaries db). lx_Cause x = None
        \<and> (\<exists>b. lx_Boundary x = Some b \<and> GetLaunchRecoveryBoundary db (lx_LaunchSpecHash x) = Inr b))"
proof -
  have inv: "launch_inv db" by (rule launch_reachable_inv [OF assms])
  let ?hs = "order_by (head_created db) (order_by hd_LaunchSpecHash (launch_claim_heads db))" let ?L = "ListLaunchRecoveryBoundaries db"
  let ?t = "\<lambda>h. stamp_text (cl_CreatedAt (the (active_claim db h)))"
  have "map ?t (map lx_LaunchSpecHash ?L) = map (head_created db) ?hs"
    unfolding listing_keys by (auto elim!: head_active [OF inv])
  then have o: "sorted (map (\<lambda>x. ?t (lx_LaunchSpecHash x)) ?L)" using sorted_order_by [of "head_created db"] by (simp add: comp_def)
  have b: "lx_Cause x = None \<and> (\<exists>b. lx_Boundary x = Some b \<and> GetLaunchRecoveryBoundary db (lx_LaunchSpecHash x) = Inr b)" if "x \<in> set ?L" for x
    using listing_boundaries [OF inv that] by (simp add: GetLaunchRecoveryBoundary_def)
  show ?thesis using listing_hashes [OF inv] o b by blast
qed

theorem recovery_listing_complete_witness:
  "map lx_LaunchSpecHash (ListLaunchRecoveryBoundaries reclaimed_db) = [demo_lhash] \<and> map lx_Cause (ListLaunchRecoveryBoundaries reclaimed_db) = [None]"
proof -
  have "cl_LaunchSpecHash ` set (task_claims reclaimed_db) = {demo_lhash}" by (simp add: demo_db_defs demo_row_defs)
  moreover have "length (ListLaunchRecoveryBoundaries reclaimed_db) = 1"
    by (simp add: ListLaunchRecoveryBoundaries_def order_by_def demo_db_defs)
  ultimately show ?thesis
    using recovery_listing_complete [OF demo_history(5)] by (cases "ListLaunchRecoveryBoundaries reclaimed_db") auto
qed

subsection \<open>Stored specs\<close>

text \<open>C34: A stored spec survives its text: in every later database it reads back as the value that was stored,
  with the approval it was admitted under, and that approval and its proposal are still approved, at the
  revision of the spec, by the local operator.\<close>

theorem stored_spec_reads_back:
  assumes "launch_reachable db" "StoreLaunchSpec now request db = Inr (s, db1)" "launch_step\<^sup>*\<^sup>* db1 db2"
  shows "GetLaunchSpec db2 (la_LaunchSpecHash request) = Inr s \<and> ss_Spec s = la_Spec request
    \<and> (\<exists>p a. find_proposal (lr_ProposalID (lp_Revision (la_Spec request))) (task_proposals (ld_proposals db2)) = Some p
        \<and> pr_State p = ProposalStateApproved \<and> pr_CurrentRevision p = lr_Revision (lp_Revision (la_Spec request))
        \<and> pr_CurrentRevisionHash p = lr_RevisionHash (lp_Revision (la_Spec request))
        \<and> find_approval (la_ApprovalID request) (task_proposal_approvals (ld_proposals db2)) = Some a
        \<and> ap_State a = ApprovalStateApproved \<and> ap_DecidedBy a = Some localGUIOperator)"
proof -
  have inv: "launch_inv db" by (rule launch_reachable_inv [OF assms(1)])
  note r = store_result [OF assms(2) inv]
  have e: "launch_inv db2" "launch_evolves db1 db2"
    using launch_steps_evolve [OF assms(3) launch_step_inv [OF launch_step.store [OF assms(2)] inv]] by simp_all
  have load: "loadLaunchSpec db2 (la_LaunchSpecHash request) = Inr (Some s)" by (rule load_spec_kept [OF e(2) r(1)])
  then obtain x where x: "x \<in> set (launch_specs db2)" "lp_Revision (ss_Spec s) = row_revision x" "ss_Approval s = row_approval x"
    by (auto simp: loadLaunchSpec_def find_spec_def launch_unfold split: option.splits dest!: find_SomeD)
  then have "backed (ld_proposals db2) x" "sr_ApprovedBy x = localGUIOperator"
    using launch_invD(3) [OF e(1)] by (simp_all add: specs_inv_def spec_ok_def)
  then show ?thesis using load r(2,3) x(2,3) by (auto simp: GetLaunchSpec_def require_def backed_def row_revision_def row_approval_def)
qed

theorem stored_spec_reads_back_witness: "GetLaunchSpec reclaimed_db demo_lhash = Inr demo_stored"
proof -
  have "launch_step\<^sup>*\<^sup>* stored_db reclaimed_db"
    using launch_step.acquire [OF demo_acquired] launch_step.materialize [OF demo_materialized] launch_step.run [OF demo_run]
      launch_step.terminal [OF demo_terminated] launch_step.reclaim [OF demo_reclaimed]
    by (meson rtranclp.rtrancl_into_rtrancl rtranclp.rtrancl_refl)
  from stored_spec_reads_back [OF demo_launch_reachable(2) demo_store this] show ?thesis by (simp add: demo_admission_def)
qed

subsection \<open>Undecided approvals\<close>

text \<open>Every revision was created at a calendar time, as a clock gives it.\<close>

definition calendar_times :: "ProposalDB \<Rightarrow> bool" where
  "calendar_times db \<longleftrightarrow> (\<forall>r \<in> set (task_proposal_revisions db). \<exists>v. snapshot_of (task_proposal_revisions db) r v \<and> calendar (re_CreatedAt v))"

lemma snapshot_decodes:
  assumes "snapshot_of revs r v" "calendar (re_CreatedAt v)"
  shows "Option.bind (decodeJSON (rv_Snapshot r)) decodeRevision = Some v"
proof -
  have "canonicalJSON (revision_value v) = Inr (rv_Snapshot r)"
    using assms(1) by (auto simp: snapshot_of_def canonicalRevisionSnapshot_def andThen_Inr)
  then have "rv_Snapshot r = enc (canon (revision_value v))" by (simp add: canonicalJSON_eq split: if_splits)
  then show ?thesis using decodeRevision_canon [OF parse_stamp_text [OF assms(2)]] by (simp add: decodeJSON_enc)
qed

definition current_approval :: "ProposalDB \<Rightarrow> LaunchRevisionIdentity \<Rightarrow> Approval \<Rightarrow> bool" where
  "current_approval db v a \<longleftrightarrow> (ap_ProposalID a, ap_Revision a, ap_RevisionHash a) = (lr_ProposalID v, lr_Revision v, lr_RevisionHash v)
     \<and> (\<exists>p. find_proposal (lr_ProposalID v) (task_proposals db) = Some p
          \<and> (pr_CurrentRevision p, pr_CurrentRevisionHash p) = (lr_Revision v, lr_RevisionHash v))"

lemma eligibility_row:
  assumes inv: "proposal_inv db" and a: "find_approval i (task_proposal_approvals db) = Some a"
  shows "(p, l, a') \<in> set (eligibility_rows db v i) \<Longrightarrow> a' = a \<and> current_approval db v a"
    and "current_approval db v a \<Longrightarrow> eligibility_rows db v i \<noteq> []"
proof -
  have m: "a \<in> set (task_proposal_approvals db)" "ap_ApprovalID a = i"
    using a approvals_unique [OF inv] by (auto simp: approvals_tab.get_Some)
  have ps: "unique_key pr_ProposalID (task_proposals db)" using inv by (auto simp: proposal_inv_def numbering_ok_def)
  {
    assume "(p, l, a') \<in> set (eligibility_rows db v i)"
    then have r: "p \<in> set (task_proposals db)" "a' \<in> set (task_proposal_approvals db)" "ap_ApprovalID a' = i" "pr_ProposalID p = lr_ProposalID v"
      "pr_CurrentRevision p = lr_Revision v" "pr_CurrentRevisionHash p = lr_RevisionHash v"
      "(ap_ProposalID a', ap_Revision a', ap_RevisionHash a') = (lr_ProposalID v, lr_Revision v, lr_RevisionHash v)"
      by (auto simp: eligibility_rows_def rv_ident_def split: if_splits)
    have "find_approval i (task_proposal_approvals db) = Some a'" using r(2,3) by (simp add: approvals_tab.get_Some [OF approvals_unique [OF inv]])
    then have "a' = a" using a by simp
    moreover have "find_proposal (lr_ProposalID v) (task_proposals db) = Some p" using r ps by (simp add: proposals_tab.get_Some)
    ultimately show "a' = a \<and> current_approval db v a" using r by (simp add: current_approval_def)
  }
  assume c: "current_approval db v a"
  then obtain p where p: "p \<in> set (task_proposals db)" "pr_ProposalID p = lr_ProposalID v" "pr_CurrentRevision p = lr_Revision v"
    "pr_CurrentRevisionHash p = lr_RevisionHash v" "ap_ident a = (lr_ProposalID v, lr_Revision v, lr_RevisionHash v)"
    using ps by (auto simp: current_approval_def proposals_tab.get_Some ap_ident_def)
  have pairs: "map rv_ident (task_proposal_revisions db) = map lc_ident (task_proposal_revision_lifecycles db)"
    "map ap_pair (task_proposal_approvals db) = map lc_pair (task_proposal_revision_lifecycles db)"
    using inv by (auto simp: proposal_inv_def pairs_ok_def)
  have "ap_pair a \<in> set (map lc_pair (task_proposal_revision_lifecycles db))" unfolding pairs(2) [symmetric] using m(1) by simp
  then obtain l where l: "l \<in> set (task_proposal_revision_lifecycles db)" "lc_ident l = ap_ident a" "lc_ApprovalID l = i"
    using m(2) by (auto simp: ap_pair_def lc_pair_def)
  then have "ap_ident a \<in> set (map rv_ident (task_proposal_revisions db))" unfolding pairs(1) by (metis imageI list.set_map)
  then obtain r where "r \<in> set (task_proposal_revisions db)" "rv_ident r = ap_ident a" by auto
  then have "(p, l, a) \<in> set (eligibility_rows db v i)"
    using p l m unfolding eligibility_rows_def by (auto simp: rv_ident_def lc_ident_def ap_ident_def intro!: bexI [of _ p] bexI [of _ r] bexI [of _ l] bexI [of _ a])
  then show "eligibility_rows db v i \<noteq> []" by auto
qed

lemma eligibility_undecided:
  assumes inv: "proposal_inv db" and times: "calendar_times db" and a: "find_approval i (task_proposal_approvals db) = Some a" "ap_DecidedBy a = None"
  shows "validateLaunchApprovalEligibility db v i
    = Inl (if current_approval db v a then ErrLaunchMsg ''converting NULL to string is unsupported'' else ErrLaunchApprovalIneligible)"
proof (cases "find (\<lambda>r. rv_ident r = (lr_ProposalID v, lr_Revision v, lr_RevisionHash v)) (task_proposal_revisions db)")
  case None
  then have "eligibility_rows db v i = []" by (auto simp: eligibility_rows_def rv_ident_def find_None_iff)
  then have "\<not> current_approval db v a" using eligibility_row(2) [OF inv a(1)] by blast
  then show ?thesis using None by (simp add: validateLaunchApprovalEligibility_def require_def)
next
  case (Some r)
  then have r: "r \<in> set (task_proposal_revisions db)" "rv_ident r = (lr_ProposalID v, lr_Revision v, lr_RevisionHash v)" by (auto dest: find_SomeD)
  then obtain x where x: "snapshot_of (task_proposal_revisions db) r x" "calendar (re_CreatedAt x)" using times by (auto simp: calendar_times_def)
  note d = snapshot_decodes [OF x]
  show ?thesis
  proof (cases "eligibility_rows db v i")
    case Nil
    then have "\<not> current_approval db v a" using eligibility_row(2) [OF inv a(1)] by blast
    then show ?thesis using Some d x(1) r(2) Nil by (simp add: validateLaunchApprovalEligibility_def require_def snapshot_of_def rv_ident_def)
  next
    case (Cons y ys)
    obtain p l a' where y: "y = (p, l, a')" by (cases y)
    have "(p, l, a') \<in> set (eligibility_rows db v i)" using Cons y by simp
    then have "a' = a \<and> current_approval db v a" by (rule eligibility_row(1) [OF inv a(1)])
    then show ?thesis
      using Some d x(1) r(2) Cons y a(2) by (simp add: validateLaunchApprovalEligibility_def require_def snapshot_of_def rv_ident_def)
  qed
qed

text \<open>C38: A new spec for an undecided approval is always refused, but not always as ineligible: when the approval is that of
  the spec's revision and this is the current one of its proposal, the decision column is NULL, the code reads it into a plain
  string, and the caller gets the driver's conversion error.  Only in the other cases the answer is
  \<open>ErrLaunchApprovalIneligible\<close>.\<close>

theorem pending_approval_conversion_error:
  assumes "launch_reachable db" "calendar_times (ld_proposals db)"
    and "HashLaunchSpec (la_Spec q) = Inr (la_LaunchSpecHash q)" "ident_pattern 63 (la_ApprovalID q)" "find_spec (la_LaunchSpecHash q) db = None"
    and "find_approval (la_ApprovalID q) (task_proposal_approvals (ld_proposals db)) = Some a" "ap_DecidedBy a = None"
  shows "StoreLaunchSpec now q db
    = Inl (if current_approval (ld_proposals db) (lp_Revision (la_Spec q)) a then ErrLaunchMsg ''converting NULL to string is unsupported''
           else ErrLaunchApprovalIneligible)"
proof -
  have "proposal_inv (ld_proposals db)" by (rule launch_invD(1) [OF launch_reachable_inv [OF assms(1)]])
  note e = eligibility_undecided [OF this assms(2,6,7), of "lp_Revision (la_Spec q)"]
  obtain canonical where "canonicalJSON (launchSpecCanonicalValue (la_Spec q)) = Inr canonical"
    using assms(3) by (auto simp: HashLaunchSpec_def andThen_Inr launch_msg_def canonicalJSONHash_def split: sum.splits)
  then show ?thesis using assms(3,4) e load_spec_None [OF assms(5)] by (simp add: StoreLaunchSpec_def launch_msg_def)
qed

theorem pending_approval_conversion_error_witness:
  "StoreLaunchSpec demo_now demo_admission pending_launch_db = Inl (ErrLaunchMsg ''converting NULL to string is unsupported'')"
proof -
  let ?a = "pending_approval demo_now demo_aid demo_pid 1 demo_hash"
  have "re_ParentRevision demo_revision = None" "re_ParentRevisionHash demo_revision = None" by (simp_all add: demo_revision_def root_revision_def)
  then have "parent_ok revs demo_revision" for revs by (simp add: parent_ok_def demo_revision_ident)
  then have s: "snapshot_of revs \<lparr>rv_ProposalID = demo_pid, rv_Revision = 1, rv_RevisionHash = demo_hash, rv_Snapshot = demo_snapshot\<rparr> demo_revision" for revs
    by (simp add: snapshot_of_def demo_revision_ident)
  have "calendar demo_now" by (simp add: calendar_def demo_now_def daysIn_def)
  then have "calendar (re_CreatedAt demo_revision)" by (simp add: demo_revision_def root_revision_def)
  then have "calendar_times (ld_proposals pending_launch_db)"
    using s by (auto simp: calendar_times_def pending_launch_db_def demo_created_db_def)
  moreover have "find_approval (la_ApprovalID demo_admission) (task_proposal_approvals (ld_proposals pending_launch_db)) = Some ?a"
    by (simp add: demo_admission_def pending_launch_db_def demo_created_db_def find_approval_def pending_approval_def)
  moreover have "current_approval (ld_proposals pending_launch_db) (lp_Revision (la_Spec demo_admission)) ?a"
    by (simp add: current_approval_def demo_admission_def pending_launch_db_def demo_created_db_def demo_spec_def pending_approval_def
        find_proposal_def created_proposal_def)
  ultimately show ?thesis
    using pending_approval_conversion_error [OF demo_launch_reachable(1), of demo_admission ?a demo_now] demo_spec_stored demo_aid_ident
    by (simp add: demo_admission_def find_spec_def pending_launch_db_def emptyLaunch_def) (simp add: pending_approval_def)
qed

end
