(* ===== verification/Fenced_Launch.thy ===== *)
theory Fenced_Launch
  imports Launch_Replay
begin

section \<open>The fenced launch orchestrator\<close>

text \<open>
  Models \<^verbatim>\<open>src/internal/lifecycle/fenced_launch.go\<close>: the orchestrator that admits a launch, records its
  facts and reports the next durable obligation.  Its Go interface \<open>fencedLaunchStore\<close> is a record of
  operations over a store \<open>'db\<close>; the clock and the random bytes of a call are arguments as in the store.  A
  Go pair of an action and an error is a pair with an optional error, since an action accompanies some
  errors.  The zero \<open>Boundary\<close> of an action is \<open>None\<close>.  The interface \<open>fenced_store\<close> states what the
  orchestrator may rely on, and launch admission provides it.
\<close>

record 'db fencedLaunchStore =
  fs_StoreLaunchSpec :: "stamp \<Rightarrow> LaunchAdmissionRequest \<Rightarrow> 'db \<Rightarrow> launch_error + StoredLaunchSpec \<times> 'db"
  fs_AcquireLaunchClaim :: "(nat \<Rightarrow> stamp) \<Rightarrow> string option \<Rightarrow> LaunchClaimRequest \<Rightarrow> 'db \<Rightarrow> launch_error + TaskClaim \<times> 'db"
  fs_GetLaunchRecoveryBoundary :: "'db \<Rightarrow> string \<Rightarrow> launch_error + LaunchRecoveryBoundary"
  fs_ListLaunchRecoveryBoundaries :: "'db \<Rightarrow> launch_error + LaunchRecoveryResult list"
  fs_RecordLaunchMaterializationReady ::
    "(nat \<Rightarrow> stamp) \<Rightarrow> string option \<Rightarrow> LaunchMaterializationRequest \<Rightarrow> 'db \<Rightarrow> launch_error + LaunchMaterialization \<times> 'db"
  fs_CreateLaunchRunIntent ::
    "(nat \<Rightarrow> stamp) \<Rightarrow> string option \<Rightarrow> LaunchRunIntentRequest \<Rightarrow> 'db \<Rightarrow> launch_error + LaunchRunIntent \<times> 'db"

datatype fenced_error =
    StoreError launch_error
  | errFencedLaunchBoundaryUnsafe
  | errFencedLaunchOutcomeUnknown

record fencedLaunchAction =
  fa_LaunchSpecHash :: string
  fa_Boundary :: "LaunchRecoveryBoundary option"
  fa_WaitingForHuman :: bool
  fa_Cause :: "fenced_error option"

type_synonym action_result = "fencedLaunchAction \<times> fenced_error option"

definition zero_action :: fencedLaunchAction where
  "zero_action = \<lparr>fa_LaunchSpecHash = [], fa_Boundary = None, fa_WaitingForHuman = False, fa_Cause = None\<rparr>"

definition waiting_action :: "string \<Rightarrow> fenced_error \<Rightarrow> fencedLaunchAction" where
  "waiting_action h e = \<lparr>fa_LaunchSpecHash = h, fa_Boundary = None, fa_WaitingForHuman = True, fa_Cause = Some e\<rparr>"

subsection \<open>Validation of a boundary\<close>

definition validFencedLaunchMaterialization :: "LaunchMaterialization option \<Rightarrow> TaskClaim \<Rightarrow> bool" where
  "validFencedLaunchMaterialization materialization claim \<longleftrightarrow>
     (case materialization of
        None \<Rightarrow> False
      | Some m \<Rightarrow> mz_LaunchSpecHash m = tk_LaunchSpecHash claim \<and> mz_LaunchFence m = tk_LaunchFence claim
          \<and> mz_State m = LaunchMaterializationStateReady)"

definition validFencedLaunchRunIntent :: "LaunchRunIntent option \<Rightarrow> LaunchMaterialization option \<Rightarrow> TaskClaim \<Rightarrow> bool" where
  "validFencedLaunchRunIntent run materialization claim \<longleftrightarrow>
     (case (run, materialization) of
        (Some r, Some m) \<Rightarrow> ri_LaunchSpecHash r = tk_LaunchSpecHash claim \<and> ri_LaunchFence r = tk_LaunchFence claim
          \<and> ri_MaterializationID r = mz_MaterializationID m \<and> ri_Attempt r = tk_Attempt claim
          \<and> sf_Kind (ri_StateFact r) = LaunchStateFactCreated \<and> sf_Sequence (ri_StateFact r) = 1
          \<and> sf_TokenHash (ri_StateFact r) = lf_ClaimTokenHash (tk_LaunchFence claim)
      | _ \<Rightarrow> False)"

definition validateFencedLaunchBoundary :: "LaunchRecoveryBoundary \<Rightarrow> fenced_error + unit" where
  "validateFencedLaunchBoundary b =
     (let claim = lb_Claim b in
      andThen (ensure (lb_LaunchSpecHash b \<noteq> [] \<and> tk_LaunchSpecHash claim = lb_LaunchSpecHash b \<and> tk_State claim = TaskClaimStateActive
        \<and> tk_Fence claim = tk_LaunchFence claim \<and> lo_LaunchSpecHash (lb_Outbox b) = lb_LaunchSpecHash b
        \<and> lo_LaunchFence (lb_Outbox b) = tk_LaunchFence claim) errFencedLaunchBoundaryUnsafe) (\<lambda>_.
      andThen (ensure (lb_TerminalIntent b = None \<and> lb_EvidenceIntent b = None) errFencedLaunchOutcomeUnknown) (\<lambda>_.
      ensure (case lb_Action b of
          LaunchRecoveryRetryMaterialization \<Rightarrow> lb_Materialization b = None \<and> lb_RunIntent b = None
        | LaunchRecoveryRetryRunAdmission \<Rightarrow> validFencedLaunchMaterialization (lb_Materialization b) claim \<and> lb_RunIntent b = None
        | LaunchRecoveryRetryProcessAdmission \<Rightarrow> validFencedLaunchMaterialization (lb_Materialization b) claim
            \<and> validFencedLaunchRunIntent (lb_RunIntent b) (lb_Materialization b) claim) errFencedLaunchBoundaryUnsafe)))"

definition fencedLaunchActionFromBoundary :: "LaunchRecoveryBoundary \<Rightarrow> action_result" where
  "fencedLaunchActionFromBoundary b =
     (let action = \<lparr>fa_LaunchSpecHash = lb_LaunchSpecHash b, fa_Boundary = Some b, fa_WaitingForHuman = False, fa_Cause = None\<rparr> in
      case validateFencedLaunchBoundary b of
        Inl e \<Rightarrow> (action\<lparr>fa_WaitingForHuman := True, fa_Cause := Some e\<rparr>, Some e)
      | Inr _ \<Rightarrow> (action, None))"

definition isFencedLaunchHumanIntervention :: "launch_error \<Rightarrow> bool" where
  "isFencedLaunchHumanIntervention e \<longleftrightarrow> e = ErrLaunchClaimNotFound \<or> e = ErrLaunchSpecNotFound \<or> e = ErrLaunchRecordCorrupt"

definition matchesLaunchClaimRequest :: "TaskClaim \<Rightarrow> LaunchClaimRequest \<Rightarrow> bool" where
  "matchesLaunchClaimRequest claim request \<longleftrightarrow>
     tk_LaunchSpecHash claim = cq_LaunchSpecHash request \<and> lf_ClaimID (tk_LaunchFence claim) = cq_ClaimID request
   \<and> lf_ClaimTokenHash (tk_LaunchFence claim) = cq_ClaimTokenHash request \<and> tk_OwnerID claim = cq_OwnerID request
   \<and> tk_Attempt claim = cq_Attempt request \<and> tk_State claim = TaskClaimStateActive"

subsection \<open>Recovery\<close>

definition recover :: "'db fencedLaunchStore \<Rightarrow> 'db \<Rightarrow> string \<Rightarrow> action_result" where
  "recover S db launchSpecHash =
     (case fs_GetLaunchRecoveryBoundary S db launchSpecHash of
        Inl e \<Rightarrow> if isFencedLaunchHumanIntervention e then (waiting_action launchSpecHash (StoreError e), Some (StoreError e))
          else (zero_action, Some (StoreError e))
      | Inr b \<Rightarrow> fencedLaunchActionFromBoundary b)"

text \<open>An action without an error carries its boundary.\<close>

definition recoverExpectedFence :: "'db fencedLaunchStore \<Rightarrow> 'db \<Rightarrow> string \<Rightarrow> LaunchFence \<Rightarrow> action_result" where
  "recoverExpectedFence S db launchSpecHash fence =
     (case recover S db launchSpecHash of
        (action, Some e) \<Rightarrow> (action, Some e)
      | (action, None) \<Rightarrow>
          if map_option (tk_LaunchFence \<circ> lb_Claim) (fa_Boundary action) \<noteq> Some fence
          then (zero_action\<lparr>fa_LaunchSpecHash := launchSpecHash\<rparr>, Some (StoreError ErrLaunchStaleFence))
          else (action, None))"

text \<open>The loop of \<open>recoverAll\<close>.\<close>

fun recover_results :: "LaunchRecoveryResult list \<Rightarrow> fenced_error + fencedLaunchAction list" where
  "recover_results [] = Inr []"
| "recover_results (result # results) =
     (case lx_Cause result of
        Some e \<Rightarrow>
          if \<not> isFencedLaunchHumanIntervention e then Inl (StoreError e)
          else andThen (recover_results results) (\<lambda>actions. Inr (waiting_action (lx_LaunchSpecHash result) (StoreError e) # actions))
      | None \<Rightarrow>
          (case lx_Boundary result of
             None \<Rightarrow> andThen (recover_results results)
               (\<lambda>actions. Inr (waiting_action (lx_LaunchSpecHash result) errFencedLaunchBoundaryUnsafe # actions))
           | Some b \<Rightarrow> andThen (recover_results results) (\<lambda>actions. Inr (fst (fencedLaunchActionFromBoundary b) # actions))))"

definition recoverAll :: "'db fencedLaunchStore \<Rightarrow> 'db \<Rightarrow> fenced_error + fencedLaunchAction list" where
  "recoverAll S db =
     (case fs_ListLaunchRecoveryBoundaries S db of Inl e \<Rightarrow> Inl (StoreError e) | Inr results \<Rightarrow> recover_results results)"

subsection \<open>Admission\<close>

definition admit ::
    "'db fencedLaunchStore \<Rightarrow> stamp \<Rightarrow> (nat \<Rightarrow> stamp) \<Rightarrow> string option \<Rightarrow> LaunchAdmissionRequest \<Rightarrow> LaunchClaimRequest \<Rightarrow> 'db
      \<Rightarrow> action_result \<times> 'db" where
  "admit S now clock rnd admission request db =
     (if la_LaunchSpecHash admission \<noteq> cq_LaunchSpecHash request then ((zero_action, Some (StoreError ErrLaunchSpecHashMismatch)), db)
      else case fs_StoreLaunchSpec S now admission db of
        Inl e \<Rightarrow> ((zero_action, Some (StoreError e)), db)
      | Inr (stored, db) \<Rightarrow>
          (case fs_AcquireLaunchClaim S clock rnd request db of
             Inr (claim, db) \<Rightarrow> (recoverExpectedFence S db (ss_LaunchSpecHash stored) (tk_Fence claim), db)
           | Inl e \<Rightarrow>
               if e \<noteq> ErrLaunchClaimAlreadyActive then ((zero_action, Some (StoreError e)), db)
               else (case recover S db (ss_LaunchSpecHash stored) of
                  (action, Some e') \<Rightarrow> ((action, Some e'), db)
                | (action, None) \<Rightarrow>
                    if \<not> (case fa_Boundary action of None \<Rightarrow> False | Some b \<Rightarrow> matchesLaunchClaimRequest (lb_Claim b) request)
                    then ((zero_action, Some (StoreError e)), db) else ((action, None), db))))"

definition recordTrustedMaterializationReady ::
    "'db fencedLaunchStore \<Rightarrow> (nat \<Rightarrow> stamp) \<Rightarrow> string option \<Rightarrow> LaunchMaterializationRequest \<Rightarrow> 'db \<Rightarrow> action_result \<times> 'db" where
  "recordTrustedMaterializationReady S clock rnd request db =
     (case fs_RecordLaunchMaterializationReady S clock rnd request db of
        Inl e \<Rightarrow> ((zero_action, Some (StoreError e)), db)
      | Inr (m, db) \<Rightarrow>
          if mz_LaunchFence m \<noteq> mq_Fence request \<or> mz_MaterializationID m \<noteq> mq_MaterializationID request
            \<or> mz_MaterializationHash m \<noteq> mq_MaterializationHash request \<or> mz_Nonce m \<noteq> mq_Nonce request
          then ((waiting_action (mz_LaunchSpecHash m) errFencedLaunchBoundaryUnsafe, Some errFencedLaunchBoundaryUnsafe), db)
          else (recoverExpectedFence S db (mz_LaunchSpecHash m) (mz_LaunchFence m), db))"

definition admitRunIntent ::
    "'db fencedLaunchStore \<Rightarrow> (nat \<Rightarrow> stamp) \<Rightarrow> string option \<Rightarrow> LaunchRunIntentRequest \<Rightarrow> 'db \<Rightarrow> action_result \<times> 'db" where
  "admitRunIntent S clock rnd request db =
     (case fs_CreateLaunchRunIntent S clock rnd request db of
        Inl e \<Rightarrow> ((zero_action, Some (StoreError e)), db)
      | Inr (run, db) \<Rightarrow>
          if ri_LaunchFence run \<noteq> iq_Fence request \<or> ri_MaterializationID run \<noteq> iq_MaterializationID request \<or> ri_RunID run \<noteq> iq_RunID request
            \<or> ri_Attempt run \<noteq> iq_Attempt request \<or> sf_Kind (ri_StateFact run) \<noteq> LaunchStateFactCreated \<or> sf_Sequence (ri_StateFact run) \<noteq> 1
            \<or> sf_TokenHash (ri_StateFact run) \<noteq> lf_ClaimTokenHash (iq_Fence request)
          then ((waiting_action (ri_LaunchSpecHash run) errFencedLaunchBoundaryUnsafe, Some errFencedLaunchBoundaryUnsafe), db)
          else (recoverExpectedFence S db (ri_LaunchSpecHash run) (ri_LaunchFence run), db))"

end
