(* ===== verification/Fenced_Contract.thy ===== *)
theory Fenced_Contract
  imports Fenced_Launch
begin

section \<open>What the orchestrator relies on\<close>

text \<open>
  The contract of the Go interface \<open>fencedLaunchStore\<close> and what the orchestrator of \<^verbatim>\<open>fenced_launch.go\<close> does over
  any store that keeps it: every call answers with the next obligation or says that the outcome is already
  recorded.  Launch admission keeps the contract on the databases of its invariant.
\<close>

text \<open>The facts of a boundary belong to its claim, and the action names the first fact that is missing.\<close>

definition boundary_consistent :: "LaunchRecoveryBoundary \<Rightarrow> bool" where
  "boundary_consistent b \<longleftrightarrow>
     (let c = lb_Claim b; f = tk_LaunchFence c in
      lb_LaunchSpecHash b \<noteq> [] \<and> tk_LaunchSpecHash c = lb_LaunchSpecHash b \<and> tk_Fence c = f \<and> lo_id (lb_Outbox b) = (lb_LaunchSpecHash b, f)
    \<and> pred_option (\<lambda>m. mz_id m = (lb_LaunchSpecHash b, f)) (lb_Materialization b)
    \<and> pred_option (\<lambda>r. ri_LaunchSpecHash r = lb_LaunchSpecHash b \<and> ri_LaunchFence r = f \<and> ri_Attempt r = tk_Attempt c
        \<and> sf_Sequence (ri_StateFact r) = 1 \<and> sf_TokenHash (ri_StateFact r) = lf_ClaimTokenHash f
        \<and> map_option mz_MaterializationID (lb_Materialization b) = Some (ri_MaterializationID r)) (lb_RunIntent b)
    \<and> lb_Action b = (if lb_RunIntent b \<noteq> None then LaunchRecoveryRetryProcessAdmission
        else if lb_Materialization b \<noteq> None then LaunchRecoveryRetryRunAdmission else LaunchRecoveryRetryMaterialization))"

definition outcome_recorded :: "LaunchRecoveryBoundary \<Rightarrow> bool" where
  "outcome_recorded b \<longleftrightarrow> lb_TerminalIntent b \<noteq> None \<or> lb_EvidenceIntent b \<noteq> None"

text \<open>What the orchestrator reports of a consistent boundary.\<close>

definition obligation :: "LaunchRecoveryBoundary \<Rightarrow> action_result" where
  "obligation b =
     (\<lparr>fa_LaunchSpecHash = lb_LaunchSpecHash b, fa_Boundary = Some b, fa_WaitingForHuman = outcome_recorded b,
       fa_Cause = (if outcome_recorded b then Some errFencedLaunchOutcomeUnknown else None)\<rparr>,
      if outcome_recorded b then Some errFencedLaunchOutcomeUnknown else None)"

lemma validate_consistent:
  assumes "boundary_consistent b"
  shows "validateFencedLaunchBoundary b = (if outcome_recorded b then Inl errFencedLaunchOutcomeUnknown else Inr ())"
proof -
  have s: "x = LaunchMaterializationStateReady" "y = LaunchStateFactCreated" "z = TaskClaimStateActive" for x y z
    by (cases x; cases y; cases z; simp)+
  from assms show ?thesis
    by (cases "lb_RunIntent b"; cases "lb_Materialization b")
      (auto simp: validateFencedLaunchBoundary_def boundary_consistent_def outcome_recorded_def validFencedLaunchMaterialization_def
        validFencedLaunchRunIntent_def Let_def lo_id_def mz_id_def s ensure_def)
qed

lemma action_consistent: "boundary_consistent b \<Longrightarrow> fencedLaunchActionFromBoundary b = obligation b"
  by (simp add: fencedLaunchActionFromBoundary_def validate_consistent obligation_def)

lemma obligation_fence [simp]: "fa_Boundary (fst (obligation b)) = Some b"
  by (simp add: obligation_def)

subsection \<open>The interface\<close>

locale fenced_store =
  fixes S :: "'db fencedLaunchStore" and ok :: "'db \<Rightarrow> bool"
  assumes store_spec: "ok db \<Longrightarrow> fs_StoreLaunchSpec S now r db = Inr (s, db') \<Longrightarrow> ok db' \<and> ss_LaunchSpecHash s = la_LaunchSpecHash r"
    and acquire: "ok db \<Longrightarrow> fs_AcquireLaunchClaim S clock rnd q db = Inr (c, db')
      \<Longrightarrow> ok db' \<and> (\<exists>b. fs_GetLaunchRecoveryBoundary S db' (cq_LaunchSpecHash q) = Inr b \<and> lb_Claim b = c \<and> matchesLaunchClaimRequest c q
        \<and> lb_Action b = LaunchRecoveryRetryMaterialization)"
    and acquire_active: "ok db \<Longrightarrow> fs_AcquireLaunchClaim S clock rnd q db = Inl ErrLaunchClaimAlreadyActive
      \<Longrightarrow> \<exists>b. fs_GetLaunchRecoveryBoundary S db (cq_LaunchSpecHash q) = Inr b"
    and materialize: "ok db \<Longrightarrow> fs_RecordLaunchMaterializationReady S clock rnd m db = Inr (x, db')
      \<Longrightarrow> ok db' \<and> mz_LaunchFence x = mq_Fence m \<and> mz_MaterializationID x = mq_MaterializationID m
        \<and> mz_MaterializationHash x = mq_MaterializationHash m \<and> mz_Nonce x = mq_Nonce m
        \<and> (\<exists>b. fs_GetLaunchRecoveryBoundary S db' (mz_LaunchSpecHash x) = Inr b \<and> tk_LaunchFence (lb_Claim b) = mq_Fence m \<and> lb_Materialization b = Some x)"
    and run: "ok db \<Longrightarrow> fs_CreateLaunchRunIntent S clock rnd i db = Inr (y, db')
      \<Longrightarrow> ok db' \<and> ri_LaunchFence y = iq_Fence i \<and> ri_MaterializationID y = iq_MaterializationID i \<and> ri_RunID y = iq_RunID i
        \<and> ri_Attempt y = iq_Attempt i
        \<and> (\<exists>b. fs_GetLaunchRecoveryBoundary S db' (ri_LaunchSpecHash y) = Inr b \<and> tk_LaunchFence (lb_Claim b) = iq_Fence i \<and> lb_RunIntent b = Some y)"
    and boundary: "ok db \<Longrightarrow> fs_GetLaunchRecoveryBoundary S db h = Inr b \<Longrightarrow> lb_LaunchSpecHash b = h \<and> boundary_consistent b"
    and no_boundary: "ok db \<Longrightarrow> fs_GetLaunchRecoveryBoundary S db h = Inl e \<Longrightarrow> e = ErrLaunchClaimNotFound"
    and listing: "ok db \<Longrightarrow> \<exists>xs. fs_ListLaunchRecoveryBoundaries S db = Inr xs \<and> (\<forall>x \<in> set xs. lx_Cause x = None
        \<and> (\<exists>b. lx_Boundary x = Some b \<and> fs_GetLaunchRecoveryBoundary S db (lx_LaunchSpecHash x) = Inr b))"
begin

lemma recover_obligation: "ok db \<Longrightarrow> fs_GetLaunchRecoveryBoundary S db h = Inr b \<Longrightarrow> recover S db h = obligation b"
  using boundary [of db h b] by (simp add: recover_def action_consistent)

lemma recover_absent:
  "ok db \<Longrightarrow> fs_GetLaunchRecoveryBoundary S db h = Inl e
    \<Longrightarrow> recover S db h = (waiting_action h (StoreError ErrLaunchClaimNotFound), Some (StoreError ErrLaunchClaimNotFound))"
  using no_boundary [of db h e] by (simp add: recover_def isFencedLaunchHumanIntervention_def)

lemma recover_expected:
  "ok db \<Longrightarrow> fs_GetLaunchRecoveryBoundary S db h = Inr b \<Longrightarrow> tk_LaunchFence (lb_Claim b) = f \<Longrightarrow> recoverExpectedFence S db h f = obligation b"
  by (cases "outcome_recorded b") (simp_all add: recoverExpectedFence_def recover_obligation obligation_def)

lemma materialized_obligation:
  assumes "ok db" "fs_RecordLaunchMaterializationReady S clock rnd m db = Inr (x, db')"
  obtains b where "recordTrustedMaterializationReady S clock rnd m db = (obligation b, db')" "lb_Materialization b = Some x"
    "tk_LaunchFence (lb_Claim b) = mq_Fence m" "fs_GetLaunchRecoveryBoundary S db' (mz_LaunchSpecHash x) = Inr b" "ok db'"
  using materialize [OF assms] by (auto simp: recordTrustedMaterializationReady_def assms(2) recover_expected intro!: that)

lemma run_obligation:
  assumes "ok db" "fs_CreateLaunchRunIntent S clock rnd r db = Inr (y, db')"
  obtains b where "admitRunIntent S clock rnd r db = (obligation b, db')" "lb_RunIntent b = Some y" "tk_LaunchFence (lb_Claim b) = iq_Fence r"
    "fs_GetLaunchRecoveryBoundary S db' (ri_LaunchSpecHash y) = Inr b" "ok db'"
proof -
  obtain b where b: "fs_GetLaunchRecoveryBoundary S db' (ri_LaunchSpecHash y) = Inr b" "tk_LaunchFence (lb_Claim b) = iq_Fence r" "lb_RunIntent b = Some y"
    and y: "ok db'" "ri_LaunchFence y = iq_Fence r" "ri_MaterializationID y = iq_MaterializationID r" "ri_RunID y = iq_RunID r" "ri_Attempt y = iq_Attempt r"
    using run [OF assms] by blast
  have "sf_Sequence (ri_StateFact y) = 1" "sf_TokenHash (ri_StateFact y) = lf_ClaimTokenHash (iq_Fence r)"
    using boundary [OF y(1) b(1)] b(2,3) by (simp_all add: boundary_consistent_def Let_def)
  moreover have "sf_Kind (ri_StateFact y) = LaunchStateFactCreated" by (cases "sf_Kind (ri_StateFact y)")
  ultimately have "admitRunIntent S clock rnd r db = (obligation b, db')"
    using y b recover_expected [OF y(1) b(1,2)] by (simp add: admitRunIntent_def assms(2))
  then show ?thesis using that b y(1) by blast
qed

text \<open>An admission that stored its spec ends in one of three ways.\<close>

lemma admit_cases:
  assumes "ok db" "la_LaunchSpecHash a = cq_LaunchSpecHash q" "fs_StoreLaunchSpec S now a db = Inr (s, db1)"
  obtains (claimed) c db' b where "fs_AcquireLaunchClaim S clock rnd q db1 = Inr (c, db')" "admit S now clock rnd a q db = (obligation b, db')" "ok db'"
      "fs_GetLaunchRecoveryBoundary S db' (cq_LaunchSpecHash q) = Inr b" "lb_Claim b = c" "matchesLaunchClaimRequest c q"
      "lb_Action b = LaunchRecoveryRetryMaterialization"
  | (active) b where "fs_AcquireLaunchClaim S clock rnd q db1 = Inl ErrLaunchClaimAlreadyActive" "ok db1"
      "fs_GetLaunchRecoveryBoundary S db1 (cq_LaunchSpecHash q) = Inr b"
      "admit S now clock rnd a q db = (if outcome_recorded b \<or> matchesLaunchClaimRequest (lb_Claim b) q then obligation b
        else (zero_action, Some (StoreError ErrLaunchClaimAlreadyActive)), db1)"
  | (failed) e where "fs_AcquireLaunchClaim S clock rnd q db1 = Inl e" "e \<noteq> ErrLaunchClaimAlreadyActive" "ok db1"
      "admit S now clock rnd a q db = ((zero_action, Some (StoreError e)), db1)"
proof -
  have s: "ok db1" "ss_LaunchSpecHash s = cq_LaunchSpecHash q" using store_spec [OF assms(1,3)] assms(2) by simp_all
  show ?thesis
  proof (cases "fs_AcquireLaunchClaim S clock rnd q db1")
    case (Inr r)
    obtain c db' where r: "r = (c, db')" by fastforce
    from acquire [OF s(1) Inr [unfolded r]] obtain b where b: "ok db'" "fs_GetLaunchRecoveryBoundary S db' (cq_LaunchSpecHash q) = Inr b"
      "lb_Claim b = c" "matchesLaunchClaimRequest c q" "lb_Action b = LaunchRecoveryRetryMaterialization" by blast
    have "tk_LaunchFence (lb_Claim b) = tk_Fence c" using boundary [OF b(1,2)] b(3) by (simp add: boundary_consistent_def Let_def)
    then have "admit S now clock rnd a q db = (obligation b, db')"
      using assms(2,3) Inr r s(2) recover_expected [OF b(1,2)] by (simp add: admit_def)
    then show ?thesis using claimed [of c db' b] Inr r b by simp
  next
    case (Inl e)
    show ?thesis
    proof (cases "e = ErrLaunchClaimAlreadyActive")
      case True
      from acquire_active [OF s(1) Inl [unfolded True]] obtain b where b: "fs_GetLaunchRecoveryBoundary S db1 (cq_LaunchSpecHash q) = Inr b" ..
      then show ?thesis using active [of b] Inl True s recover_obligation [OF s(1) b] assms(2,3) by (simp add: admit_def obligation_def)
    next
      case False
      then show ?thesis using failed [of e] Inl s assms(2,3) by (simp add: admit_def)
    qed
  qed
qed

lemma recover_results_safe:
  assumes "ok db" "\<forall>x \<in> set xs. lx_Cause x = None \<and> (\<exists>b. lx_Boundary x = Some b \<and> fs_GetLaunchRecoveryBoundary S db (lx_LaunchSpecHash x) = Inr b)"
  shows "recover_results xs = Inr (map (\<lambda>x. fst (recover S db (lx_LaunchSpecHash x))) xs)"
  using assms(2) by (induction xs) (auto simp: recover_obligation [OF assms(1)] action_consistent boundary [OF assms(1)])

lemma recover_all:
  assumes "ok db" "fs_ListLaunchRecoveryBoundaries S db = Inr xs"
  shows "recoverAll S db = Inr (map (\<lambda>x. fst (recover S db (lx_LaunchSpecHash x))) xs)"
  using listing [OF assms(1)] recover_results_safe [OF assms(1), of xs] assms(2) by (auto simp: recoverAll_def)

end

end
