(* ===== verification/Fenced_Provider.thy ===== *)
theory Fenced_Provider
  imports Fenced_Contract
begin

section \<open>Launch admission provides the contract\<close>

text \<open>
  The operations of \<^verbatim>\<open>launch_admission.go\<close> as the store of the orchestrator, and the laws of
  \<open>fenced_store\<close> on every database of the invariant.
\<close>

definition launchStore :: "LaunchDB fencedLaunchStore" where
  "launchStore = \<lparr>fs_StoreLaunchSpec = StoreLaunchSpec, fs_AcquireLaunchClaim = AcquireLaunchClaim,
     fs_GetLaunchRecoveryBoundary = GetLaunchRecoveryBoundary, fs_ListLaunchRecoveryBoundaries = (\<lambda>db. Inr (ListLaunchRecoveryBoundaries db)),
     fs_RecordLaunchMaterializationReady = RecordLaunchMaterializationReady, fs_CreateLaunchRunIntent = CreateLaunchRunIntent\<rparr>"

lemma launchStore_simps [simp]:
  "fs_StoreLaunchSpec launchStore = StoreLaunchSpec" "fs_AcquireLaunchClaim launchStore = AcquireLaunchClaim"
  "fs_GetLaunchRecoveryBoundary launchStore = loadLaunchRecoveryBoundary"
  "fs_ListLaunchRecoveryBoundaries launchStore db = Inr (ListLaunchRecoveryBoundaries db)"
  "fs_RecordLaunchMaterializationReady launchStore = RecordLaunchMaterializationReady"
  "fs_CreateLaunchRunIntent launchStore = CreateLaunchRunIntent"
  by (simp_all add: launchStore_def fun_eq_iff GetLaunchRecoveryBoundary_def)

subsection \<open>Boundaries\<close>

lemma boundary_parts:
  assumes "loadLaunchRecoveryBoundary db h = Inr b"
  shows "loadActiveLaunchClaim db h = Inr (Some (lb_Claim b))" "lb_LaunchSpecHash b = h"
    "loadLatestLaunchOutbox db h (lf_FenceGeneration (tk_LaunchFence (lb_Claim b))) = Inr (lb_Outbox b)"
    "lo_LaunchFence (lb_Outbox b) = tk_LaunchFence (lb_Claim b)"
    "\<exists>s. loadLaunchSpec db h = Inr (Some s) \<and> boundary_materialization db h (lb_Claim b) s = Inr (lb_Materialization b)"
    "boundary_run db h (lb_Claim b) (lb_Materialization b) = Inr (lb_RunIntent b, lb_TerminalIntent b, lb_EvidenceIntent b)"
    "boundary_action (lo_State (lb_Outbox b)) (lb_Materialization b) (lb_RunIntent b) = Inr (lb_Action b)"
  using assms by (auto simp: loadLaunchRecoveryBoundary_def launch_unfold)

lemma spec_hash_nonempty: "loadLaunchSpec db h = Inr (Some s) \<Longrightarrow> h \<noteq> []"
  by (auto simp: loadLaunchSpec_def find_spec_def launch_unfold HashLaunchSpec_def launch_msg_def canonicalJSONHash_def
      split: option.splits sum.splits dest!: find_SomeD)

lemma outbox_hash: "loadLatestLaunchOutbox db h g = Inr o' \<Longrightarrow> lo_LaunchSpecHash o' = h"
proof -
  assume l: "loadLatestLaunchOutbox db h g = Inr o'"
  let ?r = "filter (\<lambda>o'. lo_LaunchSpecHash o' = h \<and> lf_FenceGeneration (lo_LaunchFence o') = g) (launch_admission_outbox db)"
  from l obtain u where u: "order_by (\<lambda>o'. - lo_Sequence o') ?r = o' # u"
    by (auto simp: loadLatestLaunchOutbox_def Let_def launch_unfold split: list.splits)
  have "o' \<in> set (order_by (\<lambda>o'. - lo_Sequence o') ?r)" unfolding u by simp
  then show ?thesis by simp
qed

lemma boundary_mat_id:
  "boundary_materialization db h c s = Inr (Some m) \<Longrightarrow> mz_id m = (h, tk_LaunchFence c)"
  by (auto simp: boundary_materialization_def loadLaunchMaterialization_def launch_unfold mz_id_def split: option.splits dest!: find_SomeD)

lemma boundary_run_facts:
  assumes inv: "launch_inv db" and c: "c \<in> set (task_claims db)"
    and run: "boundary_run db (cl_LaunchSpecHash c) (row_claim c) m = Inr (Some r, t, e)"
  shows "ri_LaunchSpecHash r = cl_LaunchSpecHash c" "ri_LaunchFence r = cl_Fence c" "ri_Attempt r = cl_Attempt c"
    "sf_Sequence (ri_StateFact r) = 1" "sf_TokenHash (ri_StateFact r) = lf_ClaimTokenHash (cl_Fence c)"
    "map_option mz_MaterializationID m = Some (ri_MaterializationID r)"
proof -
  from run obtain k where k: "loadLaunchRunIntent db k = Inr (Some r)" "ri_LaunchFence r = cl_Fence c"
    "map_option mz_MaterializationID m = Some (ri_MaterializationID r)"
    by (auto simp: boundary_run_def loadLaunchRunIntentByGeneration_def launch_unfold row_claim_def Let_def split: option.splits)
  from k(1) obtain x f where x: "x \<in> set (launch_run_intents db)" "r = row_intent x f" "sf_Sequence f = 1" "sf_TokenHash f = lf_ClaimTokenHash (rw_Fence x)"
    by (auto simp: loadLaunchRunIntent_def launch_unfold split: option.splits dest!: find_SomeD)
  obtain c' where c': "c' \<in> set (task_claims db)" "cl_id c' = rw_id x" "cl_Attempt c' = rw_Attempt x"
    using launch_invD(8) [OF inv] x(1) by (auto simp: runs_inv_def)
  have "c' = c" using c' x(2) k(2) by (intro fence_owner [OF launch_invD(4) [OF inv] c'(1) c]) (simp add: cl_id_def rw_id_def row_intent_def)
  then show "ri_LaunchSpecHash r = cl_LaunchSpecHash c" "ri_LaunchFence r = cl_Fence c" "ri_Attempt r = cl_Attempt c"
    "sf_Sequence (ri_StateFact r) = 1" "sf_TokenHash (ri_StateFact r) = lf_ClaimTokenHash (cl_Fence c)"
    "map_option mz_MaterializationID m = Some (ri_MaterializationID r)"
    using c' x k by (simp_all add: row_intent_def cl_id_def rw_id_def)
qed

lemma boundary_is_consistent:
  assumes inv: "launch_inv db" and b: "loadLaunchRecoveryBoundary db h = Inr b"
  shows "boundary_consistent b"
proof -
  note p = boundary_parts [OF b]
  from p(1) obtain c where c: "c \<in> set (task_claims db)" "lb_Claim b = row_claim c" "cl_LaunchSpecHash c = h" by (rule load_active_Some) (rule that)
  obtain s where s: "loadLaunchSpec db h = Inr (Some s)" "boundary_materialization db h (lb_Claim b) s = Inr (lb_Materialization b)" using p(5) by blast
  have m: "pred_option (\<lambda>m. mz_id m = (h, cl_Fence c)) (lb_Materialization b)"
    using boundary_mat_id s(2) c(2) by (cases "lb_Materialization b") (auto simp: row_claim_def)
  have r: "pred_option (\<lambda>r. ri_LaunchSpecHash r = h \<and> ri_LaunchFence r = cl_Fence c \<and> ri_Attempt r = cl_Attempt c
      \<and> sf_Sequence (ri_StateFact r) = 1 \<and> sf_TokenHash (ri_StateFact r) = lf_ClaimTokenHash (cl_Fence c)
      \<and> map_option mz_MaterializationID (lb_Materialization b) = Some (ri_MaterializationID r)) (lb_RunIntent b)"
  proof (cases "lb_RunIntent b")
    case (Some r)
    show ?thesis using boundary_run_facts [OF inv c(1)] p(6) Some c(2,3) by simp
  qed simp
  have a: "lb_Action b = (if lb_RunIntent b \<noteq> None then LaunchRecoveryRetryProcessAdmission
        else if lb_Materialization b \<noteq> None then LaunchRecoveryRetryRunAdmission else LaunchRecoveryRetryMaterialization)"
    using p(7) by (auto simp: boundary_action_def split: LaunchOutboxState.splits if_splits)
  show ?thesis
    using p(2,4) outbox_hash [OF p(3)] spec_hash_nonempty [OF s(1)] m r a c(2,3)
    by (simp add: boundary_consistent_def Let_def row_claim_def lo_id_def)
qed

text \<open>The boundary of the claim that holds an active fence.\<close>

lemma active_boundary:
  assumes inv: "launch_inv db" and c: "c \<in> set (task_claims db)" "cl_gen c = generation db (cl_LaunchSpecHash c)"
  obtains b where "loadLaunchRecoveryBoundary db (cl_LaunchSpecHash c) = Inr b" "lb_Claim b = row_claim c" "lb_Materialization b = mat_of db c"
    "map_option ri_RunID (lb_RunIntent b) = map_option rw_RunID (intent_of db c)" "lb_Action b = stage_action (stage db c)"
  using boundary_exact [OF inv, of "cl_LaunchSpecHash c" c] active_claim_Some [OF launch_invD(4) [OF inv], of "cl_LaunchSpecHash c" c] c by metis

lemma active_holder:
  assumes inv: "launch_inv db" and a: "requireActiveLaunchFence db [] f = Inr a"
  obtains c where "c \<in> set (task_claims db)" "cl_Fence c = f" "cl_gen c = generation db (cl_LaunchSpecHash c)"
    "\<And>x. x \<in> claim_ids db \<Longrightarrow> snd x = f \<Longrightarrow> x = cl_id c"
proof -
  obtain c where c: "c \<in> set (task_claims db)" "a = row_claim c" "cl_Fence c = f" "\<And>x. x \<in> claim_ids db \<Longrightarrow> snd x = f \<Longrightarrow> x = cl_id c"
    by (rule active_fence [OF inv a]) (rule that)
  have "cl_gen c = generation db (cl_LaunchSpecHash c)"
    using fence_outcome [OF inv c(1), of "[]"] a c(3) by (auto split: if_splits)
  then show ?thesis using that c by blast
qed

lemma materialize_echo:
  assumes "RecordLaunchMaterializationReady clock rnd request db = Inr (m, db')"
  shows "mz_LaunchFence m = mq_Fence request" "mz_MaterializationID m = mq_MaterializationID request"
    "mz_MaterializationHash m = mq_MaterializationHash request" "mz_Nonce m = mq_Nonce request"
  using assms by (auto simp: RecordLaunchMaterializationReady_def launch_unfold Let_def split: option.splits if_splits)

lemma materialize_boundary:
  assumes op: "RecordLaunchMaterializationReady clock rnd request db = Inr (m, db')" and inv: "launch_inv db"
  obtains b where "loadLaunchRecoveryBoundary db' (mz_LaunchSpecHash m) = Inr b" "tk_LaunchFence (lb_Claim b) = mq_Fence request"
    "lb_Materialization b = Some m"
proof -
  have inv': "launch_inv db'" by (rule launch_inv_materialize [OF op inv])
  obtain a s where "requireActiveLaunchFence db [] (mq_Fence request) = Inr a" using materialize_request(2) [OF op] by blast
  then obtain c where c: "c \<in> set (task_claims db)" "cl_Fence c = mq_Fence request" "cl_gen c = generation db (cl_LaunchSpecHash c)"
    "\<And>x. x \<in> claim_ids db \<Longrightarrow> snd x = mq_Fence request \<Longrightarrow> x = cl_id c" by (rule active_holder [OF inv]) (rule that)
  have w: "m \<in> set (launch_materializations db')" "task_claims db' = task_claims db"
    using op inv by (cases rule: materialize_writes; simp add: materialized_def)+
  have "mz_id m \<in> claim_ids db'" using launch_invD(6) [OF inv'] w(1) by (auto simp: outbox_inv_def mat_ids_def)
  then have m: "mz_id m = cl_id c" using c(4) [of "mz_id m"] materialize_echo(1) [OF op] w(2) by (simp add: claim_ids_def mz_id_def)
  then have "mat_of db' c = Some m" using mat_of(1) [OF launch_invD(7) [OF inv']] w(1) by simp
  moreover obtain b where "loadLaunchRecoveryBoundary db' (cl_LaunchSpecHash c) = Inr b" "lb_Claim b = row_claim c" "lb_Materialization b = mat_of db' c"
    by (rule active_boundary [OF inv', of c]) (use c w(2) that in \<open>simp_all add: generation_def\<close>)
  ultimately show ?thesis using that c(2) m by (simp add: row_claim_def mz_id_def cl_id_def)
qed

lemma run_boundary:
  assumes op: "CreateLaunchRunIntent clock rnd request db = Inr (e, db')" and inv: "launch_inv db"
  obtains b where "loadLaunchRecoveryBoundary db' (ri_LaunchSpecHash e) = Inr b" "tk_LaunchFence (lb_Claim b) = iq_Fence request" "lb_RunIntent b = Some e"
proof -
  have inv': "launch_inv db'" by (rule launch_inv_run [OF op inv])
  note res = run_result [OF op inv]
  obtain a where "requireActiveLaunchFence db [] (iq_Fence request) = Inr a" using op by (auto simp: CreateLaunchRunIntent_def andThen_Inr)
  then obtain c where c: "c \<in> set (task_claims db)" "cl_Fence c = iq_Fence request" "cl_gen c = generation db (cl_LaunchSpecHash c)"
    "\<And>x. x \<in> claim_ids db \<Longrightarrow> snd x = iq_Fence request \<Longrightarrow> x = cl_id c" by (rule active_holder [OF inv]) (rule that)
  have w: "task_claims db' = task_claims db" using op inv by (cases rule: run_writes; simp add: run_created_def)+
  obtain r f where r: "r \<in> set (launch_run_intents db')" "e = row_intent r f" "rw_RunID r = iq_RunID request"
    by (rule load_run_Some [OF conjunct1 [OF res]]) (rule that)
  have "rw_id r \<in> claim_ids db'" using launch_invD(6) [OF inv'] r(1) by (auto simp: outbox_inv_def run_ids_def)
  then have i: "rw_id r = cl_id c" using c(4) [of "rw_id r"] res r(2) w by (simp add: claim_ids_def rw_id_def row_intent_def)
  obtain b where b: "loadLaunchRecoveryBoundary db' (cl_LaunchSpecHash c) = Inr b" "lb_Claim b = row_claim c" "lb_Materialization b = mat_of db' c"
    by (rule active_boundary [OF inv', of c]) (use c w that in \<open>simp_all add: generation_def\<close>)
  have "loadLaunchRunIntentByGeneration db' (cl_LaunchSpecHash c) (cl_gen c) = Inr (Some e)"
    using load_run_generation(2) [OF inv' _ r(1) i] c(1) w res r(3) by simp
  then have "lb_RunIntent b = Some e"
    using boundary_parts(6) [OF b(1)] b(2) by (auto simp: boundary_run_def launch_unfold row_claim_def cl_gen_def Let_def)
  then show ?thesis using that b c(2) i r(2) by (simp add: row_claim_def row_intent_def rw_id_def cl_id_def)
qed

lemma acquire_boundary:
  assumes op: "AcquireLaunchClaim clock rnd request db = Inr (c, db')" and inv: "launch_inv db"
  obtains b where "loadLaunchRecoveryBoundary db' (cq_LaunchSpecHash request) = Inr b" "lb_Claim b = c" "matchesLaunchClaimRequest c request"
    "lb_Action b = LaunchRecoveryRetryMaterialization"
  using op inv
proof (rule acquire_writes)
  fix n i assume n: "c = row_claim n" "n = claim_row (clock 0) request 1" "new_claim db n"
    and db': "db' = claimed db n (launch_claim_heads db @ [new_head n]) (outbox_row (clock 1) i n 1 LaunchOutboxPendingMaterialization)"
  have inv': "launch_inv db'" by (rule launch_inv_acquire [OF op inv])
  have act: "active_claim db' (cl_LaunchSpecHash n) = Some n" using active_claimed(1) [OF inv' db'] n(3) by (simp add: new_claim_def)
  have "launch_view db' (cl_LaunchSpecHash n) = Some (cl_gen n, 1)" using view_claimed [OF inv inv' db' n(3)] by simp
  then have "stage db' n = 1" using act by (simp add: launch_view_def)
  moreover obtain b where b: "loadLaunchRecoveryBoundary db' (cl_LaunchSpecHash n) = Inr b" "lb_Claim b = row_claim n"
    "lb_Action b = stage_action (stage db' n)"
    by (rule boundary_exact [OF inv' act])
  moreover have "matchesLaunchClaimRequest c request" "cl_LaunchSpecHash n = cq_LaunchSpecHash request"
    by (simp_all add: n(1,2) matchesLaunchClaimRequest_def row_claim_def claim_row_def request_fence_def)
  ultimately show thesis using that n(1) by (simp add: stage_action_def)
qed

lemma acquire_active_boundary:
  assumes op: "AcquireLaunchClaim clock rnd request db = Inl ErrLaunchClaimAlreadyActive" and inv: "launch_inv db"
  obtains b where "loadLaunchRecoveryBoundary db (cq_LaunchSpecHash request) = Inr b"
proof -
  have "active_claim db (cq_LaunchSpecHash request) \<noteq> None"
  proof
    assume "active_claim db (cq_LaunchSpecHash request) = None"
    then have "loadActiveLaunchClaim db (cq_LaunchSpecHash request) = Inr None" using load_active [OF inv] by simp
    with op show False
      by (auto simp: AcquireLaunchClaim_def andThen_Inl validateLaunchClaimRequest_def loadLaunchSpec_def insertLaunchClaim_def insertLaunchOutbox_def
          require_def Let_def split: option.splits if_splits sum.splits)
  qed
  then obtain c where "active_claim db (cq_LaunchSpecHash request) = Some c" by blast
  then show ?thesis by (rule boundary_exact [OF inv]) (rule that)
qed

lemma no_boundary_error:
  assumes inv: "launch_inv db" and e: "loadLaunchRecoveryBoundary db h = Inl e"
  shows "e = ErrLaunchClaimNotFound"
proof (cases "active_claim db h")
  case None
  then show ?thesis using e load_active [OF inv, of h] by (simp add: loadLaunchRecoveryBoundary_def require_def)
next
  case (Some c)
  then obtain b where "loadLaunchRecoveryBoundary db h = Inr b" by (rule boundary_exact [OF inv]) (rule that)
  then show ?thesis using e by simp
qed

lemma stored_hash: "loadLaunchSpec db h = Inr (Some s) \<Longrightarrow> ss_LaunchSpecHash s = h"
  by (auto simp: loadLaunchSpec_def find_spec_def launch_unfold split: option.splits dest!: find_SomeD)

interpretation launch: fenced_store launchStore launch_inv
proof (unfold_locales, goal_cases)
  case (1 db now r s db')
  then have op: "StoreLaunchSpec now r db = Inr (s, db')" and inv: "launch_inv db" by simp_all
  show ?case using launch_step_inv [OF launch_step.store [OF op] inv] stored_hash [OF store_result(1) [OF op inv]] by simp
next
  case (2 db clock rnd q c db')
  then have op: "AcquireLaunchClaim clock rnd q db = Inr (c, db')" and inv: "launch_inv db" by simp_all
  obtain b where "loadLaunchRecoveryBoundary db' (cq_LaunchSpecHash q) = Inr b" "lb_Claim b = c" "matchesLaunchClaimRequest c q"
    "lb_Action b = LaunchRecoveryRetryMaterialization" by (rule acquire_boundary [OF op inv]) (rule that)
  then show ?case using launch_inv_acquire [OF op inv] by simp
next
  case (3 db clock rnd q)
  then have op: "AcquireLaunchClaim clock rnd q db = Inl ErrLaunchClaimAlreadyActive" and inv: "launch_inv db" by simp_all
  obtain b where "loadLaunchRecoveryBoundary db (cq_LaunchSpecHash q) = Inr b" by (rule acquire_active_boundary [OF op inv]) (rule that)
  then show ?case by simp
next
  case (4 db clock rnd m x db')
  then have op: "RecordLaunchMaterializationReady clock rnd m db = Inr (x, db')" and inv: "launch_inv db" by simp_all
  obtain b where "loadLaunchRecoveryBoundary db' (mz_LaunchSpecHash x) = Inr b" "tk_LaunchFence (lb_Claim b) = mq_Fence m" "lb_Materialization b = Some x"
    by (rule materialize_boundary [OF op inv]) (rule that)
  then show ?case using materialize_echo [OF op] launch_inv_materialize [OF op inv] by simp
next
  case (5 db clock rnd i y db')
  then have op: "CreateLaunchRunIntent clock rnd i db = Inr (y, db')" and inv: "launch_inv db" by simp_all
  note r = run_result [OF op inv]
  obtain r' f where "rw_RunID r' = iq_RunID i" "y = row_intent r' f" by (rule load_run_Some [OF conjunct1 [OF r]]) (rule that)
  then have "ri_RunID y = iq_RunID i" by (simp add: row_intent_def)
  moreover obtain b where "loadLaunchRecoveryBoundary db' (ri_LaunchSpecHash y) = Inr b" "tk_LaunchFence (lb_Claim b) = iq_Fence i" "lb_RunIntent b = Some y"
    by (rule run_boundary [OF op inv]) (rule that)
  ultimately show ?case using r launch_inv_run [OF op inv] by simp
next
  case (6 db h b)
  then show ?case using boundary_is_consistent boundary_parts(2) by simp
next
  case (7 db h e)
  then show ?case using no_boundary_error by simp
next
  case (8 db)
  then show ?case using listing_boundaries by simp
qed

end
