(* ===== verification/Fenced_Properties.thy ===== *)
theory Fenced_Properties
  imports Fenced_Provider Launch_Demo
begin

section \<open>Properties of the fenced launch orchestrator\<close>

text \<open>
  The theorems about \<^verbatim>\<open>src/internal/lifecycle/fenced_launch.go\<close> over launch admission, through the
  interpretation of \<open>fenced_store\<close>, with applications to the launch of \<^verbatim>\<open>Launch_Demo\<close>.
\<close>

text \<open>C11: The orchestrator agrees with the store: after a recorded materialization or run intent it answers with the
  obligation of the boundary the store then holds for that fence, which carries the recorded fact, and a refused
  record is passed on with nothing changed.  So neither call ever ends in the unsafe-boundary error.\<close>

theorem orchestrator_reports_boundary:
  assumes "launch_reachable db"
  shows "(case RecordLaunchMaterializationReady clock rnd m db of
        Inl e \<Rightarrow> recordTrustedMaterializationReady launchStore clock rnd m db = ((zero_action, Some (StoreError e)), db)
      | Inr (x, db') \<Rightarrow> \<exists>b. recordTrustedMaterializationReady launchStore clock rnd m db = (obligation b, db')
          \<and> GetLaunchRecoveryBoundary db' (mz_LaunchSpecHash x) = Inr b \<and> tk_LaunchFence (lb_Claim b) = mq_Fence m \<and> lb_Materialization b = Some x)
    \<and> (case CreateLaunchRunIntent clock rnd r db of
        Inl e \<Rightarrow> admitRunIntent launchStore clock rnd r db = ((zero_action, Some (StoreError e)), db)
      | Inr (y, db') \<Rightarrow> \<exists>b. admitRunIntent launchStore clock rnd r db = (obligation b, db')
          \<and> GetLaunchRecoveryBoundary db' (ri_LaunchSpecHash y) = Inr b \<and> tk_LaunchFence (lb_Claim b) = iq_Fence r \<and> lb_RunIntent b = Some y)"
proof -
  have inv: "launch_inv db" by (rule launch_reachable_inv [OF assms])
  have "\<exists>b. recordTrustedMaterializationReady launchStore clock rnd m db = (obligation b, db')
      \<and> GetLaunchRecoveryBoundary db' (mz_LaunchSpecHash x) = Inr b \<and> tk_LaunchFence (lb_Claim b) = mq_Fence m \<and> lb_Materialization b = Some x"
    if "RecordLaunchMaterializationReady clock rnd m db = Inr (x, db')" for x db'
    by (rule launch.materialized_obligation [OF inv, of clock rnd m x db']) (use that in \<open>simp_all add: GetLaunchRecoveryBoundary_def\<close>)
  moreover have "\<exists>b. admitRunIntent launchStore clock rnd r db = (obligation b, db')
      \<and> GetLaunchRecoveryBoundary db' (ri_LaunchSpecHash y) = Inr b \<and> tk_LaunchFence (lb_Claim b) = iq_Fence r \<and> lb_RunIntent b = Some y"
    if "CreateLaunchRunIntent clock rnd r db = Inr (y, db')" for y db'
    by (rule launch.run_obligation [OF inv, of clock rnd r y db']) (use that in \<open>simp_all add: GetLaunchRecoveryBoundary_def\<close>)
  ultimately show ?thesis
    by (simp add: recordTrustedMaterializationReady_def [of launchStore clock rnd m db] admitRunIntent_def [of launchStore clock rnd r db]
        split: sum.split)
qed

theorem orchestrator_reports_boundary_witness:
  "\<exists>b. recordTrustedMaterializationReady launchStore demo_clock (Some ''bb'') demo_mat_request claimed_db = (obligation b, materialized_db)
    \<and> lb_Materialization b = Some demo_mat"
  using orchestrator_reports_boundary [OF demo_history(1), where clock = demo_clock and rnd = "Some ''bb''" and m = demo_mat_request]
  by (auto simp: demo_materialized)

text \<open>C13: Recovery is exact: for a spec without a claim the orchestrator waits for a human with
  \<open>ErrLaunchClaimNotFound\<close>, for every other spec it gives the obligation of the stored boundary, and the recovery of
  all specs gives that of each claimed spec, once each, without an error.\<close>

theorem recovery_reports_obligation:
  assumes "launch_reachable db"
  shows "recover launchStore db h = (case GetLaunchRecoveryBoundary db h of
        Inl e \<Rightarrow> (waiting_action h (StoreError ErrLaunchClaimNotFound), Some (StoreError ErrLaunchClaimNotFound))
      | Inr b \<Rightarrow> obligation b)
    \<and> (\<exists>hs. recoverAll launchStore db = Inr (map (\<lambda>h. fst (recover launchStore db h)) hs) \<and> distinct hs
        \<and> set hs = cl_LaunchSpecHash ` set (task_claims db))"
proof -
  have inv: "launch_inv db" by (rule launch_reachable_inv [OF assms])
  let ?hs = "map lx_LaunchSpecHash (ListLaunchRecoveryBoundaries db)"
  have "recoverAll launchStore db = Inr (map (\<lambda>h. fst (recover launchStore db h)) ?hs)"
    using launch.recover_all [OF inv, of "ListLaunchRecoveryBoundaries db"] by (simp add: comp_def)
  moreover have "distinct ?hs" "set ?hs = cl_LaunchSpecHash ` set (task_claims db)" using listing_hashes [OF inv] by simp_all
  moreover have "recover launchStore db h = (case GetLaunchRecoveryBoundary db h of
        Inl e \<Rightarrow> (waiting_action h (StoreError ErrLaunchClaimNotFound), Some (StoreError ErrLaunchClaimNotFound)) | Inr b \<Rightarrow> obligation b)"
    using launch.recover_obligation [OF inv, of h] launch.recover_absent [OF inv, of h] by (simp add: GetLaunchRecoveryBoundary_def split: sum.split)
  ultimately show ?thesis by blast
qed

theorem recovery_reports_obligation_witness:
  "recover launchStore stored_db demo_lhash
    = (waiting_action demo_lhash (StoreError ErrLaunchClaimNotFound), Some (StoreError ErrLaunchClaimNotFound))
  \<and> recoverAll launchStore stored_db = Inr []"
  using recovery_reports_obligation [OF demo_launch_reachable(3), of demo_lhash]
  by (auto simp: GetLaunchRecoveryBoundary_def loadLaunchRecoveryBoundary_def loadActiveLaunchClaim_def require_def demo_db_defs)

subsection \<open>Admission\<close>

lemma store_repeats:
  assumes op: "StoreLaunchSpec now a db = Inr (s, db1)" and inv: "launch_inv db" and steps: "launch_step\<^sup>*\<^sup>* db1 db2"
  shows "StoreLaunchSpec now' a db2 = Inr (s, db2)"
proof -
  note r = store_result [OF op inv]
  have e: "launch_evolves db1 db2" using launch_steps_evolve [OF steps launch_step_inv [OF launch_step.store [OF op] inv]] by simp
  obtain canonical where "HashLaunchSpec (la_Spec a) = Inr (la_LaunchSpecHash a)" "ident_pattern 63 (la_ApprovalID a)"
    "launch_msg (canonicalJSON (launchSpecCanonicalValue (la_Spec a))) = Inr canonical"
    using op by (auto simp: StoreLaunchSpec_def andThen_Inr ensure_Inr)
  then show ?thesis using load_spec_kept [OF e r(1)] r(2,3) by (simp add: StoreLaunchSpec_def)
qed

lemma acquire_refused:
  assumes inv: "launch_inv db" and q: "validateLaunchClaimRequest q = Inr ()" and c: "cq_LaunchSpecHash q \<in> cl_LaunchSpecHash ` set (task_claims db)"
  shows "AcquireLaunchClaim clock rnd q db = Inl ErrLaunchClaimAlreadyActive"
proof -
  obtain x where x: "active_claim db (cq_LaunchSpecHash q) = Some x" using c active_None [OF inv] by blast
  obtain r where "find_spec (cq_LaunchSpecHash q) db = Some r" using launch_invD(4) [OF inv] c by (auto simp: claims_inv_def)
  then obtain s where "loadLaunchSpec db (cq_LaunchSpecHash q) = Inr (Some s)" by (rule load_spec [OF inv]) (rule that)
  then show ?thesis using q x load_active [OF inv, of "cq_LaunchSpecHash q"] by (simp add: AcquireLaunchClaim_def)
qed

lemma boundary_claim: "loadLaunchRecoveryBoundary db h = Inr b \<Longrightarrow> tk_LaunchSpecHash (lb_Claim b) = h"
  by (drule boundary_parts(1), erule load_active_Some) (simp add: row_claim_def)

lemma matches_request:
  "matchesLaunchClaimRequest c q \<longleftrightarrow> tk_LaunchSpecHash c = cq_LaunchSpecHash q \<and> lf_ClaimID (tk_LaunchFence c) = cq_ClaimID q
    \<and> lf_ClaimTokenHash (tk_LaunchFence c) = cq_ClaimTokenHash q \<and> tk_OwnerID c = cq_OwnerID q \<and> tk_Attempt c = cq_Attempt q"
  by (cases "tk_State c") (simp add: matchesLaunchClaimRequest_def)

text \<open>C12: Admission reconnects and never takes over: once a launch was admitted, whatever happened since, admitting it
  again changes nothing.  While no outcome is recorded, a request that names the active claim gets the active boundary to
  resume, and one with another claim, token, owner or attempt gets \<open>ErrLaunchClaimAlreadyActive\<close> and no boundary.  Once a
  terminal or evidence intent is recorded, every request gets \<open>errFencedLaunchOutcomeUnknown\<close> and waits for a human, and the
  answer carries the active boundary whether or not the request matches the claim.\<close>

theorem admission_reconnects:
  assumes "launch_reachable db" "admit launchStore now clock rnd a q db = ((action, None), db1)" "launch_step\<^sup>*\<^sup>* db1 db2"
    and "validateLaunchClaimRequest q' = Inr ()" "cq_LaunchSpecHash q' = cq_LaunchSpecHash q"
  shows "\<exists>b. GetLaunchRecoveryBoundary db2 (cq_LaunchSpecHash q) = Inr b
    \<and> admit launchStore now' clock' rnd' a q' db2 =
        (if outcome_recorded b
         then (\<lparr>fa_LaunchSpecHash = lb_LaunchSpecHash b, fa_Boundary = Some b, fa_WaitingForHuman = True,
             fa_Cause = Some errFencedLaunchOutcomeUnknown\<rparr>, Some errFencedLaunchOutcomeUnknown)
         else if lf_ClaimID (tk_LaunchFence (lb_Claim b)) = cq_ClaimID q' \<and> lf_ClaimTokenHash (tk_LaunchFence (lb_Claim b)) = cq_ClaimTokenHash q'
             \<and> tk_OwnerID (lb_Claim b) = cq_OwnerID q' \<and> tk_Attempt (lb_Claim b) = cq_Attempt q'
         then (\<lparr>fa_LaunchSpecHash = lb_LaunchSpecHash b, fa_Boundary = Some b, fa_WaitingForHuman = False, fa_Cause = None\<rparr>, None)
         else (zero_action, Some (StoreError ErrLaunchClaimAlreadyActive)), db2)"
proof -
  have inv: "launch_inv db" by (rule launch_reachable_inv [OF assms(1)])
  have h: "la_LaunchSpecHash a = cq_LaunchSpecHash q" using assms(2) by (auto simp: admit_def split: if_splits)
  obtain s dbs where s: "StoreLaunchSpec now a db = Inr (s, dbs)" using assms(2) by (auto simp: admit_def split: if_splits sum.splits)
  have invs: "launch_inv dbs" by (rule launch_step_inv [OF launch_step.store [OF s] inv])
  have c: "launch_step\<^sup>*\<^sup>* dbs db1 \<and> launch_inv db1 \<and> (\<exists>b. loadLaunchRecoveryBoundary db1 (cq_LaunchSpecHash q) = Inr b)"
    using assms(2) by (cases rule: launch.admit_cases [OF inv h, of now s dbs clock rnd]) (auto simp: s intro: launch_step.acquire)
  then obtain c where "c \<in> set (task_claims db1)" "cl_LaunchSpecHash c = cq_LaunchSpecHash q"
    using boundary_parts(1) load_active_Some by metis
  moreover have ev: "launch_inv db2" "launch_evolves db1 db2" using launch_steps_evolve [OF assms(3)] c by simp_all
  ultimately have "cq_LaunchSpecHash q' \<in> cl_LaunchSpecHash ` set (task_claims db2)" using claim_kept [OF ev(2)] assms(5) by force
  then have "AcquireLaunchClaim clock' rnd' q' db2 = Inl ErrLaunchClaimAlreadyActive" by (rule acquire_refused [OF ev(1) assms(4)])
  moreover have "StoreLaunchSpec now' a db2 = Inr (s, db2)" using store_repeats [OF s inv] c assms(3) by (blast intro: rtranclp_trans)
  ultimately show ?thesis
    using h assms(5) by (cases rule: launch.admit_cases [OF ev(1), of a q' now' s db2 clock' rnd']) (auto simp: GetLaunchRecoveryBoundary_def matches_request obligation_def dest: boundary_claim)
qed

lemma no_outcome:
  assumes "loadLaunchRecoveryBoundary db h = Inr b" "launch_terminal_intents db = []" "launch_evidence_intents db = []"
  shows "\<not> outcome_recorded b"
  using boundary_parts(6) [OF assms(1)] assms(2,3)
  by (auto simp: boundary_run_def launch_unfold Let_def loadLaunchTerminalIntent_def loadLaunchEvidenceIntent_def outcome_recorded_def
      split: option.splits)

lemma demo_admitted:
  "\<exists>action. admit launchStore demo_now demo_clock (Some ''aa'') demo_admission (demo_claim_request ''claim_one'' (CHR ''a'')) approved_launch_db
    = ((action, None), claimed_db)"
proof -
  let ?q = "demo_claim_request ''claim_one'' (CHR ''a'')"
  have h: "la_LaunchSpecHash demo_admission = cq_LaunchSpecHash ?q" by (simp add: demo_claim_request_def demo_admission_def)
  have s: "fs_StoreLaunchSpec launchStore demo_now demo_admission approved_launch_db = Inr (demo_stored, stored_db)" using demo_store by simp
  obtain b where b: "admit launchStore demo_now demo_clock (Some ''aa'') demo_admission ?q approved_launch_db = (obligation b, claimed_db)"
      "loadLaunchRecoveryBoundary claimed_db (cq_LaunchSpecHash ?q) = Inr b"
    by (cases rule: launch.admit_cases [OF launch_reachable_inv [OF demo_launch_reachable(2)] h s, of demo_clock "Some ''aa''"])
      (use demo_acquired that in \<open>auto\<close>)
  have "\<not> outcome_recorded b" by (rule no_outcome [OF b(2)]) (simp_all add: demo_db_defs)
  then show ?thesis using b(1) by (simp add: obligation_def)
qed

text \<open>The demonstration launch, asked for again under another claim: refused while it runs, and answered with the first claim's
  boundary once its terminal intent is recorded.\<close>

lemma demo_request:
  "cq_LaunchSpecHash (demo_claim_request i c) = demo_lhash" "cq_ClaimID (demo_claim_request i c) = i"
  by (simp_all add: demo_claim_request_def)

lemma demo_first_claim:
  assumes "loadLaunchRecoveryBoundary db demo_lhash = Inr b" "db = run_db \<or> db = terminal_db"
  shows "lb_Claim b = row_claim first_claim" "lf_ClaimID (tk_LaunchFence (lb_Claim b)) = ''claim_one''"
proof -
  show c: "lb_Claim b = row_claim first_claim"
    using assms(2) boundary_parts(1) [OF assms(1)]
    by (elim disjE) (simp add: loadActiveLaunchClaim_def demo_db_defs, simp add: demo_row_defs)+
  show "lf_ClaimID (tk_LaunchFence (lb_Claim b)) = ''claim_one''" unfolding c by (simp add: demo_row_defs)
qed

lemma demo_outcome:
  assumes "loadLaunchRecoveryBoundary terminal_db demo_lhash = Inr b"
  shows "outcome_recorded b"
proof -
  have "loadLaunchRunIntentByGeneration terminal_db demo_lhash 1
      = Inr (Some (row_intent (run_row demo_now demo_run_request first_claim) (created_fact demo_now first_claim)))"
    by (simp add: loadLaunchRunIntentByGeneration_def loadLaunchRunIntent_def demo_db_defs) (simp add: demo_row_defs require_def)
  moreover have "loadLaunchTerminalIntent terminal_db ''run_one'' = Some demo_terminal"
    by (simp add: loadLaunchTerminalIntent_def terminal_db_def demo_terminal_def)
  ultimately show ?thesis
    using boundary_parts(6) [OF assms] unfolding demo_first_claim(1) [OF assms disjI2 [OF refl]]
    by (auto simp: boundary_run_def launch_unfold Let_def outcome_recorded_def demo_row_defs)
qed

theorem admission_reconnects_witness:
  "admit launchStore demo_now demo_clock None demo_admission (demo_claim_request ''claim_two'' (CHR ''b'')) run_db
    = ((zero_action, Some (StoreError ErrLaunchClaimAlreadyActive)), run_db)
  \<and> (\<exists>b. lf_ClaimID (tk_LaunchFence (lb_Claim b)) = ''claim_one''
      \<and> admit launchStore demo_now demo_clock None demo_admission (demo_claim_request ''claim_two'' (CHR ''b'')) terminal_db
        = ((\<lparr>fa_LaunchSpecHash = lb_LaunchSpecHash b, fa_Boundary = Some b, fa_WaitingForHuman = True,
            fa_Cause = Some errFencedLaunchOutcomeUnknown\<rparr>, Some errFencedLaunchOutcomeUnknown), terminal_db))"
proof -
  obtain action where a: "admit launchStore demo_now demo_clock (Some ''aa'') demo_admission (demo_claim_request ''claim_one'' (CHR ''a'')) approved_launch_db
    = ((action, None), claimed_db)" using demo_admitted by blast
  have run: "launch_step\<^sup>*\<^sup>* claimed_db run_db"
    using launch_step.materialize [OF demo_materialized] launch_step.run [OF demo_run] by (meson rtranclp.simps)
  have terminal: "launch_step\<^sup>*\<^sup>* claimed_db terminal_db"
    by (rule rtranclp.rtrancl_into_rtrancl [OF run launch_step.terminal [OF demo_terminated]])
  note again = admission_reconnects [OF demo_launch_reachable(2) a _ demo_claims_ok(2), where now' = demo_now and clock' = demo_clock
      and rnd' = None, unfolded demo_request, OF _ refl]
  obtain b where b: "loadLaunchRecoveryBoundary run_db demo_lhash = Inr b"
    "admit launchStore demo_now demo_clock None demo_admission (demo_claim_request ''claim_two'' (CHR ''b'')) run_db
      = (if outcome_recorded b then (\<lparr>fa_LaunchSpecHash = lb_LaunchSpecHash b, fa_Boundary = Some b, fa_WaitingForHuman = True,
            fa_Cause = Some errFencedLaunchOutcomeUnknown\<rparr>, Some errFencedLaunchOutcomeUnknown)
         else (zero_action, Some (StoreError ErrLaunchClaimAlreadyActive)), run_db)"
    using again [OF run] demo_first_claim(2) [of run_db] by (fastforce simp: GetLaunchRecoveryBoundary_def)
  have "\<not> outcome_recorded b" by (rule no_outcome [OF b(1)]) (simp_all add: demo_db_defs)
  moreover obtain t where "loadLaunchRecoveryBoundary terminal_db demo_lhash = Inr t"
    "admit launchStore demo_now demo_clock None demo_admission (demo_claim_request ''claim_two'' (CHR ''b'')) terminal_db
      = ((\<lparr>fa_LaunchSpecHash = lb_LaunchSpecHash t, fa_Boundary = Some t, fa_WaitingForHuman = True,
            fa_Cause = Some errFencedLaunchOutcomeUnknown\<rparr>, Some errFencedLaunchOutcomeUnknown), terminal_db)"
    using again [OF terminal] demo_outcome by (fastforce simp: GetLaunchRecoveryBoundary_def)
  ultimately show ?thesis using b(2) demo_first_claim(2) [of terminal_db t] by auto
qed

end
