(* ===== verification/Transport_Frame.thy ===== *)
theory Transport_Frame
  imports Go_Strings "HOL-Library.Word" "HOL-Library.Sublist"
begin

section \<open>Frames on a connection\<close>

text \<open>
  Models \<^verbatim>\<open>src/internal/transportprimitives/frame.go\<close>: frames with a big-endian \<open>uint32\<close> length.  The
  connection is a parameter: an \<open>io.Writer\<close> is a function from its state and a buffer to the count, the
  error and the new state, an \<open>io.Reader\<close> one from its state and the size of the buffer to the bytes, the error
  and the new state.  \<open>io.ReadFull\<close> loops until the buffer is full, for ever on a reader that keeps
  returning nothing, so it is a \<open>partial_function\<close>.  Reads and writes may fail with any error and at any point; of the two
  interfaces the theorems assume only the documented bounds on the counts, \<open>io_reader\<close>, and that a writer's count is what
  it put on the connection, \<open>io_writer\<close>.
\<close>

unbundle bit_operations_syntax

text \<open>The errors of a connection: \<open>io.EOF\<close> and every other one.\<close>

datatype 'e conn_error =
    ErrEOF
  | ConnError 'e

datatype 'e frame_error =
    ErrFrameLimit
  | ErrUnexpectedEOF
  | ErrConn "'e conn_error"
  | SliceOutOfRange

type_synonym ('w, 'e) io_Writer = "'w \<Rightarrow> string \<Rightarrow> (int \<times> 'e conn_error option) \<times> 'w"
type_synonym ('r, 'e) io_Reader = "'r \<Rightarrow> nat \<Rightarrow> (string \<times> 'e conn_error option) \<times> 'r"

subsection \<open>Writing\<close>

function writeBytes :: "('w, 'e) io_Writer \<Rightarrow> 'w \<Rightarrow> string \<Rightarrow> 'e frame_error option \<times> 'w" where
  "writeBytes write w value =
     (if value = [] then (None, w)
      else case write w value of ((written, err), w') \<Rightarrow>
        (case err of
           Some e \<Rightarrow> (Some (ErrConn e), w')
         | None \<Rightarrow>
             if written = 0 then (Some ErrUnexpectedEOF, w')
             else if written < 0 \<or> int (length value) < written then (Some SliceOutOfRange, w')
             else writeBytes write w' (drop (nat written) value)))"
  by pat_completeness auto
termination
  by (relation "measure (\<lambda>(write, w, value). length value)") auto

declare writeBytes.simps [simp del]

text \<open>\<open>binary.BigEndian.PutUint32\<close> and \<open>Uint32\<close>.\<close>

definition PutUint32 :: "32 word \<Rightarrow> string" where
  "PutUint32 v = map (\<lambda>k. chr (unat (drop_bit k v AND 255))) [24, 16, 8, 0]"

definition Uint32 :: "string \<Rightarrow> 32 word" where
  "Uint32 b = push_bit 24 (of_nat (byte_of (b ! 0))) OR push_bit 16 (of_nat (byte_of (b ! 1)))
     OR push_bit 8 (of_nat (byte_of (b ! 2))) OR of_nat (byte_of (b ! 3))"

definition WriteFrame :: "('w, 'e) io_Writer \<Rightarrow> 'w \<Rightarrow> string \<Rightarrow> 32 word \<Rightarrow> 'e frame_error option \<times> 'w" where
  "WriteFrame write w payload limit =
     (if length payload = 0 \<or> unat limit < length payload then (Some ErrFrameLimit, w)
      else case writeBytes write w (PutUint32 (of_nat (length payload))) of
        (Some e, w) \<Rightarrow> (Some e, w)
      | (None, w) \<Rightarrow> writeBytes write w payload)"

subsection \<open>Reading\<close>

text \<open>The loop of \<open>io.ReadFull\<close> with \<open>n\<close> bytes still to read and \<open>buf\<close> read so far.\<close>

partial_function (option) ReadFull ::
    "('r, 'e) io_Reader \<Rightarrow> 'r \<Rightarrow> nat \<Rightarrow> string \<Rightarrow> (('e frame_error + string) \<times> 'r) option" where
  "ReadFull read r n buf =
     (if n = 0 then Some (Inr buf, r)
      else case read r n of ((bs, err), r') \<Rightarrow>
        if n \<le> length bs then Some (Inr (buf @ bs), r')
        else (case err of
                Some e \<Rightarrow> Some (Inl (if buf @ bs \<noteq> [] \<and> e = ErrEOF then ErrUnexpectedEOF else ErrConn e), r')
              | None \<Rightarrow> ReadFull read r' (n - length bs) (buf @ bs)))"

definition ReadFrame :: "('r, 'e) io_Reader \<Rightarrow> 'r \<Rightarrow> 32 word \<Rightarrow> (('e frame_error + string) \<times> 'r) option" where
  "ReadFrame read r limit =
     (case ReadFull read r 4 [] of
        None \<Rightarrow> None
      | Some (Inl e, r) \<Rightarrow> Some (Inl e, r)
      | Some (Inr header, r) \<Rightarrow>
          (let length = Uint32 header in
           if length = 0 \<or> limit < length then Some (Inl ErrFrameLimit, r)
           else ReadFull read r (unat length) []))"

subsection \<open>The connection\<close>

text \<open>A writer appends the bytes it counts to its output, \<open>out\<close>, and counts no more than it was given.\<close>

definition io_writer :: "('w, 'e) io_Writer \<Rightarrow> ('w \<Rightarrow> string) \<Rightarrow> bool" where
  "io_writer write out \<longleftrightarrow> (\<forall>w p. case write w p of ((n, err), w') \<Rightarrow> 0 \<le> n \<and> n \<le> int (length p) \<and> out w' = out w @ take (nat n) p)"

text \<open>A reader returns at most as many bytes as the buffer holds.\<close>

definition io_reader :: "('r, 'e) io_Reader \<Rightarrow> bool" where
  "io_reader read \<longleftrightarrow> (\<forall>r n. length (fst (fst (read r n))) \<le> n)"

text \<open>A sequence of reads, into buffers that are not empty: the bytes it delivered and the error of its last read.\<close>

inductive reading :: "('r, 'e) io_Reader \<Rightarrow> 'r \<Rightarrow> string \<Rightarrow> 'e conn_error option \<Rightarrow> 'r \<Rightarrow> bool" for read r where
  start: "reading read r [] None r"
| more_bytes: "reading read r d e r1 \<Longrightarrow> 0 < n \<Longrightarrow> read r1 n = ((bs, err), r') \<Longrightarrow> reading read r (d @ bs) err r'"

text \<open>A reader responds to a read when, after finitely many empty reads, it returns a byte or an error.  It stalls when after some
  reads it returns nothing for ever.\<close>

inductive responds :: "('r, 'e) io_Reader \<Rightarrow> nat \<Rightarrow> 'r \<Rightarrow> bool" for read n where
  answers: "read r n = ((bs, err), r') \<Longrightarrow> bs \<noteq> [] \<or> err \<noteq> None \<Longrightarrow> responds read n r"
| idles: "read r n = (([], None), r') \<Longrightarrow> responds read n r' \<Longrightarrow> responds read n r"

lemma no_response: "\<not> responds read n r \<Longrightarrow> \<exists>r'. read r n = (([], None), r') \<and> \<not> responds read n r'"
  by (metis answers idles prod.collapse)

definition stalls :: "('r, 'e) io_Reader \<Rightarrow> 'r \<Rightarrow> bool" where
  "stalls read r \<longleftrightarrow> (\<exists>d err r' n. reading read r d err r' \<and> 0 < n \<and> \<not> responds read n r')"

text \<open>The bytes \<open>s\<close> are next on the connection: what is read agrees with them, and the input does not end before them.\<close>

definition carries :: "('r, 'e) io_Reader \<Rightarrow> 'r \<Rightarrow> string \<Rightarrow> bool" where
  "carries read r s \<longleftrightarrow> (\<forall>d err r'. reading read r d err r' \<longrightarrow> (prefix d s \<or> prefix s d) \<and> (err = Some ErrEOF \<longrightarrow> prefix s d))"

subsection \<open>Big-endian numbers\<close>

lemma byte_word: "unat (x AND (255 :: 32 word)) < 256"
proof -
  have "x AND 255 \<le> (255 :: 32 word)" by (simp add: word_and_le1)
  then show ?thesis by (simp add: word_le_nat_alt)
qed

lemma Uint32_PutUint32: "Uint32 (PutUint32 v) = v"
proof -
  have b: "(of_nat (byte_of (chr (unat (x AND (255 :: 32 word))))) :: 32 word) = x AND 255" for x
    using byte_word [of x] by simp
  have m: "x AND (255 :: 32 word) = take_bit 8 x" for x
    by (simp add: take_bit_eq_mask mask_eq_exp_minus_1)
  have "push_bit 24 (take_bit 8 (drop_bit 24 v)) OR push_bit 16 (take_bit 8 (drop_bit 16 v)) OR push_bit 8 (take_bit 8 (drop_bit 8 v))
      OR take_bit 8 v = v" (is "?w = v")
  proof (rule bit_word_eqI)
    fix n assume "n < LENGTH(32)"
    then consider "n < 8" | "8 \<le> n" "n < 16" | "16 \<le> n" "n < 24" | "24 \<le> n" "n < 32" by fastforce
    then show "bit ?w n \<longleftrightarrow> bit v n" by cases (auto simp: bit_simps)
  qed
  then show ?thesis by (simp add: Uint32_def PutUint32_def m b [unfolded m])
qed

end
