(* ===== verification/Transport_Properties.thy ===== *)
theory Transport_Properties
  imports Transport_Frame
begin

section \<open>Properties of frames\<close>

text \<open>
  The theorems about \<^verbatim>\<open>src/internal/transportprimitives/frame.go\<close> on connections that split and pause as they
  like.
\<close>

lemma writeBytes_out:
  assumes "io_writer wr out" "writeBytes wr w v = (err, w')"
  shows "\<exists>k \<le> length v. out w' = out w @ take k v \<and> (err = None \<longrightarrow> k = length v)"
  using assms(2)
proof (induction v arbitrary: w rule: length_induct)
  case (1 v)
  show ?case
  proof (cases "v = []")
    case False
    obtain n e w1 where c: "wr w v = ((n, e), w1)" by (metis prod.collapse)
    have n: "0 \<le> n" "n \<le> int (length v)" "out w1 = out w @ take (nat n) v"
      using spec [OF spec [OF assms(1) [unfolded io_writer_def], of w], of v] c by simp_all
    show ?thesis
    proof (cases "e = None \<and> n \<noteq> 0")
      case True
      then have rec: "writeBytes wr w1 (drop (nat n) v) = (err, w')" and less: "length (drop (nat n) v) < length v"
        using "1.prems" c n False by (simp_all add: writeBytes.simps [of wr w v])
      from "1.IH" less rec obtain k where k: "k \<le> length (drop (nat n) v)" "out w' = out w1 @ take k (drop (nat n) v)"
        "err = None \<longrightarrow> k = length (drop (nat n) v)" by blast
      show ?thesis
        by (rule exI [of _ "nat n + k"]) (use k n True in \<open>auto simp: take_add\<close>)
    next
      case other: False
      then have "w' = w1" "err \<noteq> None" using "1.prems" c n False by (auto simp: writeBytes.simps [of wr w v] split: option.splits)
      then show ?thesis using n by (intro exI [of _ "nat n"]) auto
    qed
  qed (use "1.prems" in \<open>simp add: writeBytes.simps\<close>)
qed

lemma reading_append:
  assumes "reading rd r1 d' err r'" "reading rd r d e r1"
  shows "\<exists>err. reading rd r (d @ d') err r'"
  using assms(1)
proof induction
  case (more_bytes d' e r2 n bs err r')
  then show ?case using reading.more_bytes [of rd r "d @ d'" _ r2 n bs err r'] by auto
qed (use assms(2) in auto)

lemma stalls_later: "stalls rd r1 \<Longrightarrow> reading rd r d e r1 \<Longrightarrow> stalls rd r"
  unfolding stalls_def by (metis reading_append)

lemma stalls_next: "rd r n = ((bs, err), r') \<Longrightarrow> 0 < n \<Longrightarrow> stalls rd r' \<Longrightarrow> stalls rd r"
proof -
  assume "rd r n = ((bs, err), r')" "0 < n"
  then have "reading rd r ([] @ bs) err r'" by (rule reading.more_bytes [OF reading.start, rotated])
  then show "stalls rd r' \<Longrightarrow> stalls rd r" by (rule stalls_later [rotated])
qed

text \<open>What \<open>ReadFull\<close> returns: all the bytes asked for, or the error of the last read.\<close>

definition full_result :: "nat \<Rightarrow> string \<Rightarrow> string \<Rightarrow> 'e conn_error option \<Rightarrow> 'e frame_error + string \<Rightarrow> bool" where
  "full_result n buf d err res \<longleftrightarrow> (case res of
      Inr b \<Rightarrow> b = buf @ d \<and> length d = n
    | Inl e \<Rightarrow> length d < n \<and> (\<exists>c. err = Some c \<and> e = (if buf @ d \<noteq> [] \<and> c = ErrEOF then ErrUnexpectedEOF else ErrConn c)))"

lemma full_result_append: "full_result (n - length bs) (buf @ bs) d err res \<Longrightarrow> length bs < n \<Longrightarrow> full_result n buf (bs @ d) err res"
  by (cases res) (simp_all add: full_result_def, linarith)

lemma ReadFull_sound:
  assumes "ReadFull rd r n buf = Some y" "io_reader rd" "reading rd r0 d0 e0 r"
  shows "\<exists>d err. reading rd r0 (d0 @ d) err (snd y) \<and> full_result n buf d err (fst y)"
  using assms
proof (induction rd r n buf y arbitrary: d0 e0 rule: ReadFull.raw_induct [rotated 1, consumes 1])
  case (1 f rd r n buf y)
  show ?case
  proof (cases "n = 0")
    case False
    obtain bs err r1 where c: "rd r n = ((bs, err), r1)" by (metis prod.collapse)
    have l: "length bs \<le> n" using "1.prems"(1) c by (metis fst_conv io_reader_def)
    have rd: "reading rd r0 (d0 @ bs) err r1" using "1.prems"(2) c False by (blast intro: reading.more_bytes)
    show ?thesis
    proof (cases "err = None \<and> length bs < n")
      case True
      then have "f rd r1 (n - length bs) (buf @ bs) = Some y" using "1.hyps" c False by (auto split: if_splits)
      from "1.IH" [OF this "1.prems"(1) rd] obtain d e' where
        "reading rd r0 ((d0 @ bs) @ d) e' (snd y)" "full_result (n - length bs) (buf @ bs) d e' (fst y)" by blast
      then show ?thesis using full_result_append True by (intro exI [of _ "bs @ d"] exI [of _ e']) auto
    next
      case other: False
      then have "full_result n buf bs err (fst y)" "snd y = r1"
        using "1.hyps" c False l by (auto simp: full_result_def split: if_splits option.splits)
      then show ?thesis using rd by auto
    qed
  next
    case True
    then show ?thesis using "1.hyps" "1.prems"(2) by (intro exI [of _ "[]"] exI [of _ e0]) (auto simp: full_result_def)
  qed
qed

lemma ReadFull_returns:
  assumes "\<not> stalls rd r"
  shows "\<exists>x. ReadFull rd r n buf = Some x"
  using assms
proof (induction n arbitrary: r buf rule: less_induct)
  case (less n)
  show ?case
  proof (cases "n = 0")
    case False
    then have "responds rd n r" using less.prems reading.start [of rd r] unfolding stalls_def by blast
    then show ?thesis using less.prems
    proof induction
      case (answers r bs err r')
      show ?case
      proof (cases "err = None \<and> length bs < n")
        case True
        have "\<not> stalls rd r'" using answers(3) stalls_next [of rd r n bs err r', OF answers(1)] False by blast
        moreover have "n - length bs < n" using answers(2) True False by simp
        ultimately obtain x where "ReadFull rd r' (n - length bs) (buf @ bs) = Some x" using less.IH by blast
        then show ?thesis using True answers(1) False by (simp add: ReadFull.simps [of rd r])
      qed (use answers(1) False in \<open>auto simp: ReadFull.simps [of rd r]\<close>)
    next
      case (idles r r')
      have "\<not> stalls rd r'" using idles(4) stalls_next [of rd r n "[]" None r', OF idles(1)] False by blast
      then show ?case using idles False by (simp add: ReadFull.simps [of rd r])
    qed
  qed (simp add: ReadFull.simps)
qed

lemma length_PutUint32 [simp]: "length (PutUint32 v) = 4"
  by (simp add: PutUint32_def)

lemma WriteFrame_out:
  assumes "io_writer wr out" "WriteFrame wr w payload limit = (None, w')"
  shows "out w' = out w @ PutUint32 (of_nat (length payload)) @ payload" "0 < length payload" "length payload \<le> unat limit"
proof -
  let ?h = "PutUint32 (of_nat (length payload))"
  obtain w1 where w1: "writeBytes wr w ?h = (None, w1)" "writeBytes wr w1 payload = (None, w')" and l: "payload \<noteq> []" "length payload \<le> unat limit"
    using assms(2) by (auto simp: WriteFrame_def split: if_splits prod.splits option.splits)
  show "out w' = out w @ ?h @ payload" using writeBytes_out [OF assms(1) w1(1)] writeBytes_out [OF assms(1) w1(2)] by auto
  show "0 < length payload" "length payload \<le> unat limit" using l by simp_all
qed

text \<open>The bytes stop before the end of their frame.\<close>

definition truncated :: "32 word \<Rightarrow> string \<Rightarrow> bool" where
  "truncated limit d \<longleftrightarrow> length d < 4
     \<or> (let n = Uint32 (take 4 d) in 0 < n \<and> n \<le> limit \<and> length d < 4 + unat n)"

text \<open>What \<open>ReadFrame\<close> may answer after the bytes \<open>d\<close> and the error \<open>err\<close> of the last read.\<close>

definition frame_outcome :: "32 word \<Rightarrow> string \<Rightarrow> 'e conn_error option \<Rightarrow> 'e frame_error + string \<Rightarrow> bool" where
  "frame_outcome limit d err res \<longleftrightarrow> (case res of
     Inr payload \<Rightarrow> length d = 4 + length payload \<and> payload = drop 4 d \<and> unat (Uint32 (take 4 d)) = length payload
       \<and> 0 < length payload \<and> length payload \<le> unat limit
   | Inl ErrFrameLimit \<Rightarrow> length d = 4 \<and> (Uint32 d = 0 \<or> limit < Uint32 d)
   | Inl ErrUnexpectedEOF \<Rightarrow> err = Some ErrEOF \<and> truncated limit d \<and> length d \<noteq> 0 \<and> length d \<noteq> 4
   | Inl (ErrConn e) \<Rightarrow> err = Some e \<and> truncated limit d \<and> (e = ErrEOF \<longrightarrow> length d = 0 \<or> length d = 4)
   | Inl SliceOutOfRange \<Rightarrow> False)"

lemma short_header: "full_result 4 [] d err (Inl e) \<Longrightarrow> frame_outcome limit d err (Inl e)"
  by (auto simp: full_result_def frame_outcome_def truncated_def)

lemma short_payload:
  assumes "full_result 4 [] h err1 (Inr header)" "\<not> (Uint32 header = 0 \<or> limit < Uint32 header)" "full_result (unat (Uint32 header)) [] d err res"
  shows "frame_outcome limit (h @ d) err res"
proof -
  have h: "length h = 4" "header = h" using assms(1) by (simp_all add: full_result_def)
  have n: "0 < Uint32 h" "Uint32 h \<le> limit" "0 < unat (Uint32 h)" "unat (Uint32 h) \<le> unat limit"
    using assms(2) h by (simp_all add: word_gt_0 not_less unat_gt_0) (simp add: word_le_nat_alt)
  show ?thesis
  proof (cases res)
    case (Inl e)
    then have "length d < unat (Uint32 h)" using assms(3) h by (simp add: full_result_def)
    then have "truncated limit (h @ d)" using h n by (simp add: truncated_def)
    then show ?thesis using Inl assms(3) h by (auto simp: full_result_def frame_outcome_def)
  qed (use assms(3) h n in \<open>simp add: full_result_def frame_outcome_def\<close>)
qed

lemma ReadFrame_outcome:
  assumes rd: "io_reader rd" and res: "ReadFrame rd r limit = Some (res, r')"
  shows "\<exists>d err. reading rd r d err r' \<and> frame_outcome limit d err res"
proof -
  obtain y where y: "ReadFull rd r 4 [] = Some y" using res by (cases "ReadFull rd r 4 []") (simp_all add: ReadFrame_def)
  obtain h err1 where h: "reading rd r h err1 (snd y)" "full_result 4 [] h err1 (fst y)"
    using ReadFull_sound [OF y rd reading.start] by auto
  show ?thesis
  proof (cases "fst y")
    case (Inl e)
    then have "res = Inl e" "r' = snd y" using res y by (cases y; simp add: ReadFrame_def)+
    then show ?thesis using h Inl short_header by metis
  next
    case (Inr header)
    show ?thesis
    proof (cases "Uint32 header = 0 \<or> limit < Uint32 header")
      case True
      then have "res = Inl ErrFrameLimit" "r' = snd y" using res y Inr by (cases y; auto simp: ReadFrame_def Let_def)+
      then show ?thesis using h Inr True by (intro exI [of _ h] exI [of _ err1]) (simp add: full_result_def frame_outcome_def)
    next
      case False
      then have "ReadFull rd (snd y) (unat (Uint32 header)) [] = Some (res, r')" using res y Inr by (cases y; auto simp: ReadFrame_def Let_def)
      from ReadFull_sound [OF this rd h(1)] obtain d err where "reading rd r (h @ d) err r'" "full_result (unat (Uint32 header)) [] d err res"
        by auto
      then show ?thesis using short_payload [of h err1 header limit d err res] h(2) Inr False by auto
    qed
  qed
qed

lemma ReadFrame_returns:
  assumes "io_reader rd" "ReadFrame rd r limit = None"
  shows "stalls rd r"
proof (rule ccontr)
  assume s: "\<not> stalls rd r"
  obtain y where y: "ReadFull rd r 4 [] = Some y" using ReadFull_returns [OF s] by blast
  obtain h err where "reading rd r h err (snd y)" using ReadFull_sound [OF y assms(1) reading.start] by auto
  then have "\<not> stalls rd (snd y)" using s stalls_later [of rd "snd y" r h err] by blast
  then have n: "\<exists>x. ReadFull rd (snd y) n [] = Some x" for n by (rule ReadFull_returns)
  show False
  proof (cases "fst y")
    case (Inr header)
    then have "ReadFull rd (snd y) (unat (Uint32 header)) [] = None"
      using assms(2) y by (cases y) (simp add: ReadFrame_def Let_def split: if_splits)
    then show ?thesis using n [of "unat (Uint32 header)"] by simp
  qed (use assms(2) y in \<open>cases y; simp add: ReadFrame_def\<close>)
qed

text \<open>The outcome when a written frame is next on the connection.\<close>

lemma carried_outcome:
  assumes out: "s = PutUint32 (of_nat (length payload)) @ payload" "0 < length payload" "length payload \<le> unat limit"
    and limit: "limit \<le> limit'" and carries: "carries rd r s" and d: "reading rd r d err r'" "frame_outcome limit' d err res"
  shows "case res of Inr p \<Rightarrow> p = payload \<and> d = s | Inl e \<Rightarrow> \<exists>x. e = ErrConn (ConnError x) \<and> err = Some (ConnError x)"
proof -
  let ?l = "of_nat (length payload) :: 32 word"
  let ?s = "PutUint32 ?l @ payload"
  have l: "unat ?l = length payload" using out(3) unsigned_less [of limit, where 'a = nat] by (simp add: unat_of_nat)
  have lim: "?l \<noteq> 0" "\<not> limit' < ?l" using out(2,3) l limit by (auto simp: word_less_nat_alt word_le_nat_alt unat_gt_0 [symmetric])
  have c: "prefix d ?s \<or> prefix ?s d" "err = Some ErrEOF \<Longrightarrow> prefix ?s d" using carries d(1) unfolding out(1) carries_def by blast+
  have head: "take 4 d = PutUint32 ?l" if "4 \<le> length d"
    using c(1)
  proof
    assume "prefix d ?s"
    then obtain t where t: "?s = d @ t" by (rule prefixE)
    have "take 4 ?s = PutUint32 ?l" by simp
    then show ?thesis using that unfolding t by simp
  qed (auto simp: prefix_def)
  have complete: "\<not> truncated limit' d" if "prefix ?s d"
    using that head prefix_length_le [OF that] l by (simp add: truncated_def Uint32_PutUint32)
  show ?thesis
  proof (cases res)
    case (Inr p)
    have p: "length d = 4 + length p" "p = drop 4 d" "unat (Uint32 (take 4 d)) = length p"
      using d(2) [unfolded Inr frame_outcome_def sum.case] by blast+
    have "take 4 d = PutUint32 ?l" by (rule head) (simp add: p(1))
    then have "length p = length payload" using p(3) l by (simp add: Uint32_PutUint32)
    then have "length d = length ?s" using p(1) by simp
    then have "d = ?s" using c(1) by (elim disjE prefixE) (simp_all del: append_assoc)
    moreover note p(2)
    ultimately show ?thesis using Inr out(1) by simp
  next
    case (Inl e)
    have no: "\<not> (length d = 4 \<and> (Uint32 d = 0 \<or> limit' < Uint32 d))"
    proof
      assume a: "length d = 4 \<and> (Uint32 d = 0 \<or> limit' < Uint32 d)"
      then have "d = PutUint32 ?l" using head by simp
      then show False using a lim by (simp add: Uint32_PutUint32)
    qed
    have eof: "err = Some ErrEOF \<Longrightarrow> \<not> truncated limit' d" using complete c(2) by blast
    show ?thesis
    proof (cases e)
      case (ErrConn c)
      then show ?thesis using Inl d(2) eof by (cases c) (simp_all add: frame_outcome_def)
    qed (use Inl d(2) no eof in \<open>simp_all add: frame_outcome_def\<close>)
  qed
qed

text \<open>C39: A frame that was written is read back: whatever the writer and the reader do with the bytes (partial writes, short
  reads, pauses), when the bytes written within a limit are next on the connection, a reader with at least that limit takes exactly
  those bytes and returns exactly the payload.  The only other outcomes are the reader's own: a connection error, which is passed
  on, and a reader that stalls; neither ever turns into a payload.\<close>

theorem frame_roundtrip:
  fixes rd :: "('r, 'e) io_Reader"
  assumes "io_writer wr out" "io_reader rd" "WriteFrame wr w payload limit = (None, w')"
    and "carries rd r (drop (length (out w)) (out w'))" "limit \<le> limit'"
  shows "case ReadFrame rd r limit' of
      None \<Rightarrow> stalls rd r
    | Some (Inr p, r') \<Rightarrow> p = payload \<and> (\<exists>err. reading rd r (drop (length (out w)) (out w')) err r')
    | Some (Inl e, r') \<Rightarrow> \<exists>x d. e = ErrConn (ConnError x) \<and> reading rd r d (Some (ConnError x)) r'"
proof (cases "ReadFrame rd r limit'")
  case (Some y)
  obtain res r' where y: "y = (res, r')" by fastforce
  obtain d err where d: "reading rd r d err r'" "frame_outcome limit' d err res"
    using ReadFrame_outcome [OF assms(2) Some [unfolded y]] by blast
  have "case res of Inr p \<Rightarrow> p = payload \<and> d = drop (length (out w)) (out w') | Inl e \<Rightarrow> \<exists>x. e = ErrConn (ConnError x) \<and> err = Some (ConnError x)"
    by (rule carried_outcome [where limit = limit and limit' = limit'])
      (use WriteFrame_out [OF assms(1,3)] assms(4,5) d in simp_all)
  then show ?thesis using Some y d(1) by (auto split: sum.splits)
qed (simp add: ReadFrame_returns [OF assms(2)])

text \<open>C40: Reading is exact: on any reader that respects its buffer, \<open>ReadFrame\<close> returns unless the reader stalls, and its
  answer is the one for the bytes it consumed.  A payload has exactly the announced length, which is not zero and which the
  limit bounds; a length of zero or beyond the limit is refused after the header alone; an end of file inside a frame and every other
  error of the last read is reported, and then the frame was not complete.\<close>

theorem read_frame_exact:
  assumes "io_reader rd"
  shows "case ReadFrame rd r limit of
      None \<Rightarrow> stalls rd r
    | Some (res, r') \<Rightarrow> \<exists>d err. reading rd r d err r' \<and> frame_outcome limit d err res"
  using ReadFrame_outcome [OF assms, of r limit] ReadFrame_returns [OF assms, of r limit] by (auto split: option.split)

subsection \<open>A connection\<close>

text \<open>A reader whose state holds the input that is left carries what its input starts with.\<close>

lemma stream_carries:
  assumes "\<And>r n bs err r'. rd r n = ((bs, err), r') \<Longrightarrow> inp r = bs @ inp r' \<and> (err = Some ErrEOF \<longrightarrow> inp r' = [])"
    and "inp r = s @ later"
  shows "carries rd r s"
proof -
  have "inp r = d @ inp r' \<and> (err = Some ErrEOF \<longrightarrow> inp r' = [])" if "reading rd r d err r'" for d err r'
    using that
  proof induction
    case (more_bytes d e r1 n bs err r')
    then show ?case using assms(1) [OF more_bytes(3)] by simp
  qed simp
  then show ?thesis
    unfolding carries_def using assms(2) by (metis append_Nil2 prefixI prefix_same_cases)
qed

text \<open>A writer that takes at most three bytes at a time, and a reader that delivers at most two, pauses before each read, and
  fails for good after \<open>k\<close> bytes.\<close>

definition demo_write :: "(string, unit) io_Writer" where
  "demo_write w p = ((int (length (take 3 p)), None), w @ take 3 p)"

definition demo_read :: "(bool \<times> nat \<times> string, unit) io_Reader" where
  "demo_read r n = (case r of (paused, k, s) \<Rightarrow>
     if \<not> paused then (([], None), (True, k, s))
     else if k = 0 then (([], Some (ConnError ())), r)
     else if s = [] then (([], Some ErrEOF), r)
     else ((take (min 2 (min n k)) s, None), (False, k - min 2 (min n k), drop (min 2 (min n k)) s)))"

lemma demo_connection: "io_writer demo_write (\<lambda>w. w)" "io_reader demo_read"
  by (auto simp: io_writer_def demo_write_def min_def) (auto simp: io_reader_def demo_read_def)

lemma demo_carries: "carries demo_read (paused, k, s @ later) s"
  by (rule stream_carries [where inp = "\<lambda>(paused, k, s). s"]) (auto simp: demo_read_def split: if_splits)

lemma demo_written: "WriteFrame demo_write ''old'' ''hello'' 16 = (None, ''old'' @ PutUint32 5 @ ''hello'')"
  by (simp add: WriteFrame_def PutUint32_def writeBytes.simps demo_write_def)

lemma demo_frame: "PutUint32 5 = [chr 0, chr 0, chr 0, chr 5]" "Uint32 [chr 0, chr 0, chr 0, chr 5] = 5"
  by code_simp+

lemmas demo_reading = ReadFrame_def ReadFull.simps demo_read_def demo_frame

lemma demo_reads:
  "ReadFrame demo_read (False, 100, PutUint32 5 @ ''hello'' @ ''next'') 16 = Some (Inr ''hello'', (False, 91, ''next''))"
  "ReadFrame demo_read (False, 6, PutUint32 5 @ ''hello'' @ ''next'') 16 = Some (Inl (ErrConn (ConnError ())), (True, 0, ''llonext''))"
  by (simp_all add: demo_reading)

theorem frame_roundtrip_witness:
  "ReadFrame demo_read (False, 100, PutUint32 5 @ ''hello'' @ ''next'') 16 = Some (Inr ''hello'', (False, 91, ''next''))
  \<and> (\<exists>err. reading demo_read (False, 100, PutUint32 5 @ ''hello'' @ ''next'') (PutUint32 5 @ ''hello'') err (False, 91, ''next''))"
  using frame_roundtrip [OF demo_connection demo_written, of "(False, 100, PutUint32 5 @ ''hello'' @ ''next'')" 16]
    demo_carries [of False 100 "PutUint32 5 @ ''hello''" "''next''"] demo_reads(1) by simp

theorem read_frame_exact_witness:
  "\<exists>d. reading demo_read (False, 6, PutUint32 5 @ ''hello'' @ ''next'') d (Some (ConnError ())) (True, 0, ''llonext'') \<and> truncated 16 d"
  using read_frame_exact [OF demo_connection(2), of "(False, 6, PutUint32 5 @ ''hello'' @ ''next'')" 16] demo_reads(2)
  by (auto simp: frame_outcome_def)

end
