(* ===== verification/Spec2Isabelle.thy ===== *)
theory Spec2Isabelle
  imports Run_Properties JSON_Properties Proposal_Properties Grill_Properties Launch_Properties Fenced_Properties Transport_Properties
begin

text \<open>
  \<^bold>\<open>Ananke: a verification of its durable journal.\<close>

  Ananke runs long-lived worker processes under supervisors and keeps everything that must survive
  a crash in one SQLite database, \<^verbatim>\<open>src/internal/store\<close>.  This development models that package, the
  launch orchestrator above it and the framing of its connections, and proves what the rest of the
  program relies on.

  \<^bold>\<open>Modelling.\<close>  A table is the list of its rows in insertion order; \<open>SELECT\<close> is a filter,
  \<open>UPDATE ... WHERE\<close> is \<open>update_where\<close>, the affected-row count \<open>rows_affected\<close>, \<open>ORDER BY\<close> the
  stable \<open>order_by\<close>, and \<open>MAX\<close> is \<open>sql_max\<close>.  A transaction is a function from the tables to an error
  or to the new tables: an error is a rollback, so the tables stay as they were.  Key constraints
  that an insert can violate are error branches.  The clock is an argument (\<open>now\<close>, or \<open>clock\<close> where a call reads
  it more than once).  Go strings are byte strings; Go's integers are mathematical ones (row counts, file
  offsets, generations and attempts, below \<open>2 ^ 63\<close>), except the frame length, which is a 32-bit word.  I/O errors of the database, contexts and connection handling are not modelled.

  \<^bold>\<open>Basis.\<close>
  \<^item> \<^verbatim>\<open>Ananke_Prelude\<close>: tables, gapless numbering, error results, and the interfaces \<open>keyed_table\<close> (a table
    with a primary key) and \<open>seq_log\<close> (a per-owner numbered log), interpreted on every such table below.
  \<^item> \<^verbatim>\<open>Go_Strings\<close>, \<^verbatim>\<open>Go_Utf8\<close>: \<open>TrimSpace\<close>, decimal and hexadecimal text, \<open>RFC3339Nano\<close> times, the UTF-8 decoder.
  \<^item> \<^verbatim>\<open>Sha256\<close>: the digest of \<^verbatim>\<open>crypto/sha256\<close> on 32-bit words.

  \<^bold>\<open>The run journal\<close> (\<^verbatim>\<open>state.go\<close>, \<^verbatim>\<open>runs.go\<close>, \<^verbatim>\<open>transitions.go\<close>, \<^verbatim>\<open>cancellation.go\<close>, \<^verbatim>\<open>events.go\<close>, \<^verbatim>\<open>outbox.go\<close>,
  \<^verbatim>\<open>queries.go\<close>).  A run moves through the cleanup state machine; a terminal commit writes the state, a
  history record and a finalization-outbox row at once, and the outbox row is settled later.
  \<^item> \<^verbatim>\<open>Run_State\<close>: the state machine, interface \<open>cleanup_machine\<close>.  \<^verbatim>\<open>Run_Store\<close>: the six tables and every operation.
  \<^item> \<^verbatim>\<open>Run_Invariants\<close>: the step relation \<open>store_step\<close>, the invariant \<open>store_inv\<close> and its preservation.
  \<^item> \<^verbatim>\<open>Run_Evolution\<close>: how a run row and an outbox row change over sequences of operations.
  \<^item> \<^verbatim>\<open>Run_Refinement\<close>: the abstract machine of cleanup obligations and the simulation.
  \<^item> \<^verbatim>\<open>Run_Lemmas\<close>, \<^verbatim>\<open>Run_Demo\<close>, \<^verbatim>\<open>Run_Properties\<close>: derived facts, a concrete history, the properties: no terminal run
    without its outbox row, no lost cancellation, legal histories, exact event streams, a complete recovery scan.

  \<^bold>\<open>Canonical JSON\<close> (\<^verbatim>\<open>proposal_canonical.go\<close>), the RFC 8785 encoder whose SHA-256 digests identify everything below.
  \<^item> \<^verbatim>\<open>Canonical_JSON\<close>: the encoder.  \<^verbatim>\<open>Canonical_JSON_Facts\<close>: its equality with the reference encoding \<open>enc \<circ> canon\<close>
    and that the encoding is unambiguous.  \<^verbatim>\<open>Canonical_Number\<close>: decimal expansion.
  \<^item> \<^verbatim>\<open>Canonical_Parse\<close>: reading canonical texts back, as \<open>encoding/json\<close> does before the store compares the text
    with the canonical encoding of what it read.  \<^verbatim>\<open>JSON_Properties\<close>: the properties.

  \<^bold>\<open>Task proposals\<close> (\<^verbatim>\<open>proposals.go\<close>).  A proposal is a chain of immutable revisions, each with a lifecycle and an
  approval; every mutation is keyed for idempotency and logged.
  \<^item> \<^verbatim>\<open>Proposal_Types\<close>, \<^verbatim>\<open>Proposal_Store\<close>: requests, canonical bodies, validation; the six tables and the operations.
  \<^item> \<^verbatim>\<open>Proposal_Invariants\<close>, \<^verbatim>\<open>Proposal_Steps\<close>: the invariant \<open>proposal_inv\<close> and its preservation by each mutation.
  \<^item> \<^verbatim>\<open>Proposal_Facts\<close>, \<^verbatim>\<open>Proposal_Progress\<close>: append-only evolution, exact conditions of success, exact reads.
  \<^item> \<^verbatim>\<open>Proposal_Review\<close>: the abstract review machine and the simulation.
  \<^item> \<^verbatim>\<open>Proposal_Demo\<close>, \<^verbatim>\<open>Proposal_Properties\<close>: a concrete history and the properties.

  \<^bold>\<open>Grill review\<close> (\<^verbatim>\<open>grill.go\<close>).  A deterministic review asks up to six fixed questions of a revision.
  \<^item> \<^verbatim>\<open>Grill_Rules\<close>: the declaration, its validation, the rules and the pure evaluator.  \<^verbatim>\<open>Grill_Store\<close>: the two
    insert-only tables, the evaluation, the operator actions, the listing.
  \<^item> \<^verbatim>\<open>Grill_Invariants\<close>, \<^verbatim>\<open>Grill_Steps\<close>, \<^verbatim>\<open>Grill_Operations\<close>, \<^verbatim>\<open>Grill_Facts\<close>: the invariant \<open>grill_inv\<close> over Grill steps
    interleaved with proposal steps, the exact result of every operation, and repeatability.
  \<^item> \<^verbatim>\<open>Grill_Demo\<close>, \<^verbatim>\<open>Grill_Properties\<close>: a concrete review and the properties.

  \<^bold>\<open>Launch admission\<close> (\<^verbatim>\<open>launch_admission.go\<close>).  An approved revision is launched through a sealed spec; one claim at
  a time holds the spec, under a fence (claim, token, generation) that every later fact must present, and an outbox row per
  stage records what is due: materialization, run admission, process admission.
  \<^item> \<^verbatim>\<open>Launch_Types\<close>, \<^verbatim>\<open>Launch_Decode\<close>, \<^verbatim>\<open>Launch_Store\<close>: the spec with its validation, hash and decoding; the nine tables and every
    operation, with recovery and the guarded invocation.
  \<^item> \<^verbatim>\<open>Launch_Invariants\<close>, \<^verbatim>\<open>Launch_Steps\<close>, \<^verbatim>\<open>Launch_Intents\<close>: the steps (those of the proposals included), the invariant
    \<open>launch_inv\<close> and its preservation.  One side condition, \<open>real_clock\<close>: no approval was decided at Go's zero time, which the code
    reads as an undecided one.  \<^verbatim>\<open>Go_Stamp\<close>: a printed calendar time is read back as the same time.
  \<^item> \<^verbatim>\<open>Launch_Facts\<close>, \<^verbatim>\<open>Launch_Evolution\<close>, \<^verbatim>\<open>Launch_Replay\<close>: exact reads, how databases grow and the machine of generations and
    stages they refine, repeated calls, takeover, and the bound on the work under a set of claims.
  \<^item> \<^verbatim>\<open>Launch_Demo\<close>, \<^verbatim>\<open>Launch_Properties\<close>: a concrete launch and the properties: a stale fence is refused for ever, recovery
    never meets a corrupt record, fenced work ends, and how an undecided approval is refused.

  \<^bold>\<open>The launch orchestrator\<close> (\<^verbatim>\<open>src/internal/lifecycle/fenced_launch.go\<close>), a client of launch admission.
  \<^item> \<^verbatim>\<open>Fenced_Launch\<close>: its methods over a record of the store operations it calls.  \<^verbatim>\<open>Fenced_Contract\<close>: what it may rely on,
    the interface \<open>fenced_store\<close>, and what follows from it alone.  \<^verbatim>\<open>Fenced_Provider\<close>: launch admission provides the interface.
  \<^item> \<^verbatim>\<open>Fenced_Properties\<close>: the orchestrator always reports the obligation the store holds, and admission reconnects but never
    takes over.  After a recorded outcome admission shows the active boundary to every request, matching or not.

  \<^bold>\<open>Frames\<close> (\<^verbatim>\<open>src/internal/transportprimitives/frame.go\<close>).  \<^verbatim>\<open>Transport_Frame\<close>: length-prefixed frames over a writer and a
  reader that are parameters.  Of \<open>io.Reader\<close> only the documented bound on the count is assumed; reads may fail with any error
  and return nothing as often as they like.  The round trip also assumes of the writer that its counts are what it put on the
  connection, and of the connection that the frame's bytes come next and the input does not end before them (\<open>carries\<close>).
  \<^verbatim>\<open>Transport_Properties\<close>: the round trip and the exact result of reading, connection errors and stalling readers included.

  \<^bold>\<open>Termination and bounds.\<close>  Every loop of the modelled code runs over a list, or is a \<open>function\<close> with a measure (the
  UTF-8 decoder and the frame writer by the remaining bytes, the encoder by the size of the value).  Two exceptions: the JSON
  reader has fuel, twice the length of the text, which is enough because every nested value is at least a byte shorter; and
  \<open>io.ReadFull\<close>, which a reader can keep waiting for ever, is a \<open>partial_function\<close>, shown to return unless the reader stalls, that
  is, from some point on returns neither a byte nor an error for ever.
  Random bytes are an argument, \<open>None\<close> standing for a failing source.

  \<^bold>\<open>Not modelled.\<close>  Opening and migrating the SQLite file, connection pragmas and I/O errors; the external supervisor
  handoff and the evidence tables of the store; floating-point formatting in the JSON encoders; the packages outside: process
  supervision, sockets, sandboxing and worktrees (operating-system calls), the GUI server and the commands.
\<close>

end
